(* ===== verification/Ddb_Prelude.thy ===== *)
theory Ddb_Prelude
  imports
    Main
    "HOL-Library.Word"
    "HOL-Library.Sublist"
    "HOL-Library.Char_ord"
    "HOL-Library.List_Lexorder"
    "HOL-Library.Product_Lexorder"
    "HOL-Library.Multiset"
begin

text \<open>
  The shared vocabulary of the development: what the C++ sources use of the language and of
  its standard library. Undefined behaviour and exceptions are values of \<open>cxx_error\<close>, a
  function that can meet them returns \<open>'a res\<close>; a \<open>std::string\<close> is a \<open>string\<close> with
  \<open>find\<close>, \<open>substr\<close> and \<open>npos\<close> as the standard defines them; a C \<open>int\<close> is an \<open>int\<close> whose
  conversions wrap to 32 bits; \<open>std::map\<close> is an association list kept sorted by its keys.
\<close>

named_theorems cxx_eval \<open>equations that evaluate the model on concrete inputs\<close>

section \<open>Failures of C++ code\<close>

datatype cxx_error =
    OutOfRange       \<comment> \<open>\<open>std::out_of_range\<close>, thrown by \<open>substr\<close>\<close>
  | InvalidArgument  \<comment> \<open>\<open>std::invalid_argument\<close>, thrown by \<open>stoi\<close>\<close>
  | OutOfBounds      \<comment> \<open>undefined: \<open>operator[]\<close> or an iterator past the end\<close>
  | UninitRead       \<comment> \<open>undefined: an indeterminate value is read\<close>
  | NullDeref        \<comment> \<open>undefined: a null pointer is dereferenced\<close>
  | MissingReturn    \<comment> \<open>undefined: a value-returning function ends without \<open>return\<close>\<close>
  | EmptyPop         \<comment> \<open>undefined: \<open>pop_back\<close> on an empty container\<close>
  | BufferOverflow   \<comment> \<open>undefined: a write past a fixed-size array\<close>
  | BadCast          \<comment> \<open>undefined: an object is used through a pointer to another class\<close>
  | DoubleFree       \<comment> \<open>undefined: a block that is not allocated is released\<close>

type_synonym 'a res = "cxx_error + 'a"

definition rbind :: "'a res \<Rightarrow> ('a \<Rightarrow> 'b res) \<Rightarrow> 'b res" where
  "rbind m f = (case m of Inl e \<Rightarrow> Inl e | Inr x \<Rightarrow> f x)"

fun rfold :: "('a \<Rightarrow> 's \<Rightarrow> 's res) \<Rightarrow> 'a list \<Rightarrow> 's \<Rightarrow> 's res" where
  "rfold f [] s = Inr s"
| "rfold f (x # xs) s = rbind (f x s) (rfold f xs)"

fun rmap :: "('a \<Rightarrow> 'b res) \<Rightarrow> 'a list \<Rightarrow> 'b list res" where
  "rmap f [] = Inr []"
| "rmap f (x # xs) = rbind (f x) (\<lambda>y. rbind (rmap f xs) (\<lambda>ys. Inr (y # ys)))"

definition vat :: "'a list \<Rightarrow> nat \<Rightarrow> 'a res" where
  "vat xs i = (if i < length xs then Inr (xs ! i) else Inl OutOfBounds)"

section \<open>Machine integers\<close>

definition wrap32 :: "int \<Rightarrow> int" where
  "wrap32 x = (x + 2 ^ 31) mod 2 ^ 32 - 2 ^ 31"

definition INF_1e9 :: int where
  "INF_1e9 = 1000000000"

section \<open>Strings\<close>

fun find_from :: "string \<Rightarrow> string \<Rightarrow> nat \<Rightarrow> nat option" where
  "find_from [] p i = (if p = [] then Some i else None)"
| "find_from (c # cs) p i = (if prefix p (c # cs) then Some i else find_from cs p (Suc i))"

text \<open>
  \<open>None\<close> is \<open>npos\<close>, the largest \<open>size_t\<close>: adding \<open>k > 0\<close> to it wraps to \<open>k - 1\<close>, as a
  length to take it means the rest of the string, as a position it is out of range.
\<close>

definition str_find_at :: "string \<Rightarrow> string \<Rightarrow> nat \<Rightarrow> nat option" where
  "str_find_at s p pos = (if pos \<le> length s then find_from (drop pos s) p pos else None)"

definition str_find :: "string \<Rightarrow> string \<Rightarrow> nat option" where
  "str_find s p = find_from s p 0"

fun pos_plus :: "nat option \<Rightarrow> nat \<Rightarrow> nat" where
  "pos_plus None k = k - 1"
| "pos_plus (Some i) k = i + k"

definition substr :: "string \<Rightarrow> nat \<Rightarrow> nat option \<Rightarrow> string res" where
  "substr s pos n = (if pos \<le> length s
     then Inr (case n of None \<Rightarrow> drop pos s | Some k \<Rightarrow> take k (drop pos s)) else Inl OutOfRange)"

definition prefix_upto :: "string \<Rightarrow> nat option \<Rightarrow> string" where
  "prefix_upto s n = (case n of None \<Rightarrow> s | Some k \<Rightarrow> take k s)"

definition pop_back :: "'a list \<Rightarrow> 'a list res" where
  "pop_back xs = (if xs = [] then Inl EmptyPop else Inr (butlast xs))"

definition digit_char :: "nat \<Rightarrow> char" where
  "digit_char d = ''0123456789'' ! d"

fun nat_to_string :: "nat \<Rightarrow> string" where
  "nat_to_string n =
     (if n < 10 then [digit_char n] else nat_to_string (n div 10) @ [digit_char (n mod 10)])"

declare nat_to_string.simps [simp del]

definition to_string :: "int \<Rightarrow> string" where
  "to_string n = (if n < 0 then CHR ''-'' # nat_to_string (nat (- n)) else nat_to_string (nat n))"

fun join_with :: "'a list \<Rightarrow> 'a list list \<Rightarrow> 'a list" where
  "join_with sep [] = []"
| "join_with sep [x] = x"
| "join_with sep (x # y # ys) = x @ sep @ join_with sep (y # ys)"

section \<open>Ordered maps\<close>

text \<open>\<open>m[k] = v\<close>, the value at \<open>m[k]\<close> (a missing key reads as the default), and iteration order.\<close>

fun omap_set :: "'k::linorder \<Rightarrow> 'v \<Rightarrow> ('k \<times> 'v) list \<Rightarrow> ('k \<times> 'v) list" where
  "omap_set k v [] = [(k, v)]"
| "omap_set k v ((k', v') # m) =
     (if k < k' then (k, v) # (k', v') # m
      else if k = k' then (k, v) # m
      else (k', v') # omap_set k v m)"

definition omap_get :: "'v \<Rightarrow> ('k \<times> 'v) list \<Rightarrow> 'k \<Rightarrow> 'v" where
  "omap_get d m k = (case map_of m k of None \<Rightarrow> d | Some v \<Rightarrow> v)"

text \<open>\<open>m.insert({k, v})\<close>, which keeps an entry that is there.\<close>

definition map_insert :: "'k::linorder \<Rightarrow> 'v \<Rightarrow> ('k \<times> 'v) list \<Rightarrow> ('k \<times> 'v) list" where
  "map_insert k v m = (if k \<in> fst ` set m then m else omap_set k v m)"

section \<open>Laws of the failure values\<close>

lemma rbind_simps [simp]:
  "rbind (Inr x) f = f x"
  "rbind (Inl e) f = Inl e"
  by (simp_all add: rbind_def)

lemma rbind_eq_Inr: "rbind m f = Inr y \<longleftrightarrow> (\<exists>x. m = Inr x \<and> f x = Inr y)"
  by (cases m) auto

lemma rbind_Inr_elim [elim!]:
  assumes "rbind m f = Inr y"
  obtains x where "m = Inr x" and "f x = Inr y"
  using assms by (auto simp: rbind_eq_Inr)

lemma rbind_cong [fundef_cong]:
  "m = m' \<Longrightarrow> (\<And>x. m' = Inr x \<Longrightarrow> f x = g x) \<Longrightarrow> rbind m f = rbind m' g"
  by (cases m') auto

lemma rfold_append: "rfold f (xs @ ys) s = rbind (rfold f xs s) (rfold f ys)"
proof (induction xs arbitrary: s)
  case (Cons x xs)
  then show ?case by (cases "f x s") auto
qed simp

lemma rfold_invariant:
  assumes "rfold f xs s = Inr t" and "P s"
    and "\<And>x u v. x \<in> set xs \<Longrightarrow> P u \<Longrightarrow> f x u = Inr v \<Longrightarrow> P v"
  shows "P t"
  using assms by (induction xs arbitrary: s) auto

lemma rfold_total:
  assumes "P s" and "\<And>x u. x \<in> set xs \<Longrightarrow> P u \<Longrightarrow> \<exists>v. f x u = Inr v \<and> P v"
  shows "\<exists>t. rfold f xs s = Inr t \<and> P t"
  using assms
proof (induction xs arbitrary: s)
  case (Cons x xs)
  then obtain v where "f x s = Inr v" and "P v" by force
  with Cons show ?case by simp
qed simp

lemma rmap_eq_Inr: "rmap f xs = Inr ys \<longleftrightarrow> list_all2 (\<lambda>x y. f x = Inr y) xs ys"
  by (induction xs arbitrary: ys) (auto simp: rbind_eq_Inr list_all2_Cons1)

lemma vat_eq_Inr [simp]: "vat xs i = Inr x \<longleftrightarrow> i < length xs \<and> xs ! i = x"
  by (auto simp: vat_def)

lemma vat_in [simp]: "i < length xs \<Longrightarrow> vat xs i = Inr (xs ! i)"
  by (simp add: vat_def)

section \<open>Laws of the integers and strings\<close>

lemma substr_0 [simp]: "substr s 0 n = Inr (prefix_upto s n)"
  by (cases n) (simp_all add: substr_def prefix_upto_def)

lemma wrap32_id: "- (2 ^ 31) \<le> x \<Longrightarrow> x < 2 ^ 31 \<Longrightarrow> wrap32 x = x"
  by (simp add: wrap32_def)

lemma wrap32_bounds: "- (2 ^ 31) \<le> wrap32 x \<and> wrap32 x < 2 ^ 31"
  unfolding wrap32_def by (simp add: pos_mod_sign [of "2 ^ 32"] pos_mod_bound [of "2 ^ 32"])

lemma find_from_Some: "find_from s p i = Some k \<Longrightarrow> i \<le> k \<and> k \<le> i + length s \<and> prefix p (drop (k - i) s)"
proof (induction s arbitrary: i)
  case (Cons c cs)
  show ?case
  proof (cases "prefix p (c # cs)")
    case False
    with Cons.prems have "find_from cs p (Suc i) = Some k" by simp
    note IH = Cons.IH [OF this]
    then have "drop (k - i) (c # cs) = drop (k - Suc i) cs" by (simp add: drop_Cons')
    with IH show ?thesis by simp
  qed (use Cons.prems in auto)
qed (auto split: if_splits)

lemma find_from_None: "find_from s p i = None \<longleftrightarrow> \<not> sublist p s"
  by (induction s arbitrary: i) (auto simp: sublist_Cons_right)

lemma find_from_char:
  assumes "c \<notin> set s"
  shows "find_from (s @ c # t) [c] i = Some (i + length s)"
  using assms by (induction s arbitrary: i) auto

lemma find_from_no_char: "c \<notin> set s \<Longrightarrow> find_from s [c] i = None"
  by (induction s arbitrary: i) auto

lemma find_from_skip:
  assumes "hd p \<notin> set s" and "p \<noteq> []"
  shows "find_from (s @ t) p i = find_from t p (i + length s)"
  using assms
proof (induction s arbitrary: i)
  case (Cons a s)
  then have "\<not> prefix p (a # s @ t)" by (cases p) auto
  with Cons show ?case by simp
qed simp

lemma find_from_absent: "hd p \<notin> set s \<Longrightarrow> p \<noteq> [] \<Longrightarrow> find_from s p i = None"
  using find_from_skip [of p s "[]" i] by simp

lemma digit_char_code: "d < 10 \<Longrightarrow> of_char (digit_char d) = (48 + d :: nat)"
proof -
  assume "d < 10"
  then have "d \<in> {0, 1, 2, 3, 4, 5, 6, 7, 8, 9}" by auto
  then show ?thesis by (auto simp: digit_char_def)
qed

lemma digit_char_code_int: "d < 10 \<Longrightarrow> of_char (digit_char d) = 48 + int d"
  using digit_char_code [of d] of_nat_of_char [of "digit_char d", where ?'a = int] by simp

lemma nat_to_string_induct [case_names small big]:
  assumes "\<And>n. n < 10 \<Longrightarrow> P n" and "\<And>n. 10 \<le> n \<Longrightarrow> P (n div 10) \<Longrightarrow> P n"
  shows "P (n :: nat)"
proof (induction n rule: nat_to_string.induct)
  case (1 n)
  then show ?case using assms by (cases "n < 10") (auto simp: not_less)
qed

lemma nat_to_string_small: "n < 10 \<Longrightarrow> nat_to_string n = [digit_char n]"
  by (simp add: nat_to_string.simps)

lemma nat_to_string_big: "10 \<le> n \<Longrightarrow> nat_to_string n = nat_to_string (n div 10) @ [digit_char (n mod 10)]"
  by (subst nat_to_string.simps) simp

lemma nat_to_string_nonempty [simp]: "nat_to_string n \<noteq> []"
  by (subst nat_to_string.simps) simp

lemma nat_to_string_digits: "c \<in> set (nat_to_string n) \<Longrightarrow> 48 \<le> (of_char c :: int) \<and> of_char c \<le> (57 :: int)"
proof (induction n rule: nat_to_string_induct)
  case (small n)
  then show ?case by (auto simp: nat_to_string_small digit_char_code_int)
next
  case (big n)
  then show ?case by (auto simp: nat_to_string_big digit_char_code_int)
qed

section \<open>Laws of the folds and ordered maps\<close>

lemma fold_idle: "(\<And>x s. x \<in> set xs \<Longrightarrow> f x s = s) \<Longrightarrow> fold f xs s = s"
  by (induction xs) auto

lemma map_of_omap_set: "map_of (omap_set k v m) = (map_of m)(k \<mapsto> v)"
  by (induction m) auto

lemma omap_get_set [simp]: "omap_get d (omap_set k v m) = (omap_get d m)(k := v)"
  by (auto simp: omap_get_def map_of_omap_set)

lemma omap_get_Nil [simp]: "omap_get d [] k = d"
  by (simp add: omap_get_def)

lemma keys_omap_set: "fst ` set (omap_set k v m) = insert k (fst ` set m)"
  using arg_cong [OF map_of_omap_set [of k v m], of dom] by (simp add: dom_map_of_conv_image_fst)

lemma sorted_omap_set:
  "sorted_wrt (<) (map fst m) \<Longrightarrow> sorted_wrt (<) (map fst (omap_set k v m))"
proof (induction m)
  case (Cons kv m)
  obtain k' v' where kv: "kv = (k', v')" by (cases kv)
  from Cons.prems kv have gt: "\<And>x. x \<in> fst ` set m \<Longrightarrow> k' < x" by auto
  show ?case
  proof (cases "k < k'")
    case True
    with Cons.prems kv show ?thesis by (auto intro: order.strict_trans)
  next
    case False
    then show ?thesis using Cons kv gt keys_omap_set [of k v m] by (auto simp: not_less)
  qed
qed simp

lemma map_of_map_insert: "map_of (map_insert k v m) k' = (if k' = k \<and> map_of m k = None then Some v else map_of m k')"
  by (auto simp: map_insert_def map_of_omap_set map_of_eq_None_iff)

section \<open>Interfaces the components share\<close>

text \<open>A table that keeps the first entry for a key.\<close>

locale registry =
  fixes put :: "'k \<Rightarrow> 'v \<Rightarrow> 't \<Rightarrow> 't" and lookup :: "'t \<Rightarrow> 'k \<Rightarrow> 'v option"
  assumes lookup_put: "lookup (put k v t) k' = (if k' = k \<and> lookup t k = None then Some v else lookup t k')"
begin

lemma put_keeps: "lookup t k = Some v \<Longrightarrow> lookup (put k' v' t) k = Some v"
  by (auto simp: lookup_put)

lemma lookup_puts: "lookup (fold (\<lambda>kv. put (fst kv) (snd kv)) kvs t) = map_of kvs ++ lookup t"
proof (induction kvs arbitrary: t)
  case (Cons kv kvs)
  show ?case unfolding fold_simps Cons by (rule ext) (auto simp: lookup_put map_add_def split: option.splits)
qed simp

end

text \<open>A relation between the states before and after an effect, which folds over a sequence of effects keep.\<close>

locale effect_order =
  fixes R :: "'s \<Rightarrow> 's \<Rightarrow> bool"
  assumes R_refl: "R s s" and R_trans: "R s t \<Longrightarrow> R t u \<Longrightarrow> R s u"
begin

lemma rfold_effect:
  assumes "rfold f xs s = Inr t" and "\<And>x u v. x \<in> set xs \<Longrightarrow> f x u = Inr v \<Longrightarrow> R u v"
  shows "R s t"
  by (rule rfold_invariant [OF assms(1), of "R s"]) (auto intro: R_refl R_trans assms(2))

lemma fold_effect: "(\<And>x u. x \<in> set xs \<Longrightarrow> R u (f x u)) \<Longrightarrow> R s (fold f xs s)"
proof (induction xs arbitrary: s)
  case (Cons x xs)
  then have "R s (f x s)" "R (f x s) (fold f xs (f x s))" by auto
  then show ?case by (auto intro: R_trans)
qed (simp add: R_refl)

lemma steps_effect:
  assumes "step\<^sup>*\<^sup>* x y" and "\<And>u v. step u v \<Longrightarrow> R (f u) (f v)"
  shows "R (f x) (f y)"
  using assms(1) by (induction rule: rtranclp_induct) (auto intro: R_refl R_trans assms(2))

end

end
