(* ===== verification/Sql_Enums.thy ===== *)
theory Sql_Enums
  imports Ddb_Prelude
begin

text \<open>
  The enumerations of the SQL syntax tree, from \<open>sql/Expr.h\<close>, \<open>sql/ColumnType.h\<close>,
  \<open>sql/SelectStatement.h\<close>, \<open>sql/Table.h\<close> and the statement headers, and the printed names
  the code attaches to them.
\<close>

datatype (plugins only: code size) ExprType =
    kExprLiteralFloat | kExprLiteralString | kExprLiteralInt | kExprLiteralNull
  | kExprLiteralDate | kExprLiteralInterval | kExprStar | kExprParameter | kExprColumnRef
  | kExprFunctionRef | kExprOperator | kExprSelect | kExprHint | kExprArray
  | kExprArrayIndex | kExprExtract | kExprCast

datatype (plugins only: code size) OperatorType =
    kOpNone | kOpBetween | kOpCase | kOpCaseListElement
  | kOpPlus | kOpMinus | kOpAsterisk | kOpSlash | kOpPercentage | kOpCaret
  | kOpEquals | kOpNotEquals | kOpLess | kOpLessEq | kOpGreater | kOpGreaterEq
  | kOpLike | kOpNotLike | kOpILike | kOpAnd | kOpOr | kOpIn | kOpConcat
  | kOpNot | kOpUnaryMinus | kOpIsNull | kOpExists

datatype (plugins only: code size) DatetimeField =
    kDatetimeNone | kDatetimeSecond | kDatetimeMinute | kDatetimeHour | kDatetimeDay
  | kDatetimeMonth | kDatetimeYear

datatype (plugins only: code size) DataType =
    UNKNOWN | BIGINT | BOOLEAN | CHAR_type | DATE | DATETIME | DECIMAL | DOUBLE | FLOAT | INT_type
  | LONG | REAL | SMALLINT | TEXT | TIME | VARCHAR

datatype (plugins only: code size) OrderType = kOrderAsc | kOrderDesc

datatype (plugins only: code size) SetType = kSetUnion | kSetIntersect | kSetExcept

datatype (plugins only: code size) RowLockMode = ForUpdate | ForNoKeyUpdate | ForShare | ForKeyShare

datatype (plugins only: code size) RowLockWaitPolicy = NoWait | SkipLocked | NoPolicy

datatype (plugins only: code size) TableRefType = kTableName | kTableSelect | kTableJoin | kTableCrossProduct

datatype (plugins only: code size) JoinType =
  kJoinInner | kJoinFull | kJoinLeft | kJoinRight | kJoinCross | kJoinNatural

datatype (plugins only: code size) StatementType =
    kStmtError | kStmtSelect | kStmtImport | kStmtInsert | kStmtUpdate | kStmtDelete
  | kStmtCreate | kStmtDrop | kStmtPrepare | kStmtExecute | kStmtExport | kStmtRename
  | kStmtAlter | kStmtShow | kStmtTransaction

datatype (plugins only: code size) ConstraintType = NoConstraint | NotNull | NullConstraint | PrimaryKey | Unique

datatype (plugins only: code size) CreateType = kCreateTable | kCreateTableFromTbl | kCreateView | kCreateIndex

datatype (plugins only: code size) DropType =
  kDropTable | kDropSchema | kDropIndex | kDropView | kDropPreparedStatement

datatype (plugins only: code size) ImportType = kImportCSV | kImportTbl | kImportBinary | kImportAuto

datatype (plugins only: code size) InsertType = kInsertValues | kInsertSelect

datatype (plugins only: code size) ShowType = kShowColumns | kShowTables

datatype (plugins only: code size) TransactionCommand = kBeginTransaction | kCommitTransaction | kRollbackTransaction

datatype (plugins only: code size) ActionType = DropColumn

end
