(* ===== verification/Conditions.thy ===== *)
theory Conditions
  imports Sql_Enums
begin

text \<open>
  The selection conditions of the optimizer, from \<open>db_server/utils.h\<close>: the class
  \<open>Condition\<close> with its four constructors, \<open>ddbstr2int\<close>, \<open>get_section\<close>, and the plain
  structs \<open>Fragment\<close> and \<open>metadataTable\<close>. A member the constructor leaves uninitialised is
  \<open>None\<close>. \<open>sat_cond\<close> is what a condition means for a row.
\<close>

section \<open>The code\<close>

fun operatorToToken :: "OperatorType \<Rightarrow> string option" where
  "operatorToToken kOpEquals = Some ''=''"
| "operatorToToken kOpNotEquals = Some ''!=''"
| "operatorToToken kOpLess = Some ''<''"
| "operatorToToken kOpLessEq = Some ''<=''"
| "operatorToToken kOpGreater = Some ''>''"
| "operatorToToken kOpGreaterEq = Some ''>=''"
| "operatorToToken kOpAnd = Some ''AND''"
| "operatorToToken _ = None"

fun ddbstr2int_loop :: "int \<Rightarrow> string \<Rightarrow> int" where
  "ddbstr2int_loop ans [] = ans"
| "ddbstr2int_loop ans (c # cs) =
     (if 48 \<le> (of_char c :: int) \<and> of_char c \<le> (57 :: int)
      then ddbstr2int_loop (wrap32 (ans * 10 + of_char c - 48)) cs
      else - 1)"

definition ddbstr2int :: "string \<Rightarrow> int" where
  "ddbstr2int num = ddbstr2int_loop 0 num"

record Condition =
  cond_table :: string
  cond_attr :: string
  cond_opt :: string
  cond_type :: string
  cond_ival :: "int option"
  cond_sval :: string

definition Condition_blank :: Condition where
  "Condition_blank = \<lparr>cond_table = [], cond_attr = [], cond_opt = [], cond_type = [],
     cond_ival = None, cond_sval = []\<rparr>"

definition Condition_op :: "OperatorType \<Rightarrow> string \<Rightarrow> string \<Rightarrow> Condition res" where
  "Condition_op op table attr = (case operatorToToken op of
       None \<Rightarrow> Inl OutOfBounds
     | Some tok \<Rightarrow> Inr (Condition_blank\<lparr>cond_opt := tok, cond_table := table, cond_attr := attr\<rparr>))"

definition Condition_tok :: "string \<Rightarrow> string \<Rightarrow> string \<Rightarrow> Condition" where
  "Condition_tok tok table attr =
     Condition_blank\<lparr>cond_opt := tok, cond_table := table, cond_attr := attr\<rparr>"

definition parse_opt :: "string \<Rightarrow> string \<Rightarrow> Condition \<Rightarrow> Condition" where
  "parse_opt cond opti c = (case find_from cond opti 0 of
       None \<Rightarrow> c
     | Some k \<Rightarrow>
         let cur = take k cond;
             rest = drop (k + length opti) cond;
             i = ddbstr2int rest;
             c = c\<lparr>cond_opt := opti, cond_table := prefix_upto cur (str_find cur ''.''),
                   cond_attr := drop (pos_plus (str_find cur ''.'') 1) cur, cond_ival := Some i\<rparr>
         in if i = - 1 then c\<lparr>cond_type := ''string'', cond_sval := rest\<rparr>
            else c\<lparr>cond_type := ''int''\<rparr>)"

definition condition_opts :: "string list" where
  "condition_opts = [''='', ''>'', ''<'', ''>='', ''<='', ''!='']"

definition Condition_parse :: "string \<Rightarrow> Condition" where
  "Condition_parse cond = fold (parse_opt cond) condition_opts Condition_blank"

definition Condition_section :: "string \<Rightarrow> string \<Rightarrow> int \<Rightarrow> int \<Rightarrow> Condition" where
  "Condition_section table attr a b =
     (let c = Condition_blank\<lparr>cond_table := table, cond_attr := attr, cond_type := ''int''\<rparr>
      in if a = - INF_1e9 then c\<lparr>cond_opt := ''<='', cond_ival := Some b\<rparr>
         else if b = INF_1e9 then c\<lparr>cond_opt := ''>='', cond_ival := Some a\<rparr>
         else c\<lparr>cond_opt := ''='', cond_ival := Some a\<rparr>)"

text \<open>The two reference arguments are one value; \<open>None\<close> is an indeterminate pair.\<close>

definition get_section :: "Condition \<Rightarrow> (int \<times> int) option \<Rightarrow> (int \<times> int) option" where
  "get_section c ab =
     (if cond_opt c = ''='' then map_option (\<lambda>v. (v, v)) (cond_ival c)
      else if cond_opt c = ''>'' then map_option (\<lambda>v. (wrap32 (v + 1), INF_1e9)) (cond_ival c)
      else if cond_opt c = ''<'' then map_option (\<lambda>v. (- INF_1e9, wrap32 (v - 1))) (cond_ival c)
      else if cond_opt c = ''>='' then map_option (\<lambda>v. (v, INF_1e9)) (cond_ival c)
      else if cond_opt c = ''<='' then map_option (\<lambda>v. (- INF_1e9, v)) (cond_ival c)
      else ab)"

text \<open>
  \<open>Fragment\<close> in \<open>utils.h\<close> has no \<open>size\<close>; \<open>optimizer/preprocess.h\<close> constructs it with a size
  and reads \<open>frag.size\<close>, so the record carries that member too.
\<close>

record Fragment =
  frag_fname :: "string \<times> int"
  frag_site :: int
  frag_type :: string
  frag_size :: int
  frag_vf_column :: "string list"
  frag_hf_condition :: "Condition list"

definition Fragment_new :: "string \<times> int \<Rightarrow> int \<Rightarrow> string \<Rightarrow> int \<Rightarrow> Fragment" where
  "Fragment_new fname site type sz = \<lparr>frag_fname = fname, frag_site = site, frag_type = type,
     frag_size = sz, frag_vf_column = [], frag_hf_condition = []\<rparr>"

record metadataTable =
  mt_name :: string
  mt_type :: string
  mt_key_column :: string
  mt_frags :: "Fragment list"
  mt_attrs :: "string list"

definition metadataTable_new :: "string \<Rightarrow> string \<Rightarrow> string \<Rightarrow> metadataTable" where
  "metadataTable_new name type key = \<lparr>mt_name = name, mt_type = type, mt_key_column = key,
     mt_frags = [], mt_attrs = []\<rparr>"

section \<open>What a condition means\<close>

datatype cell = IntCell int | StrCell string

type_synonym row = "string \<Rightarrow> string \<Rightarrow> cell"

fun cmp_int :: "string \<Rightarrow> int \<Rightarrow> int \<Rightarrow> bool" where
  "cmp_int opt v i =
     (if opt = ''='' then v = i else if opt = ''>'' then v > i else if opt = ''<'' then v < i
      else if opt = ''>='' then v \<ge> i else if opt = ''<='' then v \<le> i
      else if opt = ''!='' then v \<noteq> i else False)"

definition sat_cond :: "row \<Rightarrow> Condition \<Rightarrow> bool" where
  "sat_cond r c = (case r (cond_table c) (cond_attr c) of
       IntCell v \<Rightarrow> cond_type c = ''int'' \<and> (case cond_ival c of None \<Rightarrow> False
                                              | Some i \<Rightarrow> cmp_int (cond_opt c) v i)
     | StrCell s \<Rightarrow> cond_type c = ''string'' \<and>
         (if cond_opt c = ''='' then s = cond_sval c
          else if cond_opt c = ''!='' then s \<noteq> cond_sval c else False))"

text \<open>
  The conditions the optimizer treats exactly: an integer comparison whose bound can be moved by
  one without overflow, or an equality with a string.
\<close>

definition wf_cond :: "Condition \<Rightarrow> bool" where
  "wf_cond c = ((cond_type c = ''int'' \<and> cond_opt c \<in> {''='', ''>'', ''<'', ''>='', ''<=''} \<and>
                 (case cond_ival c of None \<Rightarrow> False
                  | Some i \<Rightarrow> - (2 ^ 31) < i \<and> i < 2 ^ 31 - 1)) \<or>
                (cond_type c = ''string'' \<and> cond_opt c = ''=''))"

text \<open>A row whose integers lie within the infinity the code uses.\<close>

definition bounded_row :: "row \<Rightarrow> bool" where
  "bounded_row r = (\<forall>t a v. r t a = IntCell v \<longrightarrow> - INF_1e9 \<le> v \<and> v \<le> INF_1e9)"

definition opt_char :: "char \<Rightarrow> bool" where
  "opt_char c = (c \<in> {CHR ''='', CHR ''>'', CHR ''<'', CHR ''!''})"

section \<open>Sections\<close>

lemma in_section_iff:
  assumes wf: "wf_cond c" and int: "cond_type c = ''int''"
    and cell: "r (cond_table c) (cond_attr c) = IntCell v" and bnd: "- INF_1e9 \<le> v" "v \<le> INF_1e9"
  shows "\<exists>a b. get_section c ab = Some (a, b) \<and> - INF_1e9 \<le> max a (- INF_1e9) \<and>
               (sat_cond r c \<longleftrightarrow> a \<le> v \<and> v \<le> b)"
proof -
  from wf int obtain i where i: "cond_ival c = Some i" "- (2 ^ 31) < i" "i < 2 ^ 31 - 1"
    and opt: "cond_opt c \<in> {''='', ''>'', ''<'', ''>='', ''<=''}"
    by (auto simp: wf_cond_def split: option.splits)
  have w: "wrap32 (i + 1) = i + 1" "wrap32 (i - 1) = i - 1"
    using i by (simp_all add: wrap32_id)
  from opt i w int cell bnd show ?thesis
    by (auto simp: get_section_def sat_cond_def)
qed

lemma sat_Condition_section:
  assumes "r t x = IntCell v"
  shows "sat_cond r (Condition_section t x a b) \<longleftrightarrow>
     (if a = - INF_1e9 then v \<le> b else if b = INF_1e9 then a \<le> v else v = a)"
  using assms by (simp add: Condition_section_def sat_cond_def Condition_blank_def Let_def)

section \<open>Parsing\<close>

lemma ddbstr2int_loop_append:
  "ddbstr2int_loop a (xs @ ys) =
     (if \<forall>c \<in> set xs. 48 \<le> (of_char c :: int) \<and> of_char c \<le> (57 :: int)
      then ddbstr2int_loop (ddbstr2int_loop a xs) ys else - 1)"
  by (induction xs arbitrary: a) auto

lemma ddbstr2int_nat_to_string: "n < 2 ^ 31 \<Longrightarrow> ddbstr2int (nat_to_string n) = int n"
proof (induction n rule: nat_to_string_induct)
  case (small n)
  then show ?case
    by (simp add: ddbstr2int_def nat_to_string_small digit_char_code_int wrap32_id)
next
  case (big n)
  then have IH: "ddbstr2int_loop 0 (nat_to_string (n div 10)) = int (n div 10)"
    by (simp add: ddbstr2int_def)
  have "int (n div 10) * 10 + int (n mod 10) = int n"
    by (metis add.commute mod_mult_div_eq mult.commute of_nat_add of_nat_mult of_nat_numeral)
  with big nat_to_string_digits [of _ "n div 10"] show ?case
    by (simp add: ddbstr2int_def nat_to_string_big ddbstr2int_loop_append IH digit_char_code_int
        wrap32_id)
qed

text \<open>
  In \<open>pre @ opt @ val\<close>, where only \<open>opt\<close> holds operator characters, the loop over
  \<open>condition_opts\<close> ends with \<open>opt\<close>: the longer operators come after their prefixes.
\<close>

lemma parse_opt_absent: "find_from cond opti 0 = None \<Longrightarrow> parse_opt cond opti c = c"
  by (simp add: parse_opt_def)

lemma split_dot:
  "CHR ''.'' \<notin> set t \<Longrightarrow> str_find (t @ ''.'' @ a) ''.'' = Some (length t)"
  using find_from_skip [of "''.''" t "''.'' @ a" 0] by (simp add: str_find_def)

lemma parse_opt_found:
  assumes "find_from cond opti 0 = Some (length t + 1 + length a)"
    and "cond = (t @ ''.'' @ a) @ opti @ val" and "CHR ''.'' \<notin> set t"
  shows "parse_opt cond opti c =
     (let c = c\<lparr>cond_opt := opti, cond_table := t, cond_attr := a, cond_ival := Some (ddbstr2int val)\<rparr>
      in if ddbstr2int val = - 1 then c\<lparr>cond_type := ''string'', cond_sval := val\<rparr>
         else c\<lparr>cond_type := ''int''\<rparr>)"
proof -
  have "take (length t + 1 + length a) cond = t @ ''.'' @ a"
    and "drop (length t + 1 + length a + length opti) cond = val"
    using assms(2) by simp_all
  with assms(1) show ?thesis
    using split_dot [OF assms(3), of a] by (simp add: parse_opt_def prefix_upto_def Let_def)
qed

lemma condition_opts_hd: "p \<in> set condition_opts \<Longrightarrow> p \<noteq> [] \<and> opt_char (hd p)"
  by (auto simp: condition_opts_def opt_char_def)

lemma condition_opts_absent:
  assumes "p \<in> set condition_opts" and "\<forall>c \<in> set s. \<not> opt_char c"
  shows "find_from (s @ u) p i = find_from u p (i + length s)"
    and "find_from s p i = None"
  using assms condition_opts_hd [OF assms(1)] find_from_skip [of p s u i] find_from_absent [of p s i]
  by blast+

lemma opt_char_simps [simp]:
  "opt_char CHR ''=''" "opt_char CHR ''>''" "opt_char CHR ''<''" "opt_char CHR ''!''" "\<not> opt_char CHR ''.''"
  by (simp_all add: opt_char_def)

lemma no_opt_prefix:
  assumes v: "\<forall>c \<in> set v. \<not> opt_char c" and c: "opt_char c"
  shows "\<not> prefix (c # cs) v" and "find_from v (c # cs) i = None"
proof -
  from v c have "c \<notin> set v" by blast
  then show "\<not> prefix (c # cs) v" and "find_from v (c # cs) i = None"
    by (auto simp: prefix_def intro: find_from_absent)
qed

lemma condition_opts_split:
  assumes "opt \<in> set condition_opts"
  obtains pre post where "condition_opts = pre @ opt # post"
    and "\<And>p v k. p \<in> set post \<Longrightarrow> \<forall>c \<in> set v. \<not> opt_char c \<Longrightarrow> find_from (opt @ v) p k = None"
proof -
  from assms consider "opt = ''=''" | "opt = ''>''" | "opt = ''<''" | "opt = ''>=''" | "opt = ''<=''" | "opt = ''!=''"
    by (auto simp: condition_opts_def)
  then show thesis
  proof cases
    case 1
    show thesis by (rule that [of "[]" "[''>'', ''<'', ''>='', ''<='', ''!='']"]) (auto simp: 1 condition_opts_def no_opt_prefix)
  next
    case 2
    show thesis by (rule that [of "[''='']" "[''<'', ''>='', ''<='', ''!='']"]) (auto simp: 2 condition_opts_def no_opt_prefix)
  next
    case 3
    show thesis by (rule that [of "[''='', ''>'']" "[''>='', ''<='', ''!='']"]) (auto simp: 3 condition_opts_def no_opt_prefix)
  next
    case 4
    show thesis by (rule that [of "[''='', ''>'', ''<'']" "[''<='', ''!='']"]) (auto simp: 4 condition_opts_def no_opt_prefix)
  next
    case 5
    show thesis by (rule that [of "[''='', ''>'', ''<'', ''>='']" "[''!='']"]) (auto simp: 5 condition_opts_def no_opt_prefix)
  next
    case 6
    show thesis by (rule that [of "[''='', ''>'', ''<'', ''>='', ''<='']" "[]"]) (auto simp: 6 condition_opts_def no_opt_prefix)
  qed
qed

lemma Condition_parse_last:
  assumes opt: "opt \<in> set condition_opts"
    and pre: "\<forall>c \<in> set (t @ a). \<not> opt_char c" "CHR ''.'' \<notin> set t"
    and val: "\<forall>c \<in> set v. \<not> opt_char c"
  shows "\<exists>c. Condition_parse (t @ ''.'' @ a @ opt @ v) =
     (let c = c\<lparr>cond_opt := opt, cond_table := t, cond_attr := a, cond_ival := Some (ddbstr2int v)\<rparr>
      in if ddbstr2int v = - 1 then c\<lparr>cond_type := ''string'', cond_sval := v\<rparr>
         else c\<lparr>cond_type := ''int''\<rparr>)"
proof -
  let ?cond = "(t @ ''.'' @ a) @ opt @ v"
  obtain os ps where split: "condition_opts = os @ opt # ps"
    and post: "\<And>p v k. p \<in> set ps \<Longrightarrow> \<forall>c \<in> set v. \<not> opt_char c \<Longrightarrow> find_from (opt @ v) p k = None"
    using condition_opts_split [OF opt] by metis
  have skip: "find_from ?cond p 0 = find_from (opt @ v) p (length t + 1 + length a)"
    if "p \<in> set condition_opts" for p
    using condition_opts_absent(1) [OF that, of "t @ ''.'' @ a" "opt @ v" 0] pre by simp
  have "prefix opt (opt @ v)" "opt @ v \<noteq> []" using condition_opts_hd [OF opt] by simp_all
  then have found: "find_from ?cond opt 0 = Some (length t + 1 + length a)"
    unfolding skip [OF opt] by (cases "opt @ v") auto
  have "parse_opt ?cond p c = c" if "p \<in> set ps" for p c
    using skip [of p] post [OF that val] that by (intro parse_opt_absent) (simp add: split)
  then have "fold (parse_opt ?cond) ps c = c" for c
    by (rule fold_idle)
  then have "Condition_parse ?cond = parse_opt ?cond opt (fold (parse_opt ?cond) os Condition_blank)"
    by (simp add: Condition_parse_def split)
  with parse_opt_found [OF found refl pre(2)] show ?thesis
    by (intro exI [of _ "fold (parse_opt ?cond) os Condition_blank"]) simp
qed

lemma Condition_parse_fields:
  assumes "opt \<in> set condition_opts"
    and "\<forall>c \<in> set (t @ a). \<not> opt_char c" "CHR ''.'' \<notin> set t"
    and "\<forall>c \<in> set v. \<not> opt_char c"
  shows "cond_table (Condition_parse (t @ ''.'' @ a @ opt @ v)) = t"
    and "cond_attr (Condition_parse (t @ ''.'' @ a @ opt @ v)) = a"
    and "cond_opt (Condition_parse (t @ ''.'' @ a @ opt @ v)) = opt"
    and "cond_ival (Condition_parse (t @ ''.'' @ a @ opt @ v)) = Some (ddbstr2int v)"
    and "cond_type (Condition_parse (t @ ''.'' @ a @ opt @ v)) =
           (if ddbstr2int v = - 1 then ''string'' else ''int'')"
    and "ddbstr2int v = - 1 \<Longrightarrow> cond_sval (Condition_parse (t @ ''.'' @ a @ opt @ v)) = v"
  using Condition_parse_last [OF assms] by (auto simp: Let_def)

section \<open>Properties\<close>

text \<open>
  C9: parsing a condition string of the form table, dot, attribute, operator, value recovers the
  four parts, for each of the six operators, as long as no other operator character occurs; a
  value of digits only is read as an integer, any other value is kept as a string.
\<close>
theorem Condition_parse_roundtrip:
  assumes "opt \<in> set condition_opts" and "\<forall>c \<in> set (t @ a). \<not> opt_char c" and "CHR ''.'' \<notin> set t"
    and "\<forall>c \<in> set v. \<not> opt_char c"
  shows "let c = Condition_parse (t @ ''.'' @ a @ opt @ v) in
     cond_table c = t \<and> cond_attr c = a \<and> cond_opt c = opt \<and>
     (if ddbstr2int v = - 1 then cond_type c = ''string'' \<and> cond_sval c = v
      else cond_type c = ''int'' \<and> cond_ival c = Some (ddbstr2int v))"
  using Condition_parse_fields [OF assms] by (simp add: Let_def)

theorem Condition_parse_roundtrip_witness:
  "let c = Condition_parse (''Book'' @ ''.'' @ ''id'' @ ''>='' @ ''205000'') in
     cond_table c = ''Book'' \<and> cond_attr c = ''id'' \<and> cond_opt c = ''>='' \<and> cond_ival c = Some 205000"
proof -
  have "ddbstr2int ''205000'' = 205000"
    by (simp add: ddbstr2int_def wrap32_def)
  then show ?thesis
    using Condition_parse_roundtrip [of "''>=''" "''Book''" "''id''" "''205000''"]
    by (simp add: condition_opts_def opt_char_def Let_def)
qed

text \<open>
  C17: a parsed comparison with a decimal number below 2 to the 31 means that comparison: the row
  satisfies the condition exactly when its cell is an integer standing in that relation to the
  number.
\<close>
theorem Condition_parse_int_meaning:
  assumes "opt \<in> set condition_opts" and "\<forall>c \<in> set (t @ a). \<not> opt_char c" and "CHR ''.'' \<notin> set t"
    and "n < 2 ^ 31"
  shows "sat_cond r (Condition_parse (t @ ''.'' @ a @ opt @ nat_to_string n)) \<longleftrightarrow>
     (\<exists>v. r t a = IntCell v \<and> cmp_int opt v (int n))"
proof -
  have "\<forall>c \<in> set (nat_to_string n). \<not> opt_char c"
    using nat_to_string_digits [of _ n] by (force simp: opt_char_def)
  from Condition_parse_fields [OF assms(1-3) this] ddbstr2int_nat_to_string [OF assms(4)]
  show ?thesis by (auto simp: sat_cond_def split: cell.split)
qed

theorem Condition_parse_int_meaning_witness:
  "\<not> sat_cond (\<lambda>_ _. IntCell 205) (Condition_parse (''Book'' @ ''.'' @ ''id'' @ ''!='' @ nat_to_string 205))"
  using Condition_parse_int_meaning [of "''!=''" "''Book''" "''id''" 205 "\<lambda>_ _. IntCell 205"]
  by (simp add: condition_opts_def opt_char_def)

end
