(* ===== verification/Pruning.thy ===== *)
theory Pruning
  imports Conditions
begin

text \<open>
  Fragment pruning, from check_condition in db_server/optimizer/preprocess.h: the intersection of
  the predicates of a statement with the conditions of one horizontal fragment. SELECT, INSERT and
  DELETE all decide with it which fragments take part.
\<close>

section \<open>The code\<close>

text \<open>
  One iteration of the inner loop once table and attribute agree: whether the function goes on
  (otherwise it returns the empty list), what it pushes, and the increment of \<open>cnt\<close>.
\<close>

definition check_pair :: "Condition \<Rightarrow> Condition \<Rightarrow> (bool \<times> Condition list \<times> int) res" where
  "check_pair x y =
     (if cond_type x = ''string''
      then Inr (if cond_sval x = cond_sval y then (True, [y], 1) else (False, [], 0))
      else case (get_section x None, get_section y None) of
        (Some (a1, b1), Some (a2, b2)) \<Rightarrow>
          let a = max a1 a2; b = min b1 b2; inc = (if a = a2 \<and> b = b2 then 1 else 0)
          in Inr (if a \<le> b
               then (True,
                     if a \<noteq> - INF_1e9 \<and> b \<noteq> INF_1e9 \<and> a \<noteq> b
                     then [Condition_section (cond_table x) (cond_attr x) a INF_1e9,
                           Condition_section (cond_table x) (cond_attr x) (- INF_1e9) b]
                     else [Condition_section (cond_table x) (cond_attr x) a b],
                     inc)
               else (False, [], inc))
      | _ \<Rightarrow> Inl UninitRead)"

fun check_inner :: "Condition \<Rightarrow> Condition list \<Rightarrow> bool \<Rightarrow> Condition list \<Rightarrow> int
    \<Rightarrow> (bool \<times> bool \<times> Condition list \<times> int) res" where
  "check_inner x [] flag isec cnt = Inr (True, flag, isec, cnt)"
| "check_inner x (y # ys) flag isec cnt =
     (if cond_table x \<noteq> cond_table y \<or> cond_attr x \<noteq> cond_attr y
      then check_inner x ys flag isec cnt
      else rbind (check_pair x y) (\<lambda>(ok, zs, inc).
        if ok then check_inner x ys True (isec @ zs) (cnt + inc)
        else Inr (False, True, isec, cnt + inc)))"

fun check_outer :: "Condition list \<Rightarrow> Condition list \<Rightarrow> Condition list \<Rightarrow> int
    \<Rightarrow> (Condition list \<times> int) res" where
  "check_outer hf [] isec cnt = Inr (isec, cnt)"
| "check_outer hf (x # xs) isec cnt =
     rbind (check_inner x hf False isec cnt) (\<lambda>(ok, flag, isec, cnt).
       if \<not> ok then Inr ([], cnt)
       else if flag then check_outer hf xs isec cnt
       else rbind (vat hf 0) (\<lambda>y0.
         check_outer hf xs (if cond_table x = cond_table y0 then isec @ [x] else isec) cnt))"

definition check_condition :: "Condition list \<Rightarrow> Condition list \<Rightarrow> int \<Rightarrow> (Condition list \<times> int) res" where
  "check_condition hf_condition Predicate cnt = check_outer hf_condition Predicate [] cnt"

section \<open>Rows of a fragment\<close>

definition row_fits :: "row \<Rightarrow> Condition \<Rightarrow> bool" where
  "row_fits r c = (case r (cond_table c) (cond_attr c) of
     IntCell _ \<Rightarrow> cond_type c = ''int'' | StrCell _ \<Rightarrow> cond_type c = ''string'')"

definition exact_on :: "row \<Rightarrow> Condition \<Rightarrow> bool" where
  "exact_on r c = (wf_cond c \<and> row_fits r c)"

definition same_attr :: "Condition \<Rightarrow> Condition \<Rightarrow> bool" where
  "same_attr x y = (cond_table x = cond_table y \<and> cond_attr x = cond_attr y)"

text \<open>Whether a row of the fragment meets what the loop has pushed for one predicate.\<close>

definition holds_all :: "row \<Rightarrow> Condition list \<Rightarrow> bool" where
  "holds_all r cs = (\<forall>c \<in> set cs. sat_cond r c)"

lemma holds_all_simps [simp]:
  "holds_all r []" "holds_all r (c # cs) \<longleftrightarrow> sat_cond r c \<and> holds_all r cs"
  "holds_all r (cs @ ds) \<longleftrightarrow> holds_all r cs \<and> holds_all r ds"
  by (auto simp: holds_all_def)

lemma sat_section_pair:
  assumes "r t x = IntCell v" and "- INF_1e9 \<le> v" "v \<le> INF_1e9" and "a \<le> b"
  shows "holds_all r (if a \<noteq> - INF_1e9 \<and> b \<noteq> INF_1e9 \<and> a \<noteq> b
           then [Condition_section t x a INF_1e9, Condition_section t x (- INF_1e9) b]
           else [Condition_section t x a b]) \<longleftrightarrow> a \<le> v \<and> v \<le> b"
  using assms by (auto simp: sat_Condition_section)

lemma check_pair_sound:
  assumes x: "exact_on r x" and y: "exact_on r y" and same: "same_attr x y"
    and bnd: "bounded_row r" and sat: "sat_cond r y"
  shows "\<exists>ok zs inc. check_pair x y = Inr (ok, zs, inc) \<and> (sat_cond r x \<longleftrightarrow> ok \<and> holds_all r zs) \<and>
     (ok \<longrightarrow> zs \<noteq> []) \<and> (inc = 0 \<or> inc = 1) \<and> (inc = 1 \<longrightarrow> sat_cond r x)"
proof (cases "r (cond_table x) (cond_attr x)")
  case (StrCell s)
  with x y same have "cond_type x = ''string''" "cond_type y = ''string''" "cond_opt x = ''=''" "cond_opt y = ''=''"
    by (auto simp: exact_on_def row_fits_def same_attr_def wf_cond_def)
  with StrCell same sat show ?thesis
    by (auto simp: check_pair_def sat_cond_def same_attr_def)
next
  case (IntCell v)
  with bnd have v: "- INF_1e9 \<le> v" "v \<le> INF_1e9" by (auto simp: bounded_row_def)
  from IntCell x y same have t: "cond_type x = ''int''" "cond_type y = ''int''" "wf_cond x" "wf_cond y"
    and cy: "r (cond_table y) (cond_attr y) = IntCell v"
    by (auto simp: exact_on_def row_fits_def same_attr_def)
  obtain a1 b1 where s1: "get_section x None = Some (a1, b1)" "sat_cond r x \<longleftrightarrow> a1 \<le> v \<and> v \<le> b1"
    using in_section_iff [of x r v None] t IntCell v by auto
  obtain a2 b2 where s2: "get_section y None = Some (a2, b2)" "sat_cond r y \<longleftrightarrow> a2 \<le> v \<and> v \<le> b2"
    using in_section_iff [of y r v None] t cy v by auto
  define a b where "a = max a1 a2" and "b = min b1 b2"
  define inc :: int where "inc = (if a = a2 \<and> b = b2 then 1 else 0)"
  define zs where "zs = (if a \<noteq> - INF_1e9 \<and> b \<noteq> INF_1e9 \<and> a \<noteq> b
    then [Condition_section (cond_table x) (cond_attr x) a INF_1e9,
          Condition_section (cond_table x) (cond_attr x) (- INF_1e9) b]
    else [Condition_section (cond_table x) (cond_attr x) a b])"
  have cp: "check_pair x y = Inr (if a \<le> b then (True, zs, inc) else (False, [], inc))"
    using s1 s2 t(1) by (simp add: check_pair_def Let_def a_def b_def inc_def zs_def)
  have zs: "a \<le> b \<Longrightarrow> holds_all r zs \<longleftrightarrow> a \<le> v \<and> v \<le> b" "zs \<noteq> []"
    unfolding zs_def using sat_section_pair [of r "cond_table x" "cond_attr x" v a b] IntCell v by simp_all
  have sat_x: "sat_cond r x \<longleftrightarrow> a \<le> v \<and> v \<le> b" using s1 s2 sat by (auto simp: a_def b_def)
  have inc: "inc = 0 \<or> inc = 1" "inc = 1 \<longrightarrow> sat_cond r x"
    using s1 s2 sat by (auto simp: inc_def a_def b_def)
  show ?thesis
  proof (cases "a \<le> b")
    case True
    with cp zs sat_x inc show ?thesis by auto
  next
    case False
    with sat_x have "\<not> sat_cond r x" by auto
    with False cp inc show ?thesis by auto
  qed
qed

lemma check_inner_sound:
  assumes "exact_on r x" and "\<forall>y \<in> set ys. exact_on r y \<and> sat_cond r y" and "bounded_row r"
  shows "\<exists>ok zs n. check_inner x ys flag isec cnt = Inr (ok, flag \<or> (\<exists>y \<in> set ys. same_attr x y), isec @ zs, n)
     \<and> ((\<exists>y \<in> set ys. same_attr x y) \<longrightarrow> (sat_cond r x \<longleftrightarrow> ok \<and> holds_all r zs) \<and> (ok \<longrightarrow> zs \<noteq> []))
     \<and> ((\<forall>y \<in> set ys. \<not> same_attr x y) \<longrightarrow> ok \<and> zs = [])"
  using assms(2)
proof (induction ys arbitrary: flag isec cnt)
  case (Cons y ys)
  show ?case
  proof (cases "same_attr x y")
    case False
    then have "check_inner x (y # ys) flag isec cnt = check_inner x ys flag isec cnt"
      by (auto simp: same_attr_def)
    with False Cons show ?thesis by simp
  next
    case True
    obtain ok zs inc where p: "check_pair x y = Inr (ok, zs, inc)" "sat_cond r x \<longleftrightarrow> ok \<and> holds_all r zs" "ok \<longrightarrow> zs \<noteq> []"
      using check_pair_sound [OF assms(1) _ True assms(3)] Cons.prems by auto
    show ?thesis
    proof (cases ok)
      case False
      with p True show ?thesis by (auto simp: same_attr_def)
    next
      case ok: True
      obtain ok' zs' n where "check_inner x ys True (isec @ zs) (cnt + inc) = Inr (ok', True, (isec @ zs) @ zs', n)"
        "(\<exists>y \<in> set ys. same_attr x y) \<longrightarrow> (sat_cond r x \<longleftrightarrow> ok' \<and> holds_all r zs') \<and> (ok' \<longrightarrow> zs' \<noteq> [])"
        "(\<forall>y \<in> set ys. \<not> same_attr x y) \<longrightarrow> ok' \<and> zs' = []"
        using Cons.IH [of True "isec @ zs" "cnt + inc"] Cons.prems by auto
      with p ok True show ?thesis
        by (intro exI [of _ ok'] exI [of _ "zs @ zs'"] exI [of _ n]) (auto simp: same_attr_def)
    qed
  qed
qed auto

lemma check_outer_sound:
  assumes hf: "hf \<noteq> []" "\<forall>y \<in> set hf. exact_on r y \<and> sat_cond r y \<and> cond_table y = T"
    and xs: "\<forall>x \<in> set xs. cond_table x = T \<longrightarrow> exact_on r x" and bnd: "bounded_row r"
  shows "\<exists>res n. check_outer hf xs isec cnt = Inr (res, n) \<and>
     (if \<forall>x \<in> set xs. cond_table x = T \<longrightarrow> sat_cond r x
      then \<exists>zs. res = isec @ zs \<and> holds_all r zs \<and> (zs = [] \<longleftrightarrow> (\<forall>x \<in> set xs. cond_table x \<noteq> T))
      else res = [] \<or> (\<exists>zs. res = isec @ zs \<and> \<not> holds_all r zs))"
  using xs
proof (induction xs arbitrary: isec cnt)
  case (Cons x xs)
  have hd: "vat hf 0 = Inr (hd hf)" "cond_table (hd hf) = T" using hf by (auto simp: vat_def hd_conv_nth)
  show ?case
  proof (cases "cond_table x = T")
    case False
    then have "check_inner x hf False isec cnt = Inr (True, False, isec, cnt)"
      using hf(2) by (induction hf) auto
    with False hd have "check_outer hf (x # xs) isec cnt = check_outer hf xs isec cnt" by simp
    moreover obtain res n where "check_outer hf xs isec cnt = Inr (res, n)"
      "if \<forall>x \<in> set xs. cond_table x = T \<longrightarrow> sat_cond r x
       then \<exists>zs. res = isec @ zs \<and> holds_all r zs \<and> (zs = [] \<longleftrightarrow> (\<forall>x \<in> set xs. cond_table x \<noteq> T))
       else res = [] \<or> (\<exists>zs. res = isec @ zs \<and> \<not> holds_all r zs)"
      using Cons.IH [of isec cnt] Cons.prems by auto
    ultimately show ?thesis using False by (intro exI [of _ res] exI [of _ n] conjI) simp_all
  next
    case True
    with Cons.prems have x: "exact_on r x" by simp
    obtain ok zs n where c: "check_inner x hf False isec cnt = Inr (ok, \<exists>y \<in> set hf. same_attr x y, isec @ zs, n)"
      and m: "(\<exists>y \<in> set hf. same_attr x y) \<longrightarrow> (sat_cond r x \<longleftrightarrow> ok \<and> holds_all r zs) \<and> (ok \<longrightarrow> zs \<noteq> [])"
      and nm: "(\<forall>y \<in> set hf. \<not> same_attr x y) \<longrightarrow> ok \<and> zs = []"
      using check_inner_sound [OF x, of hf False isec cnt] hf(2) bnd by auto
    show ?thesis
    proof (cases "ok")
      case False
      with c m nm True show ?thesis by auto
    next
      case ok: True
      define zs' where "zs' = (if \<exists>y \<in> set hf. same_attr x y then zs else [x])"
      have step: "check_outer hf (x # xs) isec cnt = check_outer hf xs (isec @ zs') n"
        using c ok hd True nm by (auto simp: zs'_def)
      have z: "sat_cond r x \<longleftrightarrow> holds_all r zs'" "zs' \<noteq> []"
        using m ok by (auto simp: zs'_def)
      obtain res k where rest: "check_outer hf xs (isec @ zs') n = Inr (res, k)"
        "if \<forall>x \<in> set xs. cond_table x = T \<longrightarrow> sat_cond r x
         then \<exists>us. res = (isec @ zs') @ us \<and> holds_all r us \<and> (us = [] \<longleftrightarrow> (\<forall>x \<in> set xs. cond_table x \<noteq> T))
         else res = [] \<or> (\<exists>us. res = (isec @ zs') @ us \<and> \<not> holds_all r us)"
        using Cons.IH [of "isec @ zs'" n] Cons.prems by auto
      show ?thesis
      proof (cases "\<forall>x \<in> set xs. cond_table x = T \<longrightarrow> sat_cond r x")
        case all: True
        with rest obtain us where "res = isec @ (zs' @ us)" "holds_all r us" by auto
        with rest(1) z True all show ?thesis unfolding step by (cases "sat_cond r x") auto
      next
        case False
        with rest have "res = [] \<or> (\<exists>us. res = isec @ (zs' @ us) \<and> \<not> holds_all r us)" by auto
        then have "res = [] \<or> (\<exists>us. res = isec @ us \<and> \<not> holds_all r us)"
          by (metis holds_all_simps(3))
        with rest(1) False show ?thesis unfolding step by auto
      qed
    qed
  qed
qed auto

section \<open>The count of covered conditions\<close>









section \<open>Properties\<close>

text \<open>
  C1: pruning is exact on the fragment. Let every predicate on the fragment's table and every
  condition of the fragment be a comparison the optimizer handles, and let a row belong to the
  fragment. Then \<open>check_condition\<close> returns normally, and when some predicate concerns the table,
  the row satisfies all of these predicates exactly when the returned list is not empty and the
  row satisfies every condition in it. So a pruned fragment holds no answer, and the conditions
  attached to a kept fragment select exactly its answers.
\<close>
theorem check_condition_exact:
  assumes "hf \<noteq> []" and "\<forall>y \<in> set hf. cond_table y = T \<and> exact_on r y \<and> sat_cond r y"
    and "\<forall>x \<in> set preds. cond_table x = T \<longrightarrow> exact_on r x" and "bounded_row r"
    and "\<exists>x \<in> set preds. cond_table x = T"
  shows "\<exists>res n. check_condition hf preds cnt = Inr (res, n) \<and>
     ((\<forall>x \<in> set preds. cond_table x = T \<longrightarrow> sat_cond r x) \<longleftrightarrow> res \<noteq> [] \<and> (\<forall>z \<in> set res. sat_cond r z))"
proof -
  have hf: "\<forall>y \<in> set hf. exact_on r y \<and> sat_cond r y \<and> cond_table y = T" using assms(2) by blast
  obtain res n where "check_outer hf preds [] cnt = Inr (res, n)"
    "if \<forall>x \<in> set preds. cond_table x = T \<longrightarrow> sat_cond r x
     then \<exists>zs. res = [] @ zs \<and> holds_all r zs \<and> (zs = [] \<longleftrightarrow> (\<forall>x \<in> set preds. cond_table x \<noteq> T))
     else res = [] \<or> (\<exists>zs. res = [] @ zs \<and> \<not> holds_all r zs)"
    using check_outer_sound [OF assms(1) hf assms(3,4), of "[]" cnt] by auto
  with assms(5) show ?thesis
    by (auto simp: check_condition_def holds_all_def split: if_splits)
qed

definition id_row :: row where
  "id_row t a = (if a = ''id'' then IntCell 205500 else StrCell ''abc'')"

lemma bounded_id_row: "bounded_row id_row"
  by (auto simp: bounded_row_def id_row_def INF_1e9_def split: if_splits)

theorem check_condition_exact_witness:
  "\<exists>res n. check_condition [Condition_section ''Book'' ''id'' 205000 INF_1e9]
       [Condition_section ''Book'' ''id'' (- INF_1e9) 300000] 0 = Inr (res, n) \<and> res \<noteq> []"
  using check_condition_exact [of "[Condition_section ''Book'' ''id'' 205000 INF_1e9]" "''Book''" id_row
      "[Condition_section ''Book'' ''id'' (- INF_1e9) 300000]" 0]
  by (auto simp: Condition_section_def Condition_blank_def exact_on_def wf_cond_def row_fits_def id_row_def
      bounded_id_row INF_1e9_def sat_cond_def)



text \<open>
  In general the count does not justify dropping the selection. For a fragment of \<open>Book\<close>
  with the single condition \<open>id >= 205000\<close>, the predicates \<open>id >= 200000\<close> and \<open>title = abc\<close> give
  the count 1, which is the number of the fragment's conditions, so the planner clears a list
  that still holds the predicate on the title.
\<close>
lemma covered_count_ignores_other_predicates:
  "check_condition [Condition_section ''Book'' ''id'' 205000 INF_1e9]
     [Condition_section ''Book'' ''id'' 200000 INF_1e9, Condition_parse ''Book.title=abc''] 0
   = Inr ([Condition_section ''Book'' ''id'' 205000 INF_1e9, Condition_parse ''Book.title=abc''], 1)"
  by code_simp

end
