(* ===== verification/Sql_Ast.thy ===== *)
theory Sql_Ast
  imports Sql_Enums
begin

text \<open>
  The SQL syntax tree, from the headers under db_server/optimizer/sql: expressions, table references
  and queries as one family of mutually recursive datatypes, the statement classes as records that
  extend their base class, and the type tags of the statements.
\<close>

section \<open>Pointers\<close>

text \<open>
  A pointer that owns what it points to: null, or the address of a heap block and the object
  stored there. Strings (\<open>char*\<close>) and vectors are blocks of their own.
\<close>

datatype (dead 'l, 'a) ptr = Null | Ptr (loc: 'l) (obj: 'a)

type_synonym 'l cstr = "('l, string) ptr"
type_synonym ('l, 'a) pvec = "('l, ('l, 'a) ptr list) ptr"
type_synonym 'l cstrs = "('l, 'l cstr list) ptr"

definition deref :: "('l, 'a) ptr \<Rightarrow> 'a res" where
  "deref p = (case p of Null \<Rightarrow> Inl NullDeref | Ptr _ x \<Rightarrow> Inr x)"

section \<open>Expressions, table references and queries\<close>

datatype ColumnType = ColumnType (data_type: DataType) (ct_length: "64 word") (ct_precision: "64 word")
  (ct_scale: "64 word")

datatype 'l Alias = Alias (al_name: "'l cstr") (al_columns: "'l cstrs")

datatype 'l LockingClause = LockingClause (lk_rowLockMode: RowLockMode)
  (lk_rowLockWaitPolicy: RowLockWaitPolicy) (lk_tables: "'l cstrs")

text \<open>
  The doubles are kept as their 64 bits. The member \<open>stringLength\<close> of the statements is set by the
  parser only and is \<open>None\<close> before that; \<open>setType\<close> and \<open>isAll\<close> of a \<open>SetOperation\<close> are not
  initialised by its constructor either.
\<close>

datatype 'l Expr = Expr (ex_type: ExprType) (ex_expr: "('l, 'l Expr) ptr") (ex_expr2: "('l, 'l Expr) ptr")
    (ex_exprList: "('l, 'l Expr) pvec") (ex_select: "('l, 'l SelectStatement) ptr")
    (ex_name: "'l cstr") (ex_table: "'l cstr") (ex_alias: "'l cstr")
    (ex_fval: "64 word") (ex_ival: "64 word") (ex_ival2: "64 word")
    (ex_datetimeField: DatetimeField) (ex_columnType: ColumnType) (ex_isBoolLiteral: bool)
    (ex_opType: OperatorType) (ex_distinct: bool)
and 'l SelectStatement = SelectStatement (sel_stringLength: "nat option") (sel_hints: "('l, 'l Expr) pvec")
    (sel_fromTable: "('l, 'l TableRef) ptr") (sel_selectDistinct: bool)
    (sel_selectList: "('l, 'l Expr) pvec") (sel_whereClause: "('l, 'l Expr) ptr")
    (sel_groupBy: "('l, 'l GroupByDescription) ptr") (sel_setOperations: "('l, 'l SetOperation) pvec")
    (sel_order: "('l, 'l OrderDescription) pvec") (sel_withDescriptions: "('l, 'l WithDescription) pvec")
    (sel_limit: "('l, 'l LimitDescription) ptr") (sel_lockings: "('l, 'l LockingClause) pvec")
and 'l OrderDescription = OrderDescription (od_type: OrderType) (od_expr: "('l, 'l Expr) ptr")
and 'l LimitDescription = LimitDescription (ld_limit: "('l, 'l Expr) ptr") (ld_offset: "('l, 'l Expr) ptr")
and 'l GroupByDescription = GroupByDescription (gb_columns: "('l, 'l Expr) pvec") (gb_having: "('l, 'l Expr) ptr")
and 'l WithDescription = WithDescription (wd_alias: "'l cstr") (wd_select: "('l, 'l SelectStatement) ptr")
and 'l SetOperation = SetOperation (so_setType: "SetType option") (so_isAll: "bool option")
    (so_nestedSelectStatement: "('l, 'l SelectStatement) ptr")
    (so_resultOrder: "('l, 'l OrderDescription) pvec") (so_resultLimit: "('l, 'l LimitDescription) ptr")
and 'l TableRef = TableRef (tr_type: TableRefType) (tr_schema: "'l cstr") (tr_name: "'l cstr")
    (tr_alias: "('l, 'l Alias) ptr") (tr_select: "('l, 'l SelectStatement) ptr")
    (tr_list: "('l, 'l TableRef) pvec") (tr_join: "('l, 'l JoinDefinition) ptr")
and 'l JoinDefinition = JoinDefinition (jd_left: "('l, 'l TableRef) ptr") (jd_right: "('l, 'l TableRef) ptr")
    (jd_condition: "('l, 'l Expr) ptr") (jd_type: JoinType)

lemmas ast_induct = Expr.induct SelectStatement.induct OrderDescription.induct LimitDescription.induct
  GroupByDescription.induct WithDescription.induct SetOperation.induct TableRef.induct JoinDefinition.induct

section \<open>Statements\<close>

text \<open>The base class \<open>SQLStatement\<close> and the classes derived from it.\<close>

record 'l SQLStatement =
  stringLength :: "nat option"
  hints :: "('l, 'l Expr) pvec"

record 'l ImportStatement = "'l SQLStatement" +
  imp_type :: ImportType
  imp_filePath :: "'l cstr"
  imp_schema :: "'l cstr"
  imp_tableName :: "'l cstr"

record 'l ExportStatement = "'l SQLStatement" +
  exp_type :: ImportType
  exp_filePath :: "'l cstr"
  exp_schema :: "'l cstr"
  exp_tableName :: "'l cstr"

record 'l InsertStatement = "'l SQLStatement" +
  ins_type :: InsertType
  ins_schema :: "'l cstr"
  ins_tableName :: "'l cstr"
  ins_columns :: "'l cstrs"
  ins_values :: "('l, 'l Expr) pvec"
  ins_select :: "('l, 'l SelectStatement) ptr"

record 'l UpdateClause =
  uc_column :: "'l cstr"
  uc_value :: "('l, 'l Expr) ptr"

record 'l UpdateStatement = "'l SQLStatement" +
  upd_table :: "('l, 'l TableRef) ptr"
  upd_updates :: "('l, 'l UpdateClause) pvec"
  upd_where :: "('l, 'l Expr) ptr"

record 'l DeleteStatement = "'l SQLStatement" +
  del_schema :: "'l cstr"
  del_tableName :: "'l cstr"
  del_expr :: "('l, 'l Expr) ptr"

record 'l TableConstraint =
  tc_type :: ConstraintType
  tc_columnNames :: "'l cstrs"

record 'l ColumnDefinition =
  cd_column_constraints :: "('l, ConstraintType list) ptr"
  cd_name :: "'l cstr"
  cd_type :: ColumnType
  cd_nullable :: bool

datatype 'l TableElement = ElemColumn "'l ColumnDefinition" | ElemConstraint "'l TableConstraint"

record 'l CreateStatement = "'l SQLStatement" +
  cre_type :: CreateType
  cre_ifNotExists :: bool
  cre_filePath :: "'l cstr"
  cre_schema :: "'l cstr"
  cre_tableName :: "'l cstr"
  cre_indexName :: "'l cstr"
  cre_indexColumns :: "'l cstrs"
  cre_columns :: "('l, 'l ColumnDefinition) pvec"
  cre_tableConstraints :: "('l, 'l TableConstraint) pvec"
  cre_viewColumns :: "'l cstrs"
  cre_select :: "('l, 'l SelectStatement) ptr"

record 'l DropStatement = "'l SQLStatement" +
  drop_type :: DropType
  drop_ifExists :: "bool option"
  drop_schema :: "'l cstr"
  drop_name :: "'l cstr"
  drop_indexName :: "'l cstr"

record 'l PrepareStatement = "'l SQLStatement" +
  prep_name :: "'l cstr"
  prep_query :: "'l cstr"

record 'l ExecuteStatement = "'l SQLStatement" +
  exec_name :: "'l cstr"
  exec_parameters :: "('l, 'l Expr) pvec"

text \<open>\<open>DropColumnAction\<close> is the only class derived from \<open>AlterAction\<close>.\<close>

record 'l DropColumnAction =
  dca_columnName :: "'l cstr"
  dca_ifExists :: bool

record 'l AlterStatement = "'l SQLStatement" +
  alt_schema :: "'l cstr"
  alt_ifTableExists :: bool
  alt_name :: "'l cstr"
  alt_action :: "('l, 'l DropColumnAction) ptr"

record 'l ShowStatement = "'l SQLStatement" +
  show_type :: ShowType
  show_schema :: "'l cstr"
  show_name :: "'l cstr"

record 'l TransactionStatement = "'l SQLStatement" +
  trans_command :: TransactionCommand

datatype 'l Statement =
    SelectStmt "'l SelectStatement" | ImportStmt "'l ImportStatement" | InsertStmt "'l InsertStatement"
  | UpdateStmt "'l UpdateStatement" | DeleteStmt "'l DeleteStatement" | CreateStmt "'l CreateStatement"
  | DropStmt "'l DropStatement" | PrepareStmt "'l PrepareStatement" | ExecuteStmt "'l ExecuteStatement"
  | ExportStmt "'l ExportStatement" | AlterStmt "'l AlterStatement" | ShowStmt "'l ShowStatement"
  | TransactionStmt "'l TransactionStatement"

fun stmt_type :: "'l Statement \<Rightarrow> StatementType" where
  "stmt_type (SelectStmt _) = kStmtSelect"
| "stmt_type (ImportStmt _) = kStmtImport"
| "stmt_type (InsertStmt _) = kStmtInsert"
| "stmt_type (UpdateStmt _) = kStmtUpdate"
| "stmt_type (DeleteStmt _) = kStmtDelete"
| "stmt_type (CreateStmt _) = kStmtCreate"
| "stmt_type (DropStmt _) = kStmtDrop"
| "stmt_type (PrepareStmt _) = kStmtPrepare"
| "stmt_type (ExecuteStmt _) = kStmtExecute"
| "stmt_type (ExportStmt _) = kStmtExport"
| "stmt_type (AlterStmt _) = kStmtAlter"
| "stmt_type (ShowStmt _) = kStmtShow"
| "stmt_type (TransactionStmt _) = kStmtTransaction"

definition stmt_isType :: "'l Statement \<Rightarrow> StatementType \<Rightarrow> bool" where
  "stmt_isType s t = (stmt_type s = t)"

end
