(* ===== verification/Sql_Make.thy ===== *)
theory Sql_Make
  imports Sql_Ast
begin

text \<open>
  How the syntax tree is built, from sql/Expr.cpp, sql/statements.cpp, sql/CreateStatement.cpp and
  sql/CreateStatement.h: the constructors of every node, the static constructors of Expr with the
  address of the block that new returns as an argument, and the observers.
\<close>

section \<open>Assignments to the members of an expression\<close>

definition set_expr :: "('l, 'l Expr) ptr \<Rightarrow> 'l Expr \<Rightarrow> 'l Expr" where
  "set_expr v e =
     Expr (ex_type e) v (ex_expr2 e) (ex_exprList e) (ex_select e) (ex_name e) (ex_table e)
       (ex_alias e) (ex_fval e) (ex_ival e) (ex_ival2 e) (ex_datetimeField e) (ex_columnType e)
       (ex_isBoolLiteral e) (ex_opType e) (ex_distinct e)"

definition set_expr2 :: "('l, 'l Expr) ptr \<Rightarrow> 'l Expr \<Rightarrow> 'l Expr" where
  "set_expr2 v e =
     Expr (ex_type e) (ex_expr e) v (ex_exprList e) (ex_select e) (ex_name e) (ex_table e)
       (ex_alias e) (ex_fval e) (ex_ival e) (ex_ival2 e) (ex_datetimeField e) (ex_columnType e)
       (ex_isBoolLiteral e) (ex_opType e) (ex_distinct e)"

definition set_exprList :: "('l, 'l Expr) pvec \<Rightarrow> 'l Expr \<Rightarrow> 'l Expr" where
  "set_exprList v e =
     Expr (ex_type e) (ex_expr e) (ex_expr2 e) v (ex_select e) (ex_name e) (ex_table e)
       (ex_alias e) (ex_fval e) (ex_ival e) (ex_ival2 e) (ex_datetimeField e) (ex_columnType e)
       (ex_isBoolLiteral e) (ex_opType e) (ex_distinct e)"

definition set_select :: "('l, 'l SelectStatement) ptr \<Rightarrow> 'l Expr \<Rightarrow> 'l Expr" where
  "set_select v e =
     Expr (ex_type e) (ex_expr e) (ex_expr2 e) (ex_exprList e) v (ex_name e) (ex_table e)
       (ex_alias e) (ex_fval e) (ex_ival e) (ex_ival2 e) (ex_datetimeField e) (ex_columnType e)
       (ex_isBoolLiteral e) (ex_opType e) (ex_distinct e)"

definition set_name :: "'l cstr \<Rightarrow> 'l Expr \<Rightarrow> 'l Expr" where
  "set_name v e =
     Expr (ex_type e) (ex_expr e) (ex_expr2 e) (ex_exprList e) (ex_select e) v (ex_table e)
       (ex_alias e) (ex_fval e) (ex_ival e) (ex_ival2 e) (ex_datetimeField e) (ex_columnType e)
       (ex_isBoolLiteral e) (ex_opType e) (ex_distinct e)"

definition set_table :: "'l cstr \<Rightarrow> 'l Expr \<Rightarrow> 'l Expr" where
  "set_table v e =
     Expr (ex_type e) (ex_expr e) (ex_expr2 e) (ex_exprList e) (ex_select e) (ex_name e) v
       (ex_alias e) (ex_fval e) (ex_ival e) (ex_ival2 e) (ex_datetimeField e) (ex_columnType e)
       (ex_isBoolLiteral e) (ex_opType e) (ex_distinct e)"

definition set_alias :: "'l cstr \<Rightarrow> 'l Expr \<Rightarrow> 'l Expr" where
  "set_alias v e =
     Expr (ex_type e) (ex_expr e) (ex_expr2 e) (ex_exprList e) (ex_select e) (ex_name e)
       (ex_table e) v (ex_fval e) (ex_ival e) (ex_ival2 e) (ex_datetimeField e)
       (ex_columnType e) (ex_isBoolLiteral e) (ex_opType e) (ex_distinct e)"

definition set_fval :: "64 word \<Rightarrow> 'l Expr \<Rightarrow> 'l Expr" where
  "set_fval v e =
     Expr (ex_type e) (ex_expr e) (ex_expr2 e) (ex_exprList e) (ex_select e) (ex_name e)
       (ex_table e) (ex_alias e) v (ex_ival e) (ex_ival2 e) (ex_datetimeField e)
       (ex_columnType e) (ex_isBoolLiteral e) (ex_opType e) (ex_distinct e)"

definition set_ival :: "64 word \<Rightarrow> 'l Expr \<Rightarrow> 'l Expr" where
  "set_ival v e =
     Expr (ex_type e) (ex_expr e) (ex_expr2 e) (ex_exprList e) (ex_select e) (ex_name e)
       (ex_table e) (ex_alias e) (ex_fval e) v (ex_ival2 e) (ex_datetimeField e)
       (ex_columnType e) (ex_isBoolLiteral e) (ex_opType e) (ex_distinct e)"

definition set_datetimeField :: "DatetimeField \<Rightarrow> 'l Expr \<Rightarrow> 'l Expr" where
  "set_datetimeField v e =
     Expr (ex_type e) (ex_expr e) (ex_expr2 e) (ex_exprList e) (ex_select e) (ex_name e)
       (ex_table e) (ex_alias e) (ex_fval e) (ex_ival e) (ex_ival2 e) v (ex_columnType e)
       (ex_isBoolLiteral e) (ex_opType e) (ex_distinct e)"

definition set_columnType :: "ColumnType \<Rightarrow> 'l Expr \<Rightarrow> 'l Expr" where
  "set_columnType v e =
     Expr (ex_type e) (ex_expr e) (ex_expr2 e) (ex_exprList e) (ex_select e) (ex_name e)
       (ex_table e) (ex_alias e) (ex_fval e) (ex_ival e) (ex_ival2 e) (ex_datetimeField e) v
       (ex_isBoolLiteral e) (ex_opType e) (ex_distinct e)"

definition set_isBoolLiteral :: "bool \<Rightarrow> 'l Expr \<Rightarrow> 'l Expr" where
  "set_isBoolLiteral v e =
     Expr (ex_type e) (ex_expr e) (ex_expr2 e) (ex_exprList e) (ex_select e) (ex_name e)
       (ex_table e) (ex_alias e) (ex_fval e) (ex_ival e) (ex_ival2 e) (ex_datetimeField e)
       (ex_columnType e) v (ex_opType e) (ex_distinct e)"

definition set_opType :: "OperatorType \<Rightarrow> 'l Expr \<Rightarrow> 'l Expr" where
  "set_opType v e =
     Expr (ex_type e) (ex_expr e) (ex_expr2 e) (ex_exprList e) (ex_select e) (ex_name e)
       (ex_table e) (ex_alias e) (ex_fval e) (ex_ival e) (ex_ival2 e) (ex_datetimeField e)
       (ex_columnType e) (ex_isBoolLiteral e) v (ex_distinct e)"

definition set_distinct :: "bool \<Rightarrow> 'l Expr \<Rightarrow> 'l Expr" where
  "set_distinct v e =
     Expr (ex_type e) (ex_expr e) (ex_expr2 e) (ex_exprList e) (ex_select e) (ex_name e)
       (ex_table e) (ex_alias e) (ex_fval e) (ex_ival e) (ex_ival2 e) (ex_datetimeField e)
       (ex_columnType e) (ex_isBoolLiteral e) (ex_opType e) v"

lemmas expr_setters = set_expr_def set_expr2_def set_exprList_def set_select_def set_name_def set_table_def set_alias_def set_fval_def set_ival_def set_datetimeField_def set_columnType_def set_isBoolLiteral_def set_opType_def set_distinct_def

section \<open>The static constructors\<close>

text \<open>
  Each takes the address \<open>l\<close> of the block that \<open>new\<close> returns; the constructors that also build a
  vector take its address \<open>v\<close>.
\<close>

definition Expr_new :: "ExprType \<Rightarrow> 'l Expr" where
  "Expr_new t = Expr t Null Null Null Null Null Null Null 0 0 0 kDatetimeNone (ColumnType UNKNOWN 0 0 0)
     False kOpNone False"

definition make :: "'l \<Rightarrow> ExprType \<Rightarrow> ('l, 'l Expr) ptr" where
  "make l t = Ptr l (Expr_new t)"

definition makeOpUnary :: "'l \<Rightarrow> OperatorType \<Rightarrow> ('l, 'l Expr) ptr \<Rightarrow> ('l, 'l Expr) ptr" where
  "makeOpUnary l op expr =
     Ptr l (set_expr2 Null (set_expr expr (set_opType op (Expr_new kExprOperator))))"

definition makeOpBinary :: "'l \<Rightarrow> ('l, 'l Expr) ptr \<Rightarrow> OperatorType \<Rightarrow> ('l, 'l Expr) ptr \<Rightarrow> ('l, 'l Expr) ptr" where
  "makeOpBinary l expr1 op expr2 =
     Ptr l (set_expr2 expr2 (set_expr expr1 (set_opType op (Expr_new kExprOperator))))"

definition makeBetween :: "'l \<Rightarrow> 'l \<Rightarrow> ('l, 'l Expr) ptr \<Rightarrow> ('l, 'l Expr) ptr \<Rightarrow> ('l, 'l Expr) ptr \<Rightarrow> ('l, 'l Expr) ptr" where
  "makeBetween l v expr left right =
     Ptr l (set_exprList (Ptr v [left, right]) (set_opType kOpBetween (set_expr expr (Expr_new kExprOperator))))"

definition makeCaseList :: "'l \<Rightarrow> 'l \<Rightarrow> ('l, 'l Expr) ptr \<Rightarrow> ('l, 'l Expr) ptr" where
  "makeCaseList l v caseListElement =
     Ptr l (set_exprList (Ptr v [caseListElement]) (set_opType kOpNone (Expr_new kExprOperator)))"

definition makeCaseListElement :: "'l \<Rightarrow> ('l, 'l Expr) ptr \<Rightarrow> ('l, 'l Expr) ptr \<Rightarrow> ('l, 'l Expr) ptr" where
  "makeCaseListElement l when thn =
     Ptr l (set_expr2 thn (set_expr when (set_opType kOpCaseListElement (Expr_new kExprOperator))))"

definition caseListAppend :: "('l, 'l Expr) ptr \<Rightarrow> ('l, 'l Expr) ptr \<Rightarrow> ('l, 'l Expr) ptr res" where
  "caseListAppend caseList caseListElement = (case caseList of
       Ptr l e \<Rightarrow> (case ex_exprList e of
           Ptr v es \<Rightarrow> Inr (Ptr l (set_exprList (Ptr v (es @ [caseListElement])) e))
         | Null \<Rightarrow> Inl NullDeref)
     | Null \<Rightarrow> Inl NullDeref)"

text \<open>
  \<open>makeCase\<close> moves the vector out of the temporary list and deletes the emptied list; the second
  component of the result is the object that is deleted.
\<close>

definition makeCase :: "'l \<Rightarrow> ('l, 'l Expr) ptr \<Rightarrow> ('l, 'l Expr) ptr \<Rightarrow> ('l, 'l Expr) ptr
    \<Rightarrow> (('l, 'l Expr) ptr \<times> ('l, 'l Expr) ptr) res" where
  "makeCase l expr caseList elseExpr = (case caseList of
       Ptr c cl \<Rightarrow>
         Inr (Ptr l (set_exprList (ex_exprList cl) (set_expr2 elseExpr (set_expr expr
                (set_opType kOpCase (Expr_new kExprOperator))))),
              Ptr c (set_exprList Null cl))
     | Null \<Rightarrow> Inl NullDeref)"

definition makeLiteral_int :: "'l \<Rightarrow> 64 word \<Rightarrow> ('l, 'l Expr) ptr" where
  "makeLiteral_int l val = Ptr l (set_ival val (Expr_new kExprLiteralInt))"

definition makeLiteral_double :: "'l \<Rightarrow> 64 word \<Rightarrow> ('l, 'l Expr) ptr" where
  "makeLiteral_double l val = Ptr l (set_fval val (Expr_new kExprLiteralFloat))"

definition makeLiteral_str :: "'l \<Rightarrow> 'l cstr \<Rightarrow> ('l, 'l Expr) ptr" where
  "makeLiteral_str l s = Ptr l (set_name s (Expr_new kExprLiteralString))"

definition makeLiteral_bool :: "'l \<Rightarrow> bool \<Rightarrow> ('l, 'l Expr) ptr" where
  "makeLiteral_bool l val =
     Ptr l (set_isBoolLiteral True (set_ival (if val then 1 else 0) (Expr_new kExprLiteralInt)))"

definition makeNullLiteral :: "'l \<Rightarrow> ('l, 'l Expr) ptr" where
  "makeNullLiteral l = Ptr l (Expr_new kExprLiteralNull)"

definition makeDateLiteral :: "'l \<Rightarrow> 'l cstr \<Rightarrow> ('l, 'l Expr) ptr" where
  "makeDateLiteral l s = Ptr l (set_name s (Expr_new kExprLiteralDate))"

definition makeIntervalLiteral :: "'l \<Rightarrow> 64 word \<Rightarrow> DatetimeField \<Rightarrow> ('l, 'l Expr) ptr" where
  "makeIntervalLiteral l duration unit =
     Ptr l (set_datetimeField unit (set_ival duration (Expr_new kExprLiteralInterval)))"

definition makeColumnRef :: "'l \<Rightarrow> 'l cstr \<Rightarrow> ('l, 'l Expr) ptr" where
  "makeColumnRef l name = Ptr l (set_name name (Expr_new kExprColumnRef))"

definition makeColumnRef_table :: "'l \<Rightarrow> 'l cstr \<Rightarrow> 'l cstr \<Rightarrow> ('l, 'l Expr) ptr" where
  "makeColumnRef_table l table name = Ptr l (set_table table (set_name name (Expr_new kExprColumnRef)))"

definition makeStar :: "'l \<Rightarrow> ('l, 'l Expr) ptr" where
  "makeStar l = Ptr l (Expr_new kExprStar)"

definition makeStar_table :: "'l \<Rightarrow> 'l cstr \<Rightarrow> ('l, 'l Expr) ptr" where
  "makeStar_table l table = Ptr l (set_table table (Expr_new kExprStar))"

definition makeFunctionRef :: "'l \<Rightarrow> 'l cstr \<Rightarrow> ('l, 'l Expr) pvec \<Rightarrow> bool \<Rightarrow> ('l, 'l Expr) ptr" where
  "makeFunctionRef l func_name exprList dist =
     Ptr l (set_distinct dist (set_exprList exprList (set_name func_name (Expr_new kExprFunctionRef))))"

definition makeArray :: "'l \<Rightarrow> ('l, 'l Expr) pvec \<Rightarrow> ('l, 'l Expr) ptr" where
  "makeArray l exprList = Ptr l (set_exprList exprList (Expr_new kExprArray))"

definition makeArrayIndex :: "'l \<Rightarrow> ('l, 'l Expr) ptr \<Rightarrow> 64 word \<Rightarrow> ('l, 'l Expr) ptr" where
  "makeArrayIndex l expr index = Ptr l (set_ival index (set_expr expr (Expr_new kExprArrayIndex)))"

definition makeParameter :: "'l \<Rightarrow> 32 word \<Rightarrow> ('l, 'l Expr) ptr" where
  "makeParameter l i = Ptr l (set_ival (scast i) (Expr_new kExprParameter))"

definition makeSelect :: "'l \<Rightarrow> ('l, 'l SelectStatement) ptr \<Rightarrow> ('l, 'l Expr) ptr" where
  "makeSelect l select = Ptr l (set_select select (Expr_new kExprSelect))"

definition makeExists :: "'l \<Rightarrow> ('l, 'l SelectStatement) ptr \<Rightarrow> ('l, 'l Expr) ptr" where
  "makeExists l select = Ptr l (set_select select (set_opType kOpExists (Expr_new kExprOperator)))"

definition makeInOperator :: "'l \<Rightarrow> ('l, 'l Expr) ptr \<Rightarrow> ('l, 'l Expr) pvec \<Rightarrow> ('l, 'l Expr) ptr" where
  "makeInOperator l expr exprList =
     Ptr l (set_exprList exprList (set_expr expr (set_opType kOpIn (Expr_new kExprOperator))))"

definition makeInOperator_select :: "'l \<Rightarrow> ('l, 'l Expr) ptr \<Rightarrow> ('l, 'l SelectStatement) ptr \<Rightarrow> ('l, 'l Expr) ptr" where
  "makeInOperator_select l expr select =
     Ptr l (set_select select (set_expr expr (set_opType kOpIn (Expr_new kExprOperator))))"

definition makeExtract :: "'l \<Rightarrow> DatetimeField \<Rightarrow> ('l, 'l Expr) ptr \<Rightarrow> ('l, 'l Expr) ptr" where
  "makeExtract l datetimeField expr =
     Ptr l (set_expr expr (set_datetimeField datetimeField (Expr_new kExprExtract)))"

definition makeCast :: "'l \<Rightarrow> ('l, 'l Expr) ptr \<Rightarrow> ColumnType \<Rightarrow> ('l, 'l Expr) ptr" where
  "makeCast l expr columnType = Ptr l (set_expr expr (set_columnType columnType (Expr_new kExprCast)))"

lemmas expr_makers = make_def makeOpUnary_def makeOpBinary_def makeBetween_def makeCaseList_def
  makeCaseListElement_def makeLiteral_int_def makeLiteral_double_def makeLiteral_str_def
  makeLiteral_bool_def makeNullLiteral_def makeDateLiteral_def makeIntervalLiteral_def
  makeColumnRef_def makeColumnRef_table_def makeStar_def makeStar_table_def makeFunctionRef_def
  makeArray_def makeArrayIndex_def makeParameter_def makeSelect_def makeExists_def
  makeInOperator_def makeInOperator_select_def makeExtract_def makeCast_def

section \<open>Observers\<close>

definition expr_isType :: "'l Expr \<Rightarrow> ExprType \<Rightarrow> bool" where
  "expr_isType e t = (t = ex_type e)"

definition isLiteral :: "'l Expr \<Rightarrow> bool" where
  "isLiteral e = (expr_isType e kExprLiteralInt \<or> expr_isType e kExprLiteralFloat \<or>
     expr_isType e kExprLiteralString \<or> expr_isType e kExprParameter \<or> expr_isType e kExprLiteralNull \<or>
     expr_isType e kExprLiteralDate \<or> expr_isType e kExprLiteralInterval)"

definition hasAlias :: "'l Expr \<Rightarrow> bool" where
  "hasAlias e = (ex_alias e \<noteq> Null)"

definition hasTable :: "'l Expr \<Rightarrow> bool" where
  "hasTable e = (ex_table e \<noteq> Null)"

definition expr_getName :: "'l Expr \<Rightarrow> 'l cstr" where
  "expr_getName e = (if ex_alias e \<noteq> Null then ex_alias e else ex_name e)"

definition hasSchema :: "'l TableRef \<Rightarrow> bool" where
  "hasSchema t = (tr_schema t \<noteq> Null)"

definition tableref_getName :: "'l TableRef \<Rightarrow> 'l cstr" where
  "tableref_getName t = (case tr_alias t of Ptr _ a \<Rightarrow> al_name a | Null \<Rightarrow> tr_name t)"

text \<open>
  The lexer's \<open>substr\<close>: \<open>strncpy\<close> stops at the end of the source and pads with zeros, so the
  copied C string ends there. A range that starts past the terminator reads outside the source.
\<close>

definition lexer_substr :: "string \<Rightarrow> nat \<Rightarrow> nat \<Rightarrow> string res" where
  "lexer_substr source from to =
     (if from \<le> to \<and> from \<le> length source then Inr (take (to - from) (drop from source)) else Inl OutOfBounds)"

section \<open>Constructors of the other nodes\<close>

definition SelectStatement_new :: "'l SelectStatement" where
  "SelectStatement_new = SelectStatement None Null Null False Null Null Null Null Null Null Null Null"

definition GroupByDescription_new :: "'l GroupByDescription" where
  "GroupByDescription_new = GroupByDescription Null Null"

definition SetOperation_new :: "'l SetOperation" where
  "SetOperation_new = SetOperation None None Null Null Null"

definition TableRef_new :: "TableRefType \<Rightarrow> 'l TableRef" where
  "TableRef_new t = TableRef t Null Null Null Null Null Null"

definition JoinDefinition_new :: "'l JoinDefinition" where
  "JoinDefinition_new = JoinDefinition Null Null Null kJoinInner"

definition ColumnDefinition_new :: "'l cstr \<Rightarrow> ColumnType \<Rightarrow> ('l, ConstraintType list) ptr \<Rightarrow> 'l ColumnDefinition" where
  "ColumnDefinition_new name type cs = \<lparr>cd_column_constraints = cs, cd_name = name, cd_type = type, cd_nullable = True\<rparr>"

definition DeleteStatement_new :: "'l DeleteStatement" where
  "DeleteStatement_new = \<lparr>stringLength = None, hints = Null, del_schema = Null, del_tableName = Null, del_expr = Null\<rparr>"

definition DropStatement_new :: "DropType \<Rightarrow> 'l DropStatement" where
  "DropStatement_new type = \<lparr>stringLength = None, hints = Null, drop_type = type, drop_ifExists = None,
     drop_schema = Null, drop_name = Null, drop_indexName = Null\<rparr>"

definition DropColumnAction_new :: "'l cstr \<Rightarrow> 'l DropColumnAction" where
  "DropColumnAction_new column_name = \<lparr>dca_columnName = column_name, dca_ifExists = False\<rparr>"

definition AlterStatement_new :: "'l cstr \<Rightarrow> ('l, 'l DropColumnAction) ptr \<Rightarrow> 'l AlterStatement" where
  "AlterStatement_new name action = \<lparr>stringLength = None, hints = Null, alt_schema = Null,
     alt_ifTableExists = False, alt_name = name, alt_action = action\<rparr>"

definition TransactionStatement_new :: "TransactionCommand \<Rightarrow> 'l TransactionStatement" where
  "TransactionStatement_new command = \<lparr>stringLength = None, hints = Null, trans_command = command\<rparr>"

definition ExecuteStatement_new :: "'l ExecuteStatement" where
  "ExecuteStatement_new = \<lparr>stringLength = None, hints = Null, exec_name = Null, exec_parameters = Null\<rparr>"

definition ExportStatement_new :: "ImportType \<Rightarrow> 'l ExportStatement" where
  "ExportStatement_new type = \<lparr>stringLength = None, hints = Null, exp_type = type, exp_filePath = Null,
     exp_schema = Null, exp_tableName = Null\<rparr>"

definition ImportStatement_new :: "ImportType \<Rightarrow> 'l ImportStatement" where
  "ImportStatement_new type = \<lparr>stringLength = None, hints = Null, imp_type = type, imp_filePath = Null,
     imp_schema = Null, imp_tableName = Null\<rparr>"

definition InsertStatement_new :: "InsertType \<Rightarrow> 'l InsertStatement" where
  "InsertStatement_new type = \<lparr>stringLength = None, hints = Null, ins_type = type, ins_schema = Null,
     ins_tableName = Null, ins_columns = Null, ins_values = Null, ins_select = Null\<rparr>"

definition ShowStatement_new :: "ShowType \<Rightarrow> 'l ShowStatement" where
  "ShowStatement_new type = \<lparr>stringLength = None, hints = Null, show_type = type, show_schema = Null,
     show_name = Null\<rparr>"

definition UpdateStatement_new :: "'l UpdateStatement" where
  "UpdateStatement_new = \<lparr>stringLength = None, hints = Null, upd_table = Null, upd_updates = Null,
     upd_where = Null\<rparr>"

definition PrepareStatement_new :: "'l PrepareStatement" where
  "PrepareStatement_new = \<lparr>stringLength = None, hints = Null, prep_name = Null, prep_query = Null\<rparr>"

definition CreateStatement_new :: "CreateType \<Rightarrow> 'l CreateStatement" where
  "CreateStatement_new type = \<lparr>stringLength = None, hints = Null, cre_type = type, cre_ifNotExists = False,
     cre_filePath = Null, cre_schema = Null, cre_tableName = Null, cre_indexName = Null,
     cre_indexColumns = Null, cre_columns = Null, cre_tableConstraints = Null, cre_viewColumns = Null,
     cre_select = Null\<rparr>"

section \<open>Column definitions\<close>

definition trySetNullableExplicit :: "'l ColumnDefinition \<Rightarrow> (bool \<times> 'l ColumnDefinition) res" where
  "trySetNullableExplicit c = rbind (deref (cd_column_constraints c)) (\<lambda>cs. Inr (
     if NotNull \<in> set cs \<or> PrimaryKey \<in> set cs
     then if NullConstraint \<in> set cs then (False, c) else (True, c\<lparr>cd_nullable := False\<rparr>)
     else (True, c)))"

text \<open>
  \<open>setColumnDefsAndConstraints\<close> splits the parsed table elements; the addresses \<open>v\<close> and \<open>w\<close> are those
  of the two new vectors. A null element fails both casts and is dropped.
\<close>

fun elem_columns :: "('l, 'l TableElement) ptr list \<Rightarrow> ('l, 'l ColumnDefinition) ptr list" where
  "elem_columns [] = []"
| "elem_columns (Ptr l (ElemColumn c) # es) = Ptr l c # elem_columns es"
| "elem_columns (_ # es) = elem_columns es"

fun elem_constraints :: "('l, 'l TableElement) ptr list \<Rightarrow> ('l, 'l TableConstraint) ptr list" where
  "elem_constraints [] = []"
| "elem_constraints (Ptr l (ElemConstraint c) # es) = Ptr l c # elem_constraints es"
| "elem_constraints (_ # es) = elem_constraints es"

definition setColumnDefsAndConstraints :: "'l \<Rightarrow> 'l \<Rightarrow> ('l, 'l TableElement) pvec \<Rightarrow> 'l CreateStatement
    \<Rightarrow> 'l CreateStatement res" where
  "setColumnDefsAndConstraints v w tableElements s = rbind (deref tableElements) (\<lambda>es.
     Inr (s\<lparr>cre_columns := Ptr v (elem_columns es), cre_tableConstraints := Ptr w (elem_constraints es)\<rparr>))"

definition ColumnType_eq :: "ColumnType \<Rightarrow> ColumnType \<Rightarrow> bool" where
  "ColumnType_eq lhs rhs = (if data_type lhs \<noteq> data_type rhs then False
     else ct_length lhs = ct_length rhs \<and> ct_precision lhs = ct_precision rhs \<and> ct_scale lhs = ct_scale rhs)"

definition ColumnType_neq :: "ColumnType \<Rightarrow> ColumnType \<Rightarrow> bool" where
  "ColumnType_neq lhs rhs = (\<not> ColumnType_eq lhs rhs)"

lemma ColumnType_eq_iff: "ColumnType_eq lhs rhs \<longleftrightarrow> lhs = rhs"
  by (cases lhs; cases rhs) (auto simp: ColumnType_eq_def)

end
