(* ===== verification/Sql_Analysis.thy ===== *)
theory Sql_Analysis
  imports Pruning Sql_Make
begin

text \<open>
  The analysis of a query, from joinCell, get_Expression and init_SQL in
  db_server/optimizer/preprocess.h: the tables, attributes, predicates and joins a SELECT statement
  mentions.
\<close>

section \<open>The code\<close>

record joinCell =
  ltab :: string
  lcol :: string
  rtab :: string
  rcol :: string

definition joinCell_new :: "string \<Rightarrow> string \<Rightarrow> string \<Rightarrow> string \<Rightarrow> joinCell" where
  "joinCell_new lt lc rt rc = \<lparr>ltab = lt, lcol = lc, rtab = rt, rcol = rc\<rparr>"

definition joinCell_find :: "joinCell \<Rightarrow> string \<Rightarrow> string \<Rightarrow> string" where
  "joinCell_find j tab attr =
     (if ltab j = tab \<and> lcol j = attr then rtab j @ ''.'' @ rcol j
      else if rtab j = tab \<and> rcol j = attr then ltab j @ ''.'' @ lcol j else [])"

text \<open>What \<open>get_Expression\<close> fills: the attributes, the predicates and the joins.\<close>

record clauses =
  All_Attr :: "string list"
  Predicate :: "Condition list"
  Join :: "joinCell list"

definition join_clause :: "'l Expr \<Rightarrow> 'l Expr \<Rightarrow> clauses \<Rightarrow> clauses res" where
  "join_clause e1 e2 st =
     rbind (deref (ex_table e1)) (\<lambda>t1. rbind (deref (ex_name e1)) (\<lambda>n1.
     rbind (deref (ex_table e2)) (\<lambda>t2. rbind (deref (ex_name e2)) (\<lambda>n2.
       Inr (st\<lparr>Join := Join st @ [joinCell_new t1 n1 t2 n2],
               All_Attr := All_Attr st @ [t1 @ ''.'' @ n1, t2 @ ''.'' @ n2]\<rparr>)))))"

definition literal_cond :: "'l Expr \<Rightarrow> Condition \<Rightarrow> Condition res" where
  "literal_cond e2 c =
     (if ex_type e2 = kExprLiteralString
      then rbind (deref (ex_name e2)) (\<lambda>s. Inr (c\<lparr>cond_type := ''string'', cond_sval := s\<rparr>))
      else Inr (c\<lparr>cond_type := ''int'', cond_ival := Some (wrap32 (sint (ex_ival e2)))\<rparr>))"

definition pred_clause :: "string list \<Rightarrow> OperatorType \<Rightarrow> 'l Expr \<Rightarrow> 'l Expr \<Rightarrow> clauses \<Rightarrow> clauses res" where
  "pred_clause fromTable op e1 e2 st =
     rbind (if ex_table e1 = Null then vat fromTable 0 else deref (ex_table e1)) (\<lambda>tableName.
     rbind (deref (ex_name e1)) (\<lambda>name.
     rbind (Condition_op op tableName name) (\<lambda>c.
     rbind (literal_cond e2 c) (\<lambda>cond.
       Inr (st\<lparr>All_Attr := All_Attr st @ [tableName @ ''.'' @ name], Predicate := Predicate st @ [cond]\<rparr>)))))"

text \<open>
  The two calls joined by the operator \<open>&\<close> are both made; the model takes them from left to right,
  an order the language leaves open.
\<close>

primrec get_Expression :: "'l Expr \<Rightarrow> string list \<Rightarrow> clauses \<Rightarrow> (bool \<times> clauses) res" where
  "get_Expression (Expr t e1 e2 es sel name table alias fval ival ival2 field ct isb op dist) =
     (\<lambda>fromTable st.
       if t = kExprOperator
       then rbind (deref (map_ptr get_Expression e1)) (\<lambda>g1. rbind (g1 fromTable st) (\<lambda>(m1, st1).
            rbind (deref (map_ptr get_Expression e2)) (\<lambda>g2. rbind (g2 fromTable st1) (\<lambda>(m2, st2).
              if m1 \<and> m2 \<and> op \<noteq> kOpAnd
              then rbind (if ex_type (obj e2) = kExprColumnRef
                          then join_clause (obj e1) (obj e2) st2
                          else pred_clause fromTable op (obj e1) (obj e2) st2) (\<lambda>st3. Inr (False, st3))
              else Inr (False, st2)))))
       else Inr (True, st))"

definition from_tables :: "'l SelectStatement \<Rightarrow> string list res" where
  "from_tables stmt = (case sel_fromTable stmt of
       Null \<Rightarrow> Inr []
     | Ptr _ t \<Rightarrow>
         if tr_type t = kTableName then rbind (deref (tr_name t)) (\<lambda>n. Inr [n])
         else rbind (deref (tr_list t)) (rmap (\<lambda>p. rbind (deref p) (\<lambda>tbl. deref (tr_name tbl)))))"

fun select_attrs :: "string list \<Rightarrow> ('l, 'l Expr) ptr list \<Rightarrow> string list res" where
  "select_attrs fromTable [] = Inr []"
| "select_attrs fromTable (p # ps) =
     rbind (deref p) (\<lambda>e.
       if ex_type e = kExprStar then rbind (select_attrs fromTable ps) (\<lambda>as. Inr (''*'' # as))
       else if ex_type e = kExprColumnRef
       then rbind (if ex_table e = Null then vat fromTable 0 else deref (ex_table e)) (\<lambda>table.
            rbind (deref (ex_name e)) (\<lambda>column.
            rbind (select_attrs fromTable ps) (\<lambda>as. Inr ((table @ ''.'' @ column) # as))))
       else select_attrs fromTable ps)"

definition sort_unique :: "'a::linorder list \<Rightarrow> 'a list" where
  "sort_unique xs = remdups_adj (sort xs)"

definition init_SQL :: "'l SelectStatement \<Rightarrow> (string list \<times> string list \<times> clauses) res" where
  "init_SQL stmt =
     rbind (from_tables stmt) (\<lambda>fromTable.
     rbind (case sel_selectList stmt of Null \<Rightarrow> Inr [] | Ptr _ ps \<Rightarrow> select_attrs fromTable ps) (\<lambda>Select_Attr.
     let st = \<lparr>All_Attr = Select_Attr, Predicate = [], Join = []\<rparr> in
     rbind (case sel_whereClause stmt of
              Null \<Rightarrow> Inr st
            | Ptr _ w \<Rightarrow> rbind (get_Expression w fromTable st) (\<lambda>(_, st). Inr st)) (\<lambda>st.
       Inr (fromTable, Select_Attr, st\<lparr>All_Attr := sort_unique (All_Attr st)\<rparr>))))"

section \<open>Conjunctions of comparisons\<close>

text \<open>
  The WHERE clauses the optimizer is made for: conjunctions of joins of two columns and of
  comparisons of a column with a literal. \<open>where_expr\<close> is the tree the parser builds for one.
\<close>

datatype wh =
    WAnd wh wh
  | WJoin string string string string
  | WInt OperatorType "string option" string int
  | WStr OperatorType "string option" string string

definition cs :: "string \<Rightarrow> unit cstr" where
  "cs s = Ptr () s"

definition col_expr :: "string option \<Rightarrow> string \<Rightarrow> (unit, unit Expr) ptr" where
  "col_expr t a = (case t of None \<Rightarrow> makeColumnRef () (cs a) | Some t \<Rightarrow> makeColumnRef_table () (cs t) (cs a))"

fun where_expr :: "wh \<Rightarrow> (unit, unit Expr) ptr" where
  "where_expr (WAnd a b) = makeOpBinary () (where_expr a) kOpAnd (where_expr b)"
| "where_expr (WJoin t a t' a') = makeOpBinary () (col_expr (Some t) a) kOpEquals (col_expr (Some t') a')"
| "where_expr (WInt op t a i) = makeOpBinary () (col_expr t a) op (makeLiteral_int () (word_of_int i))"
| "where_expr (WStr op t a s) = makeOpBinary () (col_expr t a) op (makeLiteral_str () (cs s))"

definition comparison :: "OperatorType \<Rightarrow> bool" where
  "comparison op = (op \<noteq> kOpAnd \<and> operatorToToken op \<noteq> None)"

fun wf_where :: "wh \<Rightarrow> bool" where
  "wf_where (WAnd a b) = (wf_where a \<and> wf_where b)"
| "wf_where (WJoin _ _ _ _) = True"
| "wf_where (WInt op t a i) = (comparison op \<and> - (2 ^ 31) \<le> i \<and> i < 2 ^ 31)"
| "wf_where (WStr op t a s) = comparison op"

definition op_token :: "OperatorType \<Rightarrow> string" where
  "op_token op = (case operatorToToken op of None \<Rightarrow> [] | Some tok \<Rightarrow> tok)"

definition table_or :: "string list \<Rightarrow> string option \<Rightarrow> string" where
  "table_or fromTable t = (case t of None \<Rightarrow> hd fromTable | Some t \<Rightarrow> t)"

fun where_preds :: "string list \<Rightarrow> wh \<Rightarrow> Condition list" where
  "where_preds fr (WAnd a b) = where_preds fr a @ where_preds fr b"
| "where_preds fr (WJoin _ _ _ _) = []"
| "where_preds fr (WInt op t a i) = [\<lparr>cond_table = table_or fr t, cond_attr = a, cond_opt = op_token op,
     cond_type = ''int'', cond_ival = Some i, cond_sval = []\<rparr>]"
| "where_preds fr (WStr op t a s) = [\<lparr>cond_table = table_or fr t, cond_attr = a, cond_opt = op_token op,
     cond_type = ''string'', cond_ival = None, cond_sval = s\<rparr>]"

fun where_joins :: "wh \<Rightarrow> joinCell list" where
  "where_joins (WAnd a b) = where_joins a @ where_joins b"
| "where_joins (WJoin t a t' a') = [joinCell_new t a t' a']"
| "where_joins _ = []"

fun where_attrs :: "string list \<Rightarrow> wh \<Rightarrow> string list" where
  "where_attrs fr (WAnd a b) = where_attrs fr a @ where_attrs fr b"
| "where_attrs fr (WJoin t a t' a') = [t @ ''.'' @ a, t' @ ''.'' @ a']"
| "where_attrs fr (WInt op t a i) = [table_or fr t @ ''.'' @ a]"
| "where_attrs fr (WStr op t a s) = [table_or fr t @ ''.'' @ a]"

text \<open>What a WHERE clause means for a row.\<close>

fun where_holds :: "string list \<Rightarrow> row \<Rightarrow> wh \<Rightarrow> bool" where
  "where_holds fr r (WAnd a b) = (where_holds fr r a \<and> where_holds fr r b)"
| "where_holds fr r (WJoin t a t' a') = (r t a = r t' a')"
| "where_holds fr r (WInt op t a i) = (\<exists>v. r (table_or fr t) a = IntCell v \<and> cmp_int (op_token op) v i)"
| "where_holds fr r (WStr op t a s) = (\<exists>v. r (table_or fr t) a = StrCell v \<and>
     (op_token op = ''='' \<and> v = s \<or> op_token op = ''!='' \<and> v \<noteq> s))"

definition join_holds :: "row \<Rightarrow> joinCell \<Rightarrow> bool" where
  "join_holds r j = (r (ltab j) (lcol j) = r (rtab j) (rcol j))"

lemma where_holds_clauses:
  "where_holds fr r w \<longleftrightarrow> (\<forall>p \<in> set (where_preds fr w). sat_cond r p) \<and> (\<forall>j \<in> set (where_joins w). join_holds r j)"
proof (induction w)
  case (WAnd a b)
  then show ?case by auto
next
  case (WInt op t a i)
  then show ?case by (cases "r (table_or fr t) a") (simp_all add: sat_cond_def del: cmp_int.simps)
next
  case (WStr op t a s)
  then show ?case by (cases "r (table_or fr t) a") (simp_all add: sat_cond_def)
qed (simp add: join_holds_def joinCell_new_def)

lemma wrap_literal:
  assumes "- (2 ^ 31) \<le> i" and "i < 2 ^ 31"
  shows "wrap32 (sint (word_of_int i :: 64 word)) = i"
proof -
  have "sint (word_of_int i :: 64 word) = i"
    unfolding sint_sbintrunc' using assms by (intro signed_take_bit_int_eq_self) auto
  with assms show ?thesis by (simp add: wrap32_id)
qed

lemma where_expr_Ptr: "\<exists>e. where_expr w = Ptr () e \<and> ex_type e = kExprOperator"
  by (induction w) (simp_all add: makeOpBinary_def expr_setters Expr_new_def)

lemma get_Expression_where:
  assumes "wf_where w" and "fromTable \<noteq> []"
  shows "get_Expression (obj (where_expr w)) fromTable st = Inr (False, \<lparr>All_Attr = All_Attr st @ where_attrs fromTable w,
     Predicate = Predicate st @ where_preds fromTable w, Join = Join st @ where_joins w\<rparr>)"
  using assms(1)
proof (induction w arbitrary: st)
  case (WAnd a b)
  obtain e1 e2 where e: "where_expr a = Ptr () e1" "where_expr b = Ptr () e2"
    using where_expr_Ptr by blast
  with WAnd show ?case
    by (simp add: makeOpBinary_def expr_setters Expr_new_def deref_def)
next
  case (WJoin t a t' a')
  then show ?case
    by (simp add: makeOpBinary_def makeColumnRef_table_def col_expr_def expr_setters Expr_new_def deref_def
        join_clause_def cs_def joinCell_new_def)
next
  case (WInt op t a i)
  then obtain tok where tok: "operatorToToken op = Some tok" "op \<noteq> kOpAnd" by (auto simp: comparison_def)
  with WInt assms(2) show ?case
    by (cases t) (simp_all add: makeOpBinary_def makeColumnRef_def makeColumnRef_table_def makeLiteral_int_def col_expr_def
        expr_setters Expr_new_def deref_def pred_clause_def literal_cond_def Condition_op_def Condition_blank_def
        cs_def table_or_def op_token_def wrap_literal hd_conv_nth)
next
  case (WStr op t a s)
  then obtain tok where tok: "operatorToToken op = Some tok" "op \<noteq> kOpAnd" by (auto simp: comparison_def)
  with WStr assms(2) show ?case
    by (cases t) (simp_all add: makeOpBinary_def makeColumnRef_def makeColumnRef_table_def makeLiteral_str_def col_expr_def
        expr_setters Expr_new_def deref_def pred_clause_def literal_cond_def Condition_op_def Condition_blank_def
        cs_def table_or_def op_token_def hd_conv_nth)
qed

section \<open>Sorted attribute lists\<close>

lemma sorted_remdups_adj_distinct: "sorted xs \<Longrightarrow> distinct (remdups_adj xs) \<and> sorted (remdups_adj xs)"
  by (induction xs rule: remdups_adj.induct) (auto simp: less_le)

lemma sort_unique_props:
  "set (sort_unique xs) = set xs" "distinct (sort_unique xs)" "sorted (sort_unique xs)"
  using sorted_remdups_adj_distinct [of "sort xs"] by (simp_all add: sort_unique_def)

section \<open>Queries\<close>

text \<open>A query in terms of its names: the items of its SELECT list, its tables and its WHERE clause, with the trees the parser builds for them.\<close>

datatype sel_item = SStar | SCol "string option" string

definition item_expr :: "sel_item \<Rightarrow> (unit, unit Expr) ptr" where
  "item_expr x = (case x of SStar \<Rightarrow> makeStar () | SCol t a \<Rightarrow> col_expr t a)"

definition item_attr :: "string list \<Rightarrow> sel_item \<Rightarrow> string" where
  "item_attr fr x = (case x of SStar \<Rightarrow> ''*'' | SCol t a \<Rightarrow> table_or fr t @ ''.'' @ a)"

definition table_ref :: "string \<Rightarrow> (unit, unit TableRef) ptr" where
  "table_ref n = Ptr () (TableRef kTableName Null (cs n) Null Null Null Null)"

definition from_ref :: "string list \<Rightarrow> (unit, unit TableRef) ptr" where
  "from_ref ns = (if length ns = 1 then table_ref (hd ns)
     else Ptr () (TableRef kTableCrossProduct Null Null Null Null (Ptr () (map table_ref ns)) Null))"

definition where_opt :: "wh option \<Rightarrow> (unit, unit Expr) ptr" where
  "where_opt w = (case w of None \<Rightarrow> Null | Some w \<Rightarrow> where_expr w)"

lemma from_tables_names: "sel_fromTable stmt = from_ref ns \<Longrightarrow> from_tables stmt = Inr ns"
proof -
  have "rmap (\<lambda>p. rbind (deref p) (\<lambda>tbl. deref (tr_name tbl))) (map table_ref ns) = Inr ns"
    by (induction ns) (simp_all add: table_ref_def deref_def cs_def)
  moreover have "length ns = 1 \<Longrightarrow> ns = [hd ns]" by (cases ns) auto
  ultimately show "sel_fromTable stmt = from_ref ns \<Longrightarrow> from_tables stmt = Inr ns"
    by (auto simp: from_tables_def from_ref_def table_ref_def deref_def cs_def)
qed

lemma select_attrs_items: "fr \<noteq> [] \<Longrightarrow> select_attrs fr (map item_expr xs) = Inr (map (item_attr fr) xs)"
proof (induction xs)
  case (Cons x xs)
  have "select_attrs fr (item_expr x # ps) = rbind (select_attrs fr ps) (\<lambda>as. Inr (item_attr fr x # as))" for ps
  proof (cases x)
    case SStar
    then show ?thesis by (simp add: item_expr_def item_attr_def makeStar_def Expr_new_def deref_def)
  next
    case (SCol t a)
    with Cons.prems show ?thesis
      by (cases t) (simp_all add: item_expr_def item_attr_def col_expr_def makeColumnRef_def makeColumnRef_table_def
          expr_setters Expr_new_def deref_def cs_def table_or_def hd_conv_nth)
  qed
  with Cons show ?case by simp
qed simp

section \<open>Properties\<close>

text \<open>
  C16: \<open>get_Expression\<close> takes a conjunction of comparisons and joins apart without loss. On the tree
  the parser builds for it, the function returns normally, appends one predicate per comparison
  and one join cell per join, and a row satisfies the WHERE clause exactly when it satisfies
  every predicate and every join that was appended.
\<close>
theorem get_Expression_exact:
  assumes "wf_where w" and "fromTable \<noteq> []"
  shows "\<exists>st. get_Expression (obj (where_expr w)) fromTable \<lparr>All_Attr = [], Predicate = [], Join = []\<rparr> = Inr (False, st) \<and>
     (where_holds fromTable r w \<longleftrightarrow> (\<forall>p \<in> set (Predicate st). sat_cond r p) \<and> (\<forall>j \<in> set (Join st). join_holds r j))"
  using get_Expression_where [OF assms] where_holds_clauses [of fromTable r w] by simp

theorem get_Expression_exact_witness:
  "\<exists>st. get_Expression (obj (where_expr (WAnd (WJoin ''Book'' ''id'' ''Orders'' ''book_id'') (WInt kOpLess None ''id'' 7))))
       [''Book''] \<lparr>All_Attr = [], Predicate = [], Join = []\<rparr> = Inr (False, st) \<and>
     (\<forall>p \<in> set (Predicate st). sat_cond (\<lambda>_ _. IntCell 5) p) \<and> (\<forall>j \<in> set (Join st). join_holds (\<lambda>_ _. IntCell 5) j)"
  using get_Expression_exact [of "WAnd (WJoin ''Book'' ''id'' ''Orders'' ''book_id'') (WInt kOpLess None ''id'' 7)"
      "[''Book'']" "\<lambda>_ _. IntCell 5"]
  by (auto simp: comparison_def op_token_def)

text \<open>
  C26: \<open>init_SQL\<close>, exactly. For a query over at least one table whose SELECT list holds stars and columns and whose WHERE clause, if it has
  one, is a conjunction of joins and comparisons, it returns the tables in order, one attribute per item of the SELECT list, the
  predicates and joins of the WHERE clause in order, and as all attributes a sorted list without duplicates of exactly the
  selected attributes and those of the WHERE clause. A column without a table belongs to the first table.
\<close>
theorem init_SQL_exact:
  assumes "sel_fromTable stmt = from_ref fr" and "fr \<noteq> []" and "sel_selectList stmt = Ptr () (map item_expr items)"
    and "sel_whereClause stmt = where_opt w" and "\<forall>x. w = Some x \<longrightarrow> wf_where x"
  shows "\<exists>attrs. init_SQL stmt = Inr (fr, map (item_attr fr) items,
      \<lparr>All_Attr = attrs, Predicate = (case w of None \<Rightarrow> [] | Some x \<Rightarrow> where_preds fr x), Join = (case w of None \<Rightarrow> [] | Some x \<Rightarrow> where_joins x)\<rparr>) \<and>
    sorted attrs \<and> distinct attrs \<and> set attrs = item_attr fr ` set items \<union> (case w of None \<Rightarrow> {} | Some x \<Rightarrow> set (where_attrs fr x))"
proof (cases w)
  case None
  with assms(1-4) from_tables_names [OF assms(1)] select_attrs_items [OF assms(2)] show ?thesis
    by (simp add: init_SQL_def where_opt_def sort_unique_props)
next
  case (Some x)
  obtain e where e: "where_expr x = Ptr () e" using where_expr_Ptr by blast
  with get_Expression_where [of x fr] assms(2,5) Some have "get_Expression e fr st = Inr (False,
      \<lparr>All_Attr = All_Attr st @ where_attrs fr x, Predicate = Predicate st @ where_preds fr x, Join = Join st @ where_joins x\<rparr>)" for st by simp
  with assms(3,4) e Some from_tables_names [OF assms(1)] select_attrs_items [OF assms(2)] show ?thesis
    by (simp add: init_SQL_def where_opt_def sort_unique_props)
qed

theorem init_SQL_exact_witness:
  "\<exists>attrs. init_SQL (SelectStatement None Null (from_ref [''Book'', ''Orders'']) False (Ptr () (map item_expr [SCol None ''title'', SStar]))
       (where_opt (Some (WAnd (WJoin ''Book'' ''id'' ''Orders'' ''book_id'') (WInt kOpLess (Some ''Orders'') ''quantity'' 7)))) Null Null Null Null Null Null)
     = Inr ([''Book'', ''Orders''], [''Book.title'', ''*''],
        \<lparr>All_Attr = attrs, Predicate = [\<lparr>cond_table = ''Orders'', cond_attr = ''quantity'', cond_opt = ''<'', cond_type = ''int'', cond_ival = Some 7, cond_sval = []\<rparr>],
         Join = [joinCell_new ''Book'' ''id'' ''Orders'' ''book_id'']\<rparr>) \<and>
     set attrs = {''Book.id'', ''Orders.book_id'', ''Orders.quantity'', ''Book.title'', ''*''}"
proof -
  let ?w = "WAnd (WJoin ''Book'' ''id'' ''Orders'' ''book_id'') (WInt kOpLess (Some ''Orders'') ''quantity'' 7)"
  let ?q = "SelectStatement None Null (from_ref [''Book'', ''Orders'']) False (Ptr () (map item_expr [SCol None ''title'', SStar]))
       (where_opt (Some ?w)) Null Null Null Null Null Null"
  have w: "\<forall>x. Some ?w = Some x \<longrightarrow> wf_where x" by (simp add: comparison_def)
  have i: "map (item_attr [''Book'', ''Orders'']) [SCol None ''title'', SStar] = [''Book.title'', ''*'']" by code_simp
  have p: "where_preds [''Book'', ''Orders''] ?w = [\<lparr>cond_table = ''Orders'', cond_attr = ''quantity'', cond_opt = ''<'', cond_type = ''int'',
      cond_ival = Some 7, cond_sval = []\<rparr>]" "where_attrs [''Book'', ''Orders''] ?w = [''Book.id'', ''Orders.book_id'', ''Orders.quantity'']" by code_simp+
  from init_SQL_exact [of ?q "[''Book'', ''Orders'']" "[SCol None ''title'', SStar]" "Some ?w"] w show ?thesis
    unfolding list.set_map [symmetric] i option.case p by auto
qed

text \<open>
  C27: a WHERE clause with a unary operator is not handled: \<open>get_Expression\<close> dereferences the null
  second operand, for every first operand that is itself no operator.
\<close>
theorem get_Expression_unary_crash:
  assumes "ex_type e \<noteq> kExprOperator"
  shows "get_Expression (obj (makeOpUnary l op (Ptr k e))) fromTable st = Inl NullDeref"
proof -
  have "get_Expression e fromTable st = Inr (True, st)" using assms by (cases e) simp
  then show ?thesis by (simp add: makeOpUnary_def expr_setters Expr_new_def deref_def)
qed

theorem get_Expression_unary_crash_witness:
  "get_Expression (obj (makeOpUnary (1 :: nat) kOpIsNull (makeColumnRef 2 (Ptr 3 ''title'')))) [''Book'']
     \<lparr>All_Attr = [], Predicate = [], Join = []\<rparr> = Inl NullDeref"
  unfolding makeColumnRef_def by (rule get_Expression_unary_crash) (simp add: expr_setters Expr_new_def)

end
