(* ===== verification/Join_Order.thy ===== *)
theory Join_Order
  imports Sql_Analysis
begin

text \<open>
  The helpers that order a query and enumerate its fragments, optimizer/preprocess.h lines 378 to 497: sortJoin, the
  per-site sizes of struct siteNum, the search get_joinList for chains of joinable fragments, and get_pattern, which
  merges chains that differ in one fragment. The lemmas show what sortJoin guarantees, that the search is exact and that
  merging keeps every chain.
\<close>

section \<open>Chaining the joins\<close>

definition list_swap :: "nat \<Rightarrow> nat \<Rightarrow> 'a list \<Rightarrow> 'a list" where
  "list_swap i j xs = xs[i := xs ! j, j := xs ! i]"

definition flip :: "joinCell \<Rightarrow> joinCell" where
  "flip x = \<lparr>ltab = rtab x, lcol = rcol x, rtab = ltab x, rcol = lcol x\<rparr>"

text \<open>The inner loop with its two breaks.\<close>

fun sortJoin_inner :: "nat \<Rightarrow> nat list \<Rightarrow> joinCell list \<Rightarrow> joinCell list" where
  "sortJoin_inner i [] J = J"
| "sortJoin_inner i (j # js) J =
     (if rtab (J ! i) = ltab (J ! j) then list_swap j (i + 1) J
      else if rtab (J ! i) = rtab (J ! j)
      then let J' = list_swap j (i + 1) J in J'[i + 1 := flip (J' ! (i + 1))]
      else sortJoin_inner i js J)"

definition sortJoin :: "joinCell list \<Rightarrow> joinCell list" where
  "sortJoin J = (if length J \<le> 1 then J
     else fold (\<lambda>i. sortJoin_inner i [i + 1..<length J]) [0..<length J - 1] J)"

section \<open>Enumerating the joins of fragments\<close>

type_synonym frag = "string \<times> int"
type_synonym edges = "(frag \<times> (frag \<times> int) list) list"

text \<open>
  The depth-first search: \<open>n\<close> is how many fragments are still missing, \<open>sz\<close> minus the size of \<open>ans\<close>.
  The caller starts with one fragment and \<open>sz\<close> at least 2.
\<close>

fun get_joinList :: "nat \<Rightarrow> edges \<Rightarrow> frag \<Rightarrow> frag list \<Rightarrow> frag list list" where
  "get_joinList 0 edge x ans = [ans]"
| "get_joinList (Suc n) edge x ans =
     concat (map (\<lambda>(y, w). if w = 1 then get_joinList n edge y (ans @ [y]) else []) (omap_get [] edge x))"

section \<open>Merging join lists\<close>

type_synonym pattern = "int list list"

definition check_pattern :: "pattern \<Rightarrow> pattern \<Rightarrow> nat \<Rightarrow> nat \<Rightarrow> bool" where
  "check_pattern a b pos sz = list_all (\<lambda>i. i = pos \<or> a ! i = b ! i) [0..<sz]"

text \<open>
  One pass over position \<open>i\<close>. The rows carry their mark; the inner loop joins the column of every
  later row that agrees elsewhere, marked or not, and marks that row.
\<close>

fun absorb :: "nat \<Rightarrow> nat \<Rightarrow> pattern \<Rightarrow> (pattern \<times> bool) list \<Rightarrow> pattern \<times> (pattern \<times> bool) list" where
  "absorb i sz p [] = (p, [])"
| "absorb i sz p ((q, m) # rest) =
     (if check_pattern p q i sz
      then let (p', rest') = absorb i sz (p[i := p ! i @ q ! i]) rest in (p', (q, True) # rest')
      else let (p', rest') = absorb i sz p rest in (p', (q, m) # rest'))"

lemma length_absorb [simp]: "length (snd (absorb i sz p rest)) = length rest"
  by (induction i sz p rest rule: absorb.induct) (auto simp: Let_def split: prod.splits)

function pattern_pass :: "nat \<Rightarrow> nat \<Rightarrow> (pattern \<times> bool) list \<Rightarrow> pattern list" where
  "pattern_pass i sz [] = []"
| "pattern_pass i sz ((p, m) # rest) =
     (if m then pattern_pass i sz rest
      else fst (absorb i sz p rest) # pattern_pass i sz (snd (absorb i sz p rest)))"
  by pat_completeness auto
termination by (relation "measure (\<lambda>(i, sz, ps). length ps)") auto

definition initial_patterns :: "frag list list \<Rightarrow> nat \<Rightarrow> pattern list res" where
  "initial_patterns joinList sz =
     rmap (\<lambda>x. rmap (\<lambda>i. rbind (vat x i) (\<lambda>f. Inr [snd f])) [0..<sz]) joinList"

definition pattern_step :: "nat \<Rightarrow> nat \<Rightarrow> pattern list \<Rightarrow> pattern list res" where
  "pattern_step sz i pattern =
     (if length pattern > 300 then Inl BufferOverflow
      else Inr (pattern_pass i sz (map (\<lambda>p. (p, False)) pattern)))"

definition get_pattern :: "frag list list \<Rightarrow> nat \<Rightarrow> pattern list res" where
  "get_pattern joinList sz =
     rbind (initial_patterns joinList sz) (rfold (pattern_step sz) (rev [0..<sz]))"

section \<open>Sites\<close>

record siteNum =
  sn_rSize :: "(string \<times> int) list"
  sn_total :: int
  sn_site :: int

definition siteNum_new :: "int \<Rightarrow> siteNum" where
  "siteNum_new site = \<lparr>sn_rSize = fold (\<lambda>x. omap_set x 0) [''Publisher'', ''Customer'', ''Book'', ''Orders''] [],
     sn_total = 0, sn_site = site\<rparr>"

definition add_relation :: "string \<Rightarrow> int \<Rightarrow> siteNum \<Rightarrow> siteNum" where
  "add_relation table rs s = s\<lparr>sn_rSize := omap_set table rs (sn_rSize s), sn_total := sn_total s + rs\<rparr>"

text \<open>\<open>operator <\<close> puts the larger total first; \<open>std::sort\<close> leaves the order of equal totals open, the model keeps it.\<close>

definition sort_sites :: "siteNum list \<Rightarrow> siteNum list" where
  "sort_sites = sort_key (\<lambda>s. - sn_total s)"

fun find_site :: "siteNum list \<Rightarrow> int \<Rightarrow> siteNum res" where
  "find_site [] site = Inl MissingReturn"
| "find_site (x # xs) site = (if sn_site x = site then Inr x else find_site xs site)"

fun find_site_total :: "siteNum list \<Rightarrow> int \<Rightarrow> int res" where
  "find_site_total [] site = Inl MissingReturn"
| "find_site_total (x # xs) site = (if sn_site x = site then Inr (sn_total x) else find_site_total xs site)"

text \<open>Every join ends where the next one starts.\<close>

definition is_chain :: "joinCell list \<Rightarrow> bool" where
  "is_chain J = list_all (\<lambda>i. rtab (J ! i) = ltab (J ! (i + 1))) [0..<length J - 1]"

section \<open>The joins are kept\<close>

text \<open>A join as the unordered pair of its columns.\<close>

definition ends :: "joinCell \<Rightarrow> (string \<times> string) set" where
  "ends j = {(ltab j, lcol j), (rtab j, rcol j)}"

definition touches :: "string \<Rightarrow> joinCell \<Rightarrow> bool" where
  "touches t j = (ltab j = t \<or> rtab j = t)"

lemma ends_flip [simp]: "ends (flip j) = ends j"
  by (auto simp: ends_def flip_def)

lemma flip_sel [simp]: "ltab (flip j) = rtab j" "rtab (flip j) = ltab j" "touches t (flip j) = touches t j"
  by (auto simp: flip_def touches_def)

lemma length_list_swap [simp]: "length (list_swap i j xs) = length xs"
  by (simp add: list_swap_def)

lemma nth_list_swap:
  "i < length xs \<Longrightarrow> j < length xs \<Longrightarrow> k < length xs \<Longrightarrow>
     list_swap i j xs ! k = (if k = j then xs ! i else if k = i then xs ! j else xs ! k)"
  by (auto simp: list_swap_def nth_list_update)

lemma mset_list_swap: "i < length xs \<Longrightarrow> j < length xs \<Longrightarrow> mset (list_swap i j xs) = mset xs"
  by (simp add: list_swap_def mset_swap)

lemma image_mset_update:
  assumes "k < length xs" and "f y = f (xs ! k)"
  shows "image_mset f (mset (xs[k := y])) = image_mset f (mset xs)"
proof -
  have "map f (xs[k := y]) = map f xs" using assms by (simp add: map_update list_update_same_conv)
  then show ?thesis by (metis mset_map)
qed

lemma sortJoin_inner_ends:
  assumes "i + 1 < length J" and "\<forall>j \<in> set js. j < length J"
  shows "image_mset ends (mset (sortJoin_inner i js J)) = image_mset ends (mset J) \<and>
    length (sortJoin_inner i js J) = length J"
  using assms
proof (induction i js J rule: sortJoin_inner.induct)
  case (2 i j js J)
  then have sw: "image_mset ends (mset (list_swap j (i + 1) J)) = image_mset ends (mset J)"
    by (simp add: mset_list_swap)
  with 2 show ?case by (auto simp: Let_def image_mset_update)
qed simp

text \<open>What one round does: the prefix stays, the suffix is permuted up to orientation, and the next join is chained.\<close>

definition same_up_to_flip :: "joinCell \<Rightarrow> joinCell \<Rightarrow> bool" where
  "same_up_to_flip a b = (a = b \<or> a = flip b)"

lemma touches_flip: "same_up_to_flip a b \<Longrightarrow> touches t a = touches t b"
  by (auto simp: same_up_to_flip_def)

definition chained :: "joinCell list \<Rightarrow> nat \<Rightarrow> bool" where
  "chained J i = (rtab (J ! i) = ltab (J ! (i + 1)) \<or> (\<forall>j. i < j \<and> j < length J \<longrightarrow> \<not> touches (rtab (J ! i)) (J ! j)))"

lemma sortJoin_inner_round:
  assumes "i + 1 < length J" and "\<forall>j \<in> set js. i < j \<and> j < length J"
    and "\<forall>j. i < j \<and> j < length J \<and> j \<notin> set js \<longrightarrow> \<not> touches (rtab (J ! i)) (J ! j)"
  shows "(\<forall>k \<le> i. sortJoin_inner i js J ! k = J ! k) \<and>
    (\<forall>k. i < k \<and> k < length J \<longrightarrow> (\<exists>k'. i < k' \<and> k' < length J \<and> same_up_to_flip (sortJoin_inner i js J ! k) (J ! k'))) \<and>
    chained (sortJoin_inner i js J) i"
  using assms
proof (induction i js J rule: sortJoin_inner.induct)
  case (1 i J)
  then show ?case by (auto simp: chained_def same_up_to_flip_def)
next
  case (2 i j js J)
  let ?S = "list_swap j (i + 1) J"
  have j: "i < j" "j < length J" using 2 by auto
  have S: "?S ! k = (if k = i + 1 then J ! j else if k = j then J ! (i + 1) else J ! k)" if "k < length J" for k
    using that j 2(2) by (auto simp: nth_list_swap)
  consider (l) "rtab (J ! i) = ltab (J ! j)" | (r) "rtab (J ! i) \<noteq> ltab (J ! j)" "rtab (J ! i) = rtab (J ! j)"
    | (n) "\<not> touches (rtab (J ! i)) (J ! j)" unfolding touches_def by metis
  then show ?case
  proof cases
    case l
    then have e: "sortJoin_inner i (j # js) J = ?S" by simp
    have "\<exists>k'. i < k' \<and> k' < length J \<and> same_up_to_flip (?S ! k) (J ! k')" if "i < k" "k < length J" for k
      using S [OF that(2)] j 2(2) that by (intro exI [of _ "if k = i + 1 then j else if k = j then i + 1 else k"])
        (auto simp: same_up_to_flip_def)
    moreover have "chained ?S i" using S [of i] S [of "i + 1"] 2(2) l j by (simp add: chained_def)
    ultimately show ?thesis unfolding e using S j 2(2) by auto
  next
    case r
    let ?R = "?S[i + 1 := flip (?S ! (i + 1))]"
    from r have e: "sortJoin_inner i (j # js) J = ?R" by (simp add: Let_def)
    have R: "?R ! k = (if k = i + 1 then flip (J ! j) else if k = j then J ! (i + 1) else J ! k)" if "k < length J" for k
      using that S j by (auto simp: nth_list_update)
    have "\<exists>k'. i < k' \<and> k' < length J \<and> same_up_to_flip (?R ! k) (J ! k')" if "i < k" "k < length J" for k
      using R [OF that(2)] j 2(2) that by (intro exI [of _ "if k = i + 1 then j else if k = j then i + 1 else k"])
        (auto simp: same_up_to_flip_def)
    moreover have "chained ?R i" using R [of i] R [of "i + 1"] 2(2) r j by (simp add: chained_def)
    moreover have "?R ! k = J ! k" if "k \<le> i" for k
    proof -
      from that j have "k < length J" "k \<noteq> i + 1" "k \<noteq> j" by auto
      with R [of k] show ?thesis by presburger
    qed
    ultimately show ?thesis unfolding e by blast
  next
    case n
    then have "sortJoin_inner i (j # js) J = sortJoin_inner i js J" "\<not> rtab (J ! i) = ltab (J ! j)"
      "\<not> rtab (J ! i) = rtab (J ! j)" by (auto simp: touches_def)
    with 2 n show ?thesis by auto
  qed
qed

lemma chained_prefix:
  assumes "chained J m" and "m < i" and "i < length J" and "length J' = length J"
    and "\<forall>k \<le> i. J' ! k = J ! k"
    and "\<forall>k. i < k \<and> k < length J \<longrightarrow> (\<exists>k'. i < k' \<and> k' < length J \<and> same_up_to_flip (J' ! k) (J ! k'))"
  shows "chained J' m"
proof (cases "rtab (J ! m) = ltab (J ! (m + 1))")
  case True
  with assms show ?thesis by (simp add: chained_def)
next
  case False
  with assms(1) have n: "\<And>j. m < j \<Longrightarrow> j < length J \<Longrightarrow> \<not> touches (rtab (J ! m)) (J ! j)" by (auto simp: chained_def)
  have "\<not> touches (rtab (J' ! m)) (J' ! j)" if "m < j" "j < length J" for j
  proof (cases "j \<le> i")
    case True
    with that n assms(2,5) show ?thesis by simp
  next
    case False
    with that have "i < j \<and> j < length J" by simp
    with assms(6) obtain k' where "i < k'" "k' < length J" "same_up_to_flip (J' ! j) (J ! k')" by blast
    with n [of k'] assms(2,5) show ?thesis by (simp add: touches_flip)
  qed
  with assms(4) show ?thesis by (simp add: chained_def)
qed

lemma fold_sortJoin:
  assumes "m + 1 \<le> length J"
  shows "length (fold (\<lambda>i. sortJoin_inner i [i + 1..<length J]) [0..<m] J) = length J \<and>
    image_mset ends (mset (fold (\<lambda>i. sortJoin_inner i [i + 1..<length J]) [0..<m] J)) = image_mset ends (mset J) \<and>
    (\<forall>k < m. chained (fold (\<lambda>i. sortJoin_inner i [i + 1..<length J]) [0..<m] J) k)"
  using assms
proof (induction m)
  case (Suc m)
  let ?J = "fold (\<lambda>i. sortJoin_inner i [i + 1..<length J]) [0..<m] J"
  let ?R = "sortJoin_inner m [m + 1..<length J] ?J"
  have IH: "length ?J = length J" "image_mset ends (mset ?J) = image_mset ends (mset J)" "\<forall>k < m. chained ?J k"
    using Suc by auto
  have e: "image_mset ends (mset ?R) = image_mset ends (mset ?J)" "length ?R = length ?J"
    using sortJoin_inner_ends [of m ?J "[m + 1..<length J]"] Suc.prems IH(1) by auto
  have p1: "m + 1 < length ?J" and p2: "\<forall>j \<in> set [m + 1..<length J]. m < j \<and> j < length ?J"
    using Suc.prems IH(1) by auto
  have p3: "\<forall>j. m < j \<and> j < length ?J \<and> j \<notin> set [m + 1..<length J] \<longrightarrow> \<not> touches (rtab (?J ! m)) (?J ! j)"
    using IH(1) by auto
  have r: "\<forall>k \<le> m. ?R ! k = ?J ! k" "\<forall>k. m < k \<and> k < length ?J \<longrightarrow> (\<exists>k'. m < k' \<and> k' < length ?J \<and> same_up_to_flip (?R ! k) (?J ! k'))"
    "chained ?R m"
    using sortJoin_inner_round [OF p1 p2 p3] by simp_all
  have "chained ?R k" if "k < Suc m" for k
  proof (cases "k = m")
    case False
    with that IH(1,3) Suc.prems e(2) r show ?thesis by (intro chained_prefix [of ?J k m ?R]) auto
  qed (use r(3) in simp)
  with IH e show ?case by simp
qed simp

lemma sortJoin_props:
  "length (sortJoin J) = length J \<and> image_mset ends (mset (sortJoin J)) = image_mset ends (mset J) \<and>
   (\<forall>i. i + 1 < length J \<longrightarrow> chained (sortJoin J) i)"
  using fold_sortJoin [of "length J - 1" J] by (auto simp: sortJoin_def)

section \<open>Paths\<close>

fun walk :: "edges \<Rightarrow> frag list \<Rightarrow> bool" where
  "walk edge (x # y # p) = ((y, 1) \<in> set (omap_get [] edge x) \<and> walk edge (y # p))"
| "walk edge _ = True"

lemma get_joinList_paths:
  "set (get_joinList n edge x ans) = {ans @ p |p. length p = n \<and> walk edge (x # p)}"
proof (induction n arbitrary: x ans)
  case (Suc n)
  have "set (get_joinList (Suc n) edge x ans) =
    (\<Union>y \<in> {y. (y, 1) \<in> set (omap_get [] edge x)}. {(ans @ [y]) @ p |p. length p = n \<and> walk edge (y # p)})"
    using Suc.IH by (auto split: if_splits)
  also have "\<dots> = {ans @ p |p. length p = Suc n \<and> walk edge (x # p)}"
    by (auto simp: length_Suc_conv)
  finally show ?case .
qed simp

lemma get_joinList_prefix: "q \<in> set (get_joinList n edge x ans) \<Longrightarrow> take (length ans) q = ans"
  by (auto simp: get_joinList_paths)

lemma get_joinList_distinct:
  assumes "\<And>y. distinct (map fst (omap_get [] edge y))"
  shows "distinct (get_joinList n edge x ans)"
proof (induction n arbitrary: x ans)
  case (Suc n)
  have d: "set (get_joinList n edge y (ans @ [y])) \<inter> set (get_joinList n edge y' (ans @ [y'])) = {}" if "y \<noteq> y'" for y y'
    using that by (auto simp: get_joinList_paths)
  have "distinct (concat (map (\<lambda>(y, w). if w = 1 then get_joinList n edge y (ans @ [y]) else []) es))"
    if "distinct (map fst es)" for es :: "(frag \<times> int) list"
    using that
  proof (induction es)
    case (Cons e es)
    obtain y w where e: "e = (y, w)" by (cases e)
    let ?g = "\<lambda>(y, w). if w = (1::int) then get_joinList n edge y (ans @ [y]) else []"
    have "set (?g e) \<inter> set (?g e') = {}" if "e' \<in> set es" for e'
    proof -
      obtain y' w' where e': "e' = (y', w')" by (cases e')
      with Cons.prems e that have "y \<noteq> y'" by force
      with d [of y y'] e e' show ?thesis by auto
    qed
    then have "set (?g e) \<inter> set (concat (map ?g es)) = {}" unfolding set_concat set_map by blast
    moreover have "distinct (?g e)" using Suc.IH e by simp
    moreover have "distinct (concat (map ?g es))" using Cons by simp
    ultimately show ?case by (simp only: list.map concat.simps distinct_append)
  qed simp
  from this [OF assms] show ?case by simp
qed simp

section \<open>Merging keeps the combinations\<close>

definition expand :: "pattern \<Rightarrow> int list multiset" where
  "expand p = mset (product_lists p)"

lemma check_pattern_iff: "check_pattern a b pos sz \<longleftrightarrow> (\<forall>i < sz. i \<noteq> pos \<longrightarrow> a ! i = b ! i)"
  by (auto simp: check_pattern_def list_all_iff)

lemma check_pattern_update [simp]:
  "check_pattern (p[i := v]) q i sz = check_pattern p q i sz"
  by (auto simp: check_pattern_iff nth_list_update_neq)

lemma check_pattern_trans:
  "check_pattern a b i sz \<Longrightarrow> check_pattern a c i sz = check_pattern b c i sz"
  by (auto simp: check_pattern_iff)

lemma product_lists_append:
  "mset (product_lists (xs @ (a @ b) # ys)) =
     mset (product_lists (xs @ a # ys)) + mset (product_lists (xs @ b # ys))"
proof (induction xs)
  case (Cons x xs)
  have "mset (concat (map (\<lambda>v. map ((#) v) (product_lists L)) x)) = sum_list (map (\<lambda>v. image_mset ((#) v) (mset (product_lists L))) x)" for L :: "'a list list"
    by (induction x) auto
  with Cons show ?case by (simp add: sum_list_addf del: mset_concat)
qed simp

lemma expand_merge:
  assumes "check_pattern p q i sz" and "length p = sz" and "length q = sz" and "i < sz"
  shows "expand (p[i := p ! i @ q ! i]) = expand p + expand q"
proof -
  have p: "p = take i p @ p ! i # drop (Suc i) p" using assms by (simp add: id_take_nth_drop)
  have "take i q = take i p" "drop (Suc i) q = drop (Suc i) p"
    using assms by (auto simp: check_pattern_iff intro!: nth_equalityI)
  then have q: "q = take i p @ q ! i # drop (Suc i) p" using assms id_take_nth_drop [of i q] by simp
  have "p[i := p ! i @ q ! i] = take i p @ (p ! i @ q ! i) # drop (Suc i) p"
    using assms by (simp add: upd_conv_take_nth_drop)
  then show ?thesis unfolding expand_def using product_lists_append [of "take i p" "p ! i" "q ! i" "drop (Suc i) p"] p q by metis
qed

definition combos :: "pattern list \<Rightarrow> int list multiset" where
  "combos ps = sum_list (map expand ps)"

lemma combos_simps [simp]: "combos [] = {#}" "combos (p # ps) = expand p + combos ps"
  by (simp_all add: combos_def)

lemma snd_absorb: "i < length p \<Longrightarrow> snd (absorb i sz p rest) = map (\<lambda>(q, m). (q, m \<or> check_pattern p q i sz)) rest"
  by (induction i sz p rest rule: absorb.induct) (auto simp: Let_def split: prod.splits)

lemma fst_absorb:
  assumes "length p = sz" and "i < sz" and "\<forall>(q, m) \<in> set rest. length q = sz"
  shows "length (fst (absorb i sz p rest)) = sz \<and>
    expand (fst (absorb i sz p rest)) = expand p + combos (map fst (filter (\<lambda>(q, m). check_pattern p q i sz) rest))"
  using assms
proof (induction i sz p rest rule: absorb.induct)
  case (2 i sz p q m rest)
  then show ?case by (auto simp: Let_def expand_merge add.assoc split: prod.splits)
qed simp

text \<open>Rows that agree off the column carry the same mark.\<close>

definition marks_agree :: "nat \<Rightarrow> nat \<Rightarrow> (pattern \<times> bool) list \<Rightarrow> bool" where
  "marks_agree i sz rows = (\<forall>(p, m) \<in> set rows. \<forall>(q, n) \<in> set rows. check_pattern p q i sz \<longrightarrow> m = n)"

lemma combos_split:
  assumes "\<forall>(q, n) \<in> set rest. A q \<longrightarrow> \<not> n"
  shows "combos (map fst (filter (\<lambda>(q, m). A q) rest)) +
    combos (map fst (filter (\<lambda>(q, m). \<not> m) (map (\<lambda>(q, m). (q, m \<or> A q)) rest))) =
    combos (map fst (filter (\<lambda>(q, m). \<not> m) rest))"
  using assms by (induction rest) (auto simp: ac_simps)

lemma pattern_pass_combos:
  assumes "i < sz" and "\<forall>(q, m) \<in> set rows. length q = sz" and "marks_agree i sz rows"
  shows "combos (pattern_pass i sz rows) = combos (map fst (filter (\<lambda>(q, m). \<not> m) rows)) \<and>
    (\<forall>q \<in> set (pattern_pass i sz rows). length q = sz) \<and> length (pattern_pass i sz rows) \<le> length rows"
  using assms
proof (induction i sz rows rule: pattern_pass.induct)
  case (2 i sz p m rest)
  let ?R = "map (\<lambda>(q, m). (q, m \<or> check_pattern p q i sz)) rest"
  from 2(4,5) have ip: "length p = sz" "i < length p" "\<forall>(q, n) \<in> set rest. length q = sz" using 2(3) by auto
  show ?case
  proof (cases m)
    case True
    have "marks_agree i sz rest" using 2(5) by (auto simp: marks_agree_def)
    from 2(1) [OF True 2(3) ip(3) this] True show ?thesis by simp
  next
    case False
    have s: "snd (absorb i sz p rest) = ?R" using snd_absorb ip(2) .
    have m: "marks_agree i sz ?R" unfolding marks_agree_def
    proof clarsimp
      fix q q' n n'
      assume a: "(q, n) \<in> set rest" "(q', n') \<in> set rest" "check_pattern q q' i sz"
      with 2(5) have "n = n'" by (auto simp: marks_agree_def)
      moreover have "check_pattern p q i sz = check_pattern p q' i sz" using a(3) by (auto simp: check_pattern_iff)
      ultimately show "(n \<or> check_pattern p q i sz) = (n' \<or> check_pattern p q' i sz)" by simp
    qed
    have l: "\<forall>(q, n) \<in> set ?R. length q = sz" using ip(3) by auto
    have IH: "combos (pattern_pass i sz ?R) = combos (map fst (filter (\<lambda>(q, m). \<not> m) ?R))"
      "\<forall>q \<in> set (pattern_pass i sz ?R). length q = sz" "length (pattern_pass i sz ?R) \<le> length ?R"
      using 2(2) [OF False 2(3)] l m unfolding s by blast+
    have "\<forall>(q, n) \<in> set rest. check_pattern p q i sz \<longrightarrow> \<not> n"
      using 2(5) False by (auto simp: marks_agree_def)
    note cs = combos_split [OF this]
    have A: "length (fst (absorb i sz p rest)) = sz"
      "expand (fst (absorb i sz p rest)) = expand p + combos (map fst (filter (\<lambda>(q, m). check_pattern p q i sz) rest))"
      using fst_absorb [OF ip(1) 2(3) ip(3)] by simp_all
    have "pattern_pass i sz ((p, m) # rest) = fst (absorb i sz p rest) # pattern_pass i sz ?R"
      using False by (simp add: s)
    then show ?thesis using A IH cs False by (simp add: add.assoc)
  qed
qed simp

lemma pattern_step_combos:
  assumes "i < sz" and "\<forall>q \<in> set ps. length q = sz" and "length ps \<le> 300"
  shows "\<exists>ps'. pattern_step sz i ps = Inr ps' \<and> combos ps' = combos ps \<and> (\<forall>q \<in> set ps'. length q = sz) \<and> length ps' \<le> length ps"
proof -
  let ?rows = "map (\<lambda>p. (p, False)) ps"
  have f: "map fst (filter (\<lambda>(q, m). \<not> m) ?rows) = ps" by (simp add: filter_map o_def)
  have m: "marks_agree i sz ?rows" and l: "\<forall>(q, m) \<in> set ?rows. length q = sz"
    using assms(2) by (auto simp: marks_agree_def)
  have "pattern_step sz i ps = Inr (pattern_pass i sz ?rows)" using assms(3) by (simp add: pattern_step_def)
  with pattern_pass_combos [OF assms(1) l m] show ?thesis unfolding f by (metis length_map)
qed

lemma rfold_pattern_step:
  assumes "\<forall>i \<in> set is'. i < sz" and "\<forall>q \<in> set ps. length q = sz" and "length ps \<le> 300"
  shows "\<exists>ps'. rfold (pattern_step sz) is' ps = Inr ps' \<and> combos ps' = combos ps \<and> length ps' \<le> length ps"
  using assms
proof (induction is' arbitrary: ps)
  case (Cons i is')
  then obtain ps1 where 1: "pattern_step sz i ps = Inr ps1" "combos ps1 = combos ps" "\<forall>q \<in> set ps1. length q = sz" "length ps1 \<le> length ps"
    using pattern_step_combos [of i sz ps] by auto
  have "\<forall>i \<in> set is'. i < sz" "length ps1 \<le> 300" using Cons.prems 1(4) by auto
  from Cons.IH [OF this(1) 1(3) this(2)] 1(1,2,4) show ?case by force
qed simp

lemma product_lists_single: "product_lists (map (\<lambda>x. [f x]) xs) = [map f xs]"
  by (induction xs) auto

lemma initial_patterns_eq:
  assumes "\<forall>x \<in> set JL. length x = sz"
  shows "initial_patterns JL sz = Inr (map (map (\<lambda>f. [snd f])) JL)"
proof -
  have "rmap (\<lambda>i. rbind (vat x i) (\<lambda>f. Inr [snd f])) [0..<sz] = Inr (map (\<lambda>f. [snd f]) x)" if "x \<in> set JL" for x
    using that assms by (auto simp: rmap_eq_Inr list_all2_conv_all_nth)
  then show ?thesis unfolding initial_patterns_def by (auto simp: rmap_eq_Inr list_all2_conv_all_nth)
qed

lemma combos_initial: "combos (map (map (\<lambda>f. [snd f])) JL) = mset (map (map snd) JL)"
  by (induction JL) (simp_all add: expand_def product_lists_single)

section \<open>Joins along a path\<close>

text \<open>The joins of neighbouring tables of a list, as sets of two tables.\<close>

fun path_edges :: "string list \<Rightarrow> string set list" where
  "path_edges (a # b # ts) = {a, b} # path_edges (b # ts)"
| "path_edges ts = []"

definition tabs :: "joinCell \<Rightarrow> string set" where
  "tabs j = {ltab j, rtab j}"

lemma tabs_ends: "tabs j = fst ` ends j"
  by (simp add: tabs_def ends_def)

lemma path_edges_append: "path_edges (xs @ y # ys) = path_edges (xs @ [y]) @ path_edges (y # ys)"
  by (induction xs rule: path_edges.induct) auto

lemma path_edges_rev: "mset (path_edges (rev ts)) = mset (path_edges ts)"
proof (induction ts rule: path_edges.induct)
  case (1 a b ts)
  then show ?case using path_edges_append [of "rev ts" b "[a]"] by (simp add: insert_commute)
qed simp_all

lemma Union_path_edges: "length ts \<ge> 2 \<Longrightarrow> \<Union> (set (path_edges ts)) = set ts"
proof (induction ts rule: path_edges.induct)
  case (1 a b ts)
  then show ?case by (cases ts) auto
qed simp_all

lemma path_edges_sub: "e \<in> set (path_edges ts) \<Longrightarrow> e \<subseteq> set ts"
  by (induction ts rule: path_edges.induct) auto

lemma chain_edges:
  assumes "successively (\<lambda>x y. rtab x = ltab y) K" and "K \<noteq> []"
  shows "path_edges (map ltab K @ [rtab (last K)]) = map tabs K"
  using assms
proof (induction K rule: induct_list012)
  case (3 x y K)
  then show ?case by (simp add: tabs_def)
qed (simp_all add: tabs_def)

lemma is_chain_successively: "is_chain K \<longleftrightarrow> successively (\<lambda>x y. rtab x = ltab y) K"
  by (auto simp: is_chain_def successively_conv_nth list_all_iff)

text \<open>A table inside a path belongs to two of its joins.\<close>

lemma inner_table:
  assumes "L \<in> set ts" and "L \<noteq> hd ts" and "L \<noteq> last ts"
  shows "size (filter_mset (\<lambda>e. L \<in> e) (mset (path_edges ts))) \<ge> 2"
proof -
  obtain xs ys where s: "ts = xs @ L # ys" using assms(1) by (auto simp: in_set_conv_decomp)
  with assms have "xs \<noteq> []" "ys \<noteq> []" by auto
  then obtain xs' a b ys' where "xs = xs' @ [a]" "ys = b # ys'" by (metis rev_exhaust list.exhaust)
  with s have "path_edges ts = path_edges (xs' @ [a]) @ {a, L} # {L, b} # path_edges (b # ys')"
    using path_edges_append [of xs' a "L # b # ys'"] by simp
  then show ?thesis by simp
qed

lemma chained_tl:
  assumes "\<forall>i. i + 1 < length (k # K) \<longrightarrow> chained (k # K) i"
  shows "\<forall>i. i + 1 < length K \<longrightarrow> chained K i"
proof (intro allI impI)
  fix i assume i: "i + 1 < length K"
  with assms have "chained (k # K) (Suc i)" by auto
  then show "chained K i" unfolding chained_def
    using i by (auto simp: nth_Cons' split: if_splits)
qed

text \<open>From an end of the path, joins that are chained in this way follow it.\<close>

lemma follows_path:
  assumes "distinct ts" and "mset (map tabs K) = mset (path_edges ts)" and "K \<noteq> []" and "ltab (hd K) = hd ts"
    and "\<forall>i. i + 1 < length K \<longrightarrow> chained K i"
  shows "successively (\<lambda>x y. rtab x = ltab y) K"
  using assms
proof (induction ts arbitrary: K rule: path_edges.induct)
  case (1 a b ts)
  obtain k K' where K: "K = k # K'" using "1.prems"(3) by (cases K) auto
  have "tabs k \<in> set (path_edges (a # b # ts))" using "1.prems"(2) K by (metis list.set_intros(1) list.simps(9) mset_eq_setD)
  moreover have "a \<in> tabs k" using "1.prems"(4) K by (simp add: tabs_def)
  moreover have "a \<notin> e" if "e \<in> set (path_edges (b # ts))" for e using path_edges_sub [OF that] "1.prems"(1) by auto
  ultimately have k: "tabs k = {a, b}" by auto
  with "1.prems"(1,4) K have r: "rtab k = b" by (auto simp: tabs_def doubleton_eq_iff)
  have m: "mset (map tabs K') = mset (path_edges (b # ts))" using "1.prems"(2) K k by simp
  have g: "\<forall>i. i + 1 < length K' \<longrightarrow> chained K' i" by (rule chained_tl [of k]) (use "1.prems"(5) K in simp)
  show ?case
  proof (cases ts)
    case Nil
    with m K show ?thesis by simp
  next
    case (Cons c ts')
    with m have "{b, c} \<in> tabs ` set K'" by (metis list.set_intros(1) list.set_map mset_eq_setD path_edges.simps(1))
    then obtain x where x: "x \<in> set K'" "touches b x" by (auto simp: tabs_def touches_def doubleton_eq_iff)
    then obtain j where "j < length K'" "K' ! j = x" by (auto simp: in_set_conv_nth)
    with x have "\<exists>j. 0 < j \<and> j < length K \<and> touches (rtab k) (K ! j)" using K r by (intro exI [of _ "Suc j"]) simp
    moreover have "chained K 0" using "1.prems"(5) K x(1) by (cases K') auto
    moreover have n: "K' \<noteq> []" using x(1) by auto
    ultimately have h: "rtab k = ltab (hd K')" "K' \<noteq> []" using K by (auto simp: chained_def hd_conv_nth)
    have "successively (\<lambda>x y. rtab x = ltab y) K'" by (rule "1.IH" [OF _ m h(2) _ g]) (use "1.prems"(1) h r in auto)
    with h K show ?thesis by (cases K') auto
  qed
qed simp_all

text \<open>The first join is left alone.\<close>

lemma sortJoin_inner_head: "0 \<notin> set js \<Longrightarrow> sortJoin_inner i js J ! 0 = J ! 0"
  by (induction i js J rule: sortJoin_inner.induct) (simp_all add: list_swap_def Let_def)

lemma sortJoin_head: "sortJoin J ! 0 = J ! 0"
proof -
  have "fold (\<lambda>i. sortJoin_inner i [i + 1..<n]) is' J ! 0 = J ! 0" for is' n
    by (induction is' arbitrary: J) (simp_all add: sortJoin_inner_head)
  then show ?thesis by (simp add: sortJoin_def)
qed

lemma edge_lengths: "xs \<noteq> [] \<Longrightarrow> length (xs @ [y]) \<ge> 2"
  by (cases xs) auto

text \<open>A chain with the joins of a path of distinct tables does not come back to its first table.\<close>

lemma chain_leaves_head:
  assumes "distinct t" and "length t = Suc (length (k # K))" and "mset (map tabs (k # K)) = mset (path_edges t)"
    and "successively (\<lambda>x y. rtab x = ltab y) (k # K)" and "x \<in> set K"
  shows "ltab k \<notin> tabs x"
proof -
  let ?u = "map ltab (k # K) @ [rtab (last (k # K))]"
  have "path_edges ?u = map tabs (k # K)" by (rule chain_edges [OF assms(4)]) simp
  with assms(3) have "set (path_edges ?u) = set (path_edges t)" by (metis mset_eq_setD)
  moreover have "length t \<ge> 2" using assms(2) by simp
  ultimately have "set ?u = set t" by (metis Union_path_edges edge_lengths list.discI list.map_disc_iff)
  moreover have "length ?u = length t" using assms(2) by simp
  ultimately have "distinct ?u" using assms(1) by (metis card_distinct distinct_card)
  moreover have "tabs x \<subseteq> set (map ltab K @ [rtab (last K)])"
  proof -
    from assms(5) have "K \<noteq> []" by auto
    moreover from this assms(4) have "successively (\<lambda>x y. rtab x = ltab y) K" by (cases K) auto
    ultimately have "tabs x \<in> set (path_edges (map ltab K @ [rtab (last K)]))" using assms(5) by (simp add: chain_edges)
    then show ?thesis by (rule path_edges_sub)
  qed
  moreover have "last (k # K) = last K" using assms(5) by auto
  ultimately show ?thesis by auto
qed

text \<open>A first table no other join has is an end of the path.\<close>

lemma fresh_head_chain:
  assumes "distinct t" and "mset (map tabs (k # K)) = mset (path_edges t)" and "\<forall>i. i + 1 < length (k # K) \<longrightarrow> chained (k # K) i"
    and "\<forall>x \<in> set K. ltab k \<notin> tabs x"
  shows "successively (\<lambda>x y. rtab x = ltab y) (k # K)"
proof -
  have "filter_mset (\<lambda>e. ltab k \<in> e) (mset (map tabs (k # K))) = {#tabs k#}"
    using assms(4) by (auto simp: filter_mset_eq_conv tabs_def)
  then have "size (filter_mset (\<lambda>e. ltab k \<in> e) (mset (path_edges t))) = 1" unfolding assms(2) by simp
  moreover have "tabs k \<in> set (path_edges t)" using assms(2) by (metis list.set_intros(1) list.simps(9) mset_eq_setD)
  from path_edges_sub [OF this] have "ltab k \<in> set t" by (simp add: tabs_def)
  ultimately have "ltab k = hd t \<or> ltab k = last t" using inner_table [of "ltab k" t] by fastforce
  then show ?thesis
  proof
    assume "ltab k = hd t"
    then show ?thesis using follows_path [OF assms(1,2) _ _ assms(3)] by simp
  next
    assume "ltab k = last t"
    then have "ltab (hd (k # K)) = hd (rev t)" by (simp add: hd_rev)
    moreover have "distinct (rev t)" "mset (map tabs (k # K)) = mset (path_edges (rev t))"
      using assms(1,2) path_edges_rev [of t] by (simp_all only: distinct_rev)
    ultimately show ?thesis using follows_path [of "rev t" "k # K"] assms(3) by simp
  qed
qed

section \<open>Properties\<close>

text \<open>
  C28: \<open>sortJoin\<close> keeps the joins, each possibly turned round, and after it every join is followed by one that starts
  at the table it ends at, unless no later join has that table at all.
\<close>

theorem sortJoin_chains:
  "image_mset ends (mset (sortJoin J)) = image_mset ends (mset J) \<and>
   (i + 1 < length J \<longrightarrow> rtab (sortJoin J ! i) = ltab (sortJoin J ! (i + 1)) \<or>
      (\<forall>j. i < j \<and> j < length J \<longrightarrow> rtab (sortJoin J ! i) \<notin> {ltab (sortJoin J ! j), rtab (sortJoin J ! j)}))"
proof -
  have "length (sortJoin J) = length J" "image_mset ends (mset (sortJoin J)) = image_mset ends (mset J)"
    "i + 1 < length J \<longrightarrow> chained (sortJoin J) i"
    using sortJoin_props [of J] by blast+
  then show ?thesis unfolding chained_def touches_def by auto
qed

theorem sortJoin_chains_witness:
  "let J = [\<lparr>ltab = ''Orders'', lcol = ''book_id'', rtab = ''Book'', rcol = ''id''\<rparr>,
            \<lparr>ltab = ''Orders'', lcol = ''customer_id'', rtab = ''Customer'', rcol = ''id''\<rparr>,
            \<lparr>ltab = ''Publisher'', lcol = ''id'', rtab = ''Book'', rcol = ''publisher_id''\<rparr>] in
   0 + 1 < length J \<and> rtab (sortJoin J ! 0) = ltab (sortJoin J ! (0 + 1))"
proof -
  let ?J = "[\<lparr>ltab = ''Orders'', lcol = ''book_id'', rtab = ''Book'', rcol = ''id''\<rparr>,
            \<lparr>ltab = ''Orders'', lcol = ''customer_id'', rtab = ''Customer'', rcol = ''id''\<rparr>,
            \<lparr>ltab = ''Publisher'', lcol = ''id'', rtab = ''Book'', rcol = ''publisher_id''\<rparr>]"
  have "sortJoin ?J = [\<lparr>ltab = ''Orders'', lcol = ''book_id'', rtab = ''Book'', rcol = ''id''\<rparr>,
            \<lparr>ltab = ''Book'', lcol = ''publisher_id'', rtab = ''Publisher'', rcol = ''id''\<rparr>,
            \<lparr>ltab = ''Orders'', lcol = ''customer_id'', rtab = ''Customer'', rcol = ''id''\<rparr>]"
    by code_simp
  with sortJoin_chains [of ?J 0] show ?thesis by (simp add: Let_def)
qed

text \<open>
  C29: when the greedy order of \<open>sortJoin\<close> is a chain. For joins that form a path through distinct tables, in any order and each
  either way round, \<open>sortJoin\<close> finds a chain exactly when no other join has the left table of the first join given: the first join is
  neither moved nor turned round, so a query that names a join inside the path first comes out with a gap.
\<close>

theorem sortJoin_chain_iff:
  assumes "is_chain P" and "distinct (map ltab P @ [rtab (last P)])" and "image_mset ends (mset J) = image_mset ends (mset P)" and "J \<noteq> []"
  shows "is_chain (sortJoin J) \<longleftrightarrow> (\<forall>x \<in> set (tl J). ltab (hd J) \<noteq> ltab x \<and> ltab (hd J) \<noteq> rtab x)"
proof -
  let ?K = "sortJoin J" and ?t = "map ltab P @ [rtab (last P)]"
  have K: "length ?K = length J" "image_mset ends (mset ?K) = image_mset ends (mset J)" "\<forall>i. i + 1 < length ?K \<longrightarrow> chained ?K i"
    using sortJoin_props [of J] by simp_all
  have ne: "?K \<noteq> []" "P \<noteq> []" using K(1) assms(3,4) by auto
  have hd: "hd ?K = hd J" using sortJoin_head [of J] ne assms(4) by (simp add: hd_conv_nth)
  have tb: "mset (map tabs xs) = image_mset (image fst) (image_mset ends (mset xs))" for xs
    using multiset.map_comp [of "image fst" ends "mset xs"] by (simp add: o_def tabs_ends cong: image_mset_cong)
  have e: "path_edges ?t = map tabs P" using chain_edges [OF _ ne(2)] assms(1) by (simp add: is_chain_successively)
  have m: "mset (map tabs ?K) = mset (path_edges ?t)" "mset (map tabs ?K) = mset (map tabs J)" using K(2) assms(3) by (simp_all only: e tb)
  obtain k K' J' where KJ: "?K = k # K'" "J = k # J'" using hd ne assms(4) by (metis list.collapse)
  with m(2) have "image_mset tabs (mset K') = image_mset tabs (mset J')" by simp
  then have tl: "tabs ` set K' = tabs ` set J'" by (metis set_image_mset set_mset_mset)
  have "length P = length J" using assms(3) by (metis size_image_mset size_mset)
  then have "length ?t = Suc (length (k # K'))" using K(1) KJ(1) by simp
  with chain_leaves_head [OF assms(2) _ m(1) [unfolded KJ(1)]] fresh_head_chain [OF assms(2) m(1) [unfolded KJ(1)] K(3) [unfolded KJ(1)]]
  have "is_chain ?K \<longleftrightarrow> (\<forall>e \<in> tabs ` set K'. ltab k \<notin> e)" unfolding is_chain_successively KJ(1) by auto
  then show ?thesis unfolding tl using KJ(2) by (simp add: tabs_def)
qed

theorem sortJoin_chain_iff_witness:
  "let a = \<lparr>ltab = ''Customer'', lcol = ''id'', rtab = ''Orders'', rcol = ''customer_id''\<rparr>;
       b = \<lparr>ltab = ''Orders'', lcol = ''book_id'', rtab = ''Book'', rcol = ''id''\<rparr>;
       c = \<lparr>ltab = ''Book'', lcol = ''publisher_id'', rtab = ''Publisher'', rcol = ''id''\<rparr> in
   is_chain (sortJoin [a, c, b]) \<and> is_chain (sortJoin [flip c, a, b]) \<and> \<not> is_chain (sortJoin [b, a, c])"
proof -
  let ?a = "\<lparr>ltab = ''Customer'', lcol = ''id'', rtab = ''Orders'', rcol = ''customer_id''\<rparr>"
  let ?b = "\<lparr>ltab = ''Orders'', lcol = ''book_id'', rtab = ''Book'', rcol = ''id''\<rparr>"
  let ?c = "\<lparr>ltab = ''Book'', lcol = ''publisher_id'', rtab = ''Publisher'', rcol = ''id''\<rparr>"
  have p: "is_chain [?a, ?b, ?c]" "distinct (map ltab [?a, ?b, ?c] @ [rtab (last [?a, ?b, ?c])])" by code_simp+
  have m: "image_mset ends (mset [a, c, b]) = image_mset ends (mset [a, b, c])"
    "image_mset ends (mset [flip c, a, b]) = image_mset ends (mset [a, b, c])"
    "image_mset ends (mset [b, a, c]) = image_mset ends (mset [a, b, c])" for a b c by simp_all
  have "is_chain (sortJoin [?a, ?c, ?b])" "is_chain (sortJoin [flip ?c, ?a, ?b])"
    using sortJoin_chain_iff [OF p m(1)] sortJoin_chain_iff [OF p m(2)] by (simp_all add: flip_def)
  moreover have "\<not> is_chain (sortJoin [?b, ?a, ?c])" using sortJoin_chain_iff [OF p m(3)] by simp
  ultimately show ?thesis by (simp add: Let_def)
qed

text \<open>
  C12: the depth-first search of \<open>get_joinList\<close> collects exactly the ways to extend the fragments chosen so far to \<open>sz\<close>
  fragments along edges that are marked 1, and collects each of them once.
\<close>

theorem get_joinList_exact:
  assumes "\<And>y. distinct (map fst (omap_get [] edge y))"
  shows "set (get_joinList n edge x ans) = {ans @ p |p. length p = n \<and> walk edge (x # p)} \<and>
    distinct (get_joinList n edge x ans)"
  using get_joinList_paths get_joinList_distinct [OF assms] by blast

theorem get_joinList_exact_witness:
  "let edge = [((''Book'', 1), [((''Orders'', 1), 1), ((''Orders'', 2), 0), ((''Orders'', 3), 1)])] in
   distinct (get_joinList 1 edge (''Book'', 1) [(''Book'', 1)]) \<and>
   get_joinList 1 edge (''Book'', 1) [(''Book'', 1)] = [[(''Book'', 1), (''Orders'', 1)], [(''Book'', 1), (''Orders'', 3)]]"
proof -
  let ?e = "[((''Book'', 1), [((''Orders'', 1), 1), ((''Orders'', 2), 0), ((''Orders'', 3), 1)])] :: edges"
  have "distinct (map fst (omap_get [] ?e y))" for y by (auto simp: omap_get_def)
  from get_joinList_exact [OF this, of 1 "(''Book'', 1)" "[(''Book'', 1)]"]
  show ?thesis by (simp add: Let_def omap_get_def)
qed

text \<open>
  C11: merging join lists into patterns loses and doubles nothing: multiplying the patterns out gives back the
  fragment numbers of the join lists, as long as there are at most 300 of them. The merge never has more patterns than lists.
\<close>

theorem get_pattern_combinations:
  assumes "\<forall>x \<in> set JL. length x = sz" and "length JL \<le> 300"
  shows "\<exists>ps. get_pattern JL sz = Inr ps \<and> mset (concat (map product_lists ps)) = mset (map (map snd) JL) \<and>
    length ps \<le> length JL"
proof -
  let ?ps = "map (map (\<lambda>f. [snd f])) JL :: pattern list"
  have "\<forall>q \<in> set ?ps. length q = sz" using assms by auto
  then obtain ps where "rfold (pattern_step sz) (rev [0..<sz]) ?ps = Inr ps" "combos ps = combos ?ps" "length ps \<le> length ?ps"
    using rfold_pattern_step [of "rev [0..<sz]" sz ?ps] assms(2) by auto
  moreover have "combos ps = mset (concat (map product_lists ps))" for ps
    by (induction ps) (simp_all add: expand_def)
  ultimately show ?thesis using combos_initial [of JL] initial_patterns_eq [OF assms(1)] by (auto simp: get_pattern_def)
qed

theorem get_pattern_combinations_witness:
  "let JL = [[(''Book'', 1), (''Orders'', 1)], [(''Book'', 1), (''Orders'', 2)], [(''Book'', 2), (''Orders'', 1)], [(''Book'', 2), (''Orders'', 2)]] in
   (\<forall>x \<in> set JL. length x = 2) \<and> get_pattern JL 2 = Inr [[[1, 2], [1, 2]]] \<and>
   mset (product_lists [[1, 2], [1, 2]]) = mset (map (map snd) JL)"
proof -
  let ?J = "[[(''Book'', 1), (''Orders'', 1)], [(''Book'', 1), (''Orders'', 2)], [(''Book'', 2), (''Orders'', 1)], [(''Book'', 2), (''Orders'', 2)]] :: frag list list"
  have "get_pattern ?J 2 = Inr [[[1, 2], [1, 2]]]" by code_simp
  with get_pattern_combinations [of ?J 2] show ?thesis by (auto simp: Let_def)
qed

text \<open>More than 300 join lists run past the marks array, whose size is fixed.\<close>

lemma get_pattern_overflow:
  assumes "\<forall>x \<in> set JL. length x = sz" and "length JL > 300" and "sz > 0"
  shows "get_pattern JL sz = Inl BufferOverflow"
proof -
  from assms(3) have "rev [0..<sz] = (sz - 1) # rev [0..<sz - 1]" by (cases sz) auto
  with assms show ?thesis by (simp add: get_pattern_def initial_patterns_eq pattern_step_def)
qed

lemma get_pattern_overflow_witness:
  "get_pattern (replicate 301 [(''Book'', 1)]) 1 = Inl BufferOverflow"
  by (rule get_pattern_overflow) simp_all

end
