(* ===== verification/Catalog.thy ===== *)
theory Catalog
  imports Pruning
begin

text \<open>
  The fragmentation catalog, from getMetadata, findTable and findAttr in
  db_server/optimizer/preprocess.h: the four tables with their fragments, and what a fragment
  means as a set of rows.
\<close>

section \<open>The code\<close>

text \<open>A horizontal fragment with its conditions pushed in order, and a vertical one with its columns.\<close>

definition hf_frag :: "string \<Rightarrow> int \<Rightarrow> int \<Rightarrow> string list \<Rightarrow> Fragment" where
  "hf_frag name i sz conds =
     (Fragment_new (name, i) i ''hf'' sz)\<lparr>frag_hf_condition := map Condition_parse conds\<rparr>"

definition vf_frag :: "string \<Rightarrow> int \<Rightarrow> int \<Rightarrow> string list \<Rightarrow> Fragment" where
  "vf_frag name i sz cols = (Fragment_new (name, i) i ''vf'' sz)\<lparr>frag_vf_column := cols\<rparr>"

definition Publisher_table :: metadataTable where
  "Publisher_table = (metadataTable_new ''Publisher'' ''hf'' ''id'')
     \<lparr>mt_attrs := [''Publisher.id'', ''Publisher.name'', ''Publisher.nation''],
      mt_frags := [hf_frag ''Publisher'' 1 46621 [''Publisher.id<104000'', ''Publisher.nation=PRC''],
                   hf_frag ''Publisher'' 2 222 [''Publisher.id<104000'', ''Publisher.nation=USA''],
                   hf_frag ''Publisher'' 3 12190 [''Publisher.id>=104000'', ''Publisher.nation=PRC''],
                   hf_frag ''Publisher'' 4 444 [''Publisher.id>=104000'', ''Publisher.nation=USA'']]\<rparr>"

definition Customer_table :: metadataTable where
  "Customer_table = (metadataTable_new ''Customer'' ''vf'' ''id'')
     \<lparr>mt_attrs := [''Customer.id'', ''Customer.name'', ''Customer.rank''],
      mt_frags := [vf_frag ''Customer'' 1 105000 [''Customer.id'', ''Customer.name''],
                   vf_frag ''Customer'' 2 105000 [''Customer.id'', ''Customer.rank'']]\<rparr>"

definition Book_table :: metadataTable where
  "Book_table = (metadataTable_new ''Book'' ''hf'' ''id'')
     \<lparr>mt_attrs := [''Book.id'', ''Book.title'', ''Book.authors'', ''Book.publisher_id'', ''Book.copies''],
      mt_frags := [hf_frag ''Book'' 1 118776 [''Book.id<205000''],
                   hf_frag ''Book'' 2 118800 [''Book.id>=205000'', ''Book.id<210000''],
                   hf_frag ''Book'' 3 950423 [''Book.id>=210000'']]\<rparr>"

definition Orders_table :: metadataTable where
  "Orders_table = (metadataTable_new ''Orders'' ''hf'' '''')
     \<lparr>mt_attrs := [''Orders.customer_id'', ''Orders.book_id'', ''Orders.quantity''],
      mt_frags := [hf_frag ''Orders'' 1 1000 [''Orders.customer_id<307000'', ''Orders.book_id<215000''],
                   hf_frag ''Orders'' 2 1000 [''Orders.customer_id<307000'', ''Orders.book_id>=215000''],
                   hf_frag ''Orders'' 3 184796 [''Orders.customer_id>=307000'', ''Orders.book_id<215000''],
                   hf_frag ''Orders'' 4 435846 [''Orders.customer_id>=307000'', ''Orders.book_id>=215000'']]\<rparr>"

definition getMetadata :: "metadataTable list" where
  "getMetadata = [Publisher_table, Customer_table, Book_table, Orders_table]"

fun findTable :: "metadataTable list \<Rightarrow> string \<Rightarrow> metadataTable res" where
  "findTable [] tableName = Inl MissingReturn"
| "findTable (x # xs) tableName = (if mt_name x = tableName then Inr x else findTable xs tableName)"

definition findAttr :: "Condition list \<Rightarrow> string \<Rightarrow> string \<Rightarrow> int list" where
  "findAttr hf_condition table attr =
     (let ans = map int (filter (\<lambda>i. cond_table (hf_condition ! i) = table \<and> cond_attr (hf_condition ! i) = attr)
                  [0..<length hf_condition])
      in if ans = [] then [- 1] else ans)"

section \<open>Fragments as sets of rows\<close>

definition frag_holds :: "row \<Rightarrow> Fragment \<Rightarrow> bool" where
  "frag_holds r f = holds_all r (frag_hf_condition f)"

lemma findTable_Inr: "findTable Ts n = Inr t \<Longrightarrow> t \<in> set Ts \<and> mt_name t = n"
  by (induction Ts) (auto split: if_splits)

lemma findTable_found: "t \<in> set Ts \<Longrightarrow> \<exists>t'. findTable Ts (mt_name t) = Inr t'"
  by (induction Ts) auto

lemma findTable_error: "(\<forall>t \<in> set Ts. mt_name t \<noteq> n) \<Longrightarrow> findTable Ts n = Inl MissingReturn"
  by (induction Ts) auto

lemma findTable_catalog [simp]:
  "findTable getMetadata ''Publisher'' = Inr Publisher_table"
  "findTable getMetadata ''Customer'' = Inr Customer_table"
  "findTable getMetadata ''Book'' = Inr Book_table"
  "findTable getMetadata ''Orders'' = Inr Orders_table"
  by (simp_all add: getMetadata_def Publisher_table_def Customer_table_def Book_table_def Orders_table_def
      metadataTable_new_def)

text \<open>The parsed conditions of the catalog.\<close>

definition int_cond :: "string \<Rightarrow> string \<Rightarrow> string \<Rightarrow> int \<Rightarrow> string \<Rightarrow> Condition" where
  "int_cond t a opt i s = \<lparr>cond_table = t, cond_attr = a, cond_opt = opt, cond_type = ''int'',
     cond_ival = Some i, cond_sval = s\<rparr>"

definition str_cond :: "string \<Rightarrow> string \<Rightarrow> string \<Rightarrow> Condition" where
  "str_cond t a s = \<lparr>cond_table = t, cond_attr = a, cond_opt = ''='', cond_type = ''string'',
     cond_ival = Some (- 1), cond_sval = s\<rparr>"

lemma catalog_conditions [simp]:
  "Condition_parse ''Publisher.id<104000'' = int_cond ''Publisher'' ''id'' ''<'' 104000 ''''"
  "Condition_parse ''Publisher.id>=104000'' = int_cond ''Publisher'' ''id'' ''>='' 104000 ''=104000''"
  "Condition_parse ''Publisher.nation=PRC'' = str_cond ''Publisher'' ''nation'' ''PRC''"
  "Condition_parse ''Publisher.nation=USA'' = str_cond ''Publisher'' ''nation'' ''USA''"
  "Condition_parse ''Book.id<205000'' = int_cond ''Book'' ''id'' ''<'' 205000 ''''"
  "Condition_parse ''Book.id>=205000'' = int_cond ''Book'' ''id'' ''>='' 205000 ''=205000''"
  "Condition_parse ''Book.id<210000'' = int_cond ''Book'' ''id'' ''<'' 210000 ''''"
  "Condition_parse ''Book.id>=210000'' = int_cond ''Book'' ''id'' ''>='' 210000 ''=210000''"
  "Condition_parse ''Orders.customer_id<307000'' = int_cond ''Orders'' ''customer_id'' ''<'' 307000 ''''"
  "Condition_parse ''Orders.customer_id>=307000'' = int_cond ''Orders'' ''customer_id'' ''>='' 307000 ''=307000''"
  "Condition_parse ''Orders.book_id<215000'' = int_cond ''Orders'' ''book_id'' ''<'' 215000 ''''"
  "Condition_parse ''Orders.book_id>=215000'' = int_cond ''Orders'' ''book_id'' ''>='' 215000 ''=215000''"
  by code_simp+

lemma sat_int_cond: "r t a = IntCell v \<Longrightarrow> sat_cond r (int_cond t a opt i s) \<longleftrightarrow> cmp_int opt v i"
  by (simp add: sat_cond_def int_cond_def)

lemma sat_str_cond: "r t a = StrCell v \<Longrightarrow> sat_cond r (str_cond t a s) \<longleftrightarrow> v = s"
  by (simp add: sat_cond_def str_cond_def)

lemma catalog_frags:
  "mt_frags Book_table = [hf_frag ''Book'' 1 118776 [''Book.id<205000''],
     hf_frag ''Book'' 2 118800 [''Book.id>=205000'', ''Book.id<210000''],
     hf_frag ''Book'' 3 950423 [''Book.id>=210000'']]"
  "mt_frags Orders_table = [hf_frag ''Orders'' 1 1000 [''Orders.customer_id<307000'', ''Orders.book_id<215000''],
     hf_frag ''Orders'' 2 1000 [''Orders.customer_id<307000'', ''Orders.book_id>=215000''],
     hf_frag ''Orders'' 3 184796 [''Orders.customer_id>=307000'', ''Orders.book_id<215000''],
     hf_frag ''Orders'' 4 435846 [''Orders.customer_id>=307000'', ''Orders.book_id>=215000'']]"
  "mt_frags Publisher_table = [hf_frag ''Publisher'' 1 46621 [''Publisher.id<104000'', ''Publisher.nation=PRC''],
     hf_frag ''Publisher'' 2 222 [''Publisher.id<104000'', ''Publisher.nation=USA''],
     hf_frag ''Publisher'' 3 12190 [''Publisher.id>=104000'', ''Publisher.nation=PRC''],
     hf_frag ''Publisher'' 4 444 [''Publisher.id>=104000'', ''Publisher.nation=USA'']]"
  by (simp_all add: Book_table_def Orders_table_def Publisher_table_def)

lemma frag_holds_hf: "frag_holds r (hf_frag n i sz cs) \<longleftrightarrow> (\<forall>c \<in> set cs. sat_cond r (Condition_parse c))"
  by (auto simp: frag_holds_def hf_frag_def holds_all_def)

lemma catalog_types:
  "mt_type Book_table = ''hf''" "mt_type Orders_table = ''hf''" "mt_type Publisher_table = ''hf''"
  "mt_type Customer_table = ''vf''"
  by (simp_all add: Book_table_def Orders_table_def Publisher_table_def Customer_table_def metadataTable_new_def)

lemma frag_site_hf [simp]: "frag_site (hf_frag n i sz cs) = i" "frag_hf_condition (hf_frag n i sz cs) = map Condition_parse cs"
  by (simp_all add: hf_frag_def Fragment_new_def)

text \<open>A row of the schema: the columns the fragmentation looks at have the types it expects.\<close>

definition catalog_row :: "row \<Rightarrow> bool" where
  "catalog_row r = ((\<exists>v. r ''Book'' ''id'' = IntCell v) \<and> (\<exists>v. r ''Orders'' ''customer_id'' = IntCell v) \<and>
     (\<exists>v. r ''Orders'' ''book_id'' = IntCell v) \<and> (\<exists>v. r ''Publisher'' ''id'' = IntCell v) \<and>
     (\<exists>s. r ''Publisher'' ''nation'' = StrCell s))"

lemma frags_partition:
  assumes "catalog_row r" and "t \<in> set getMetadata" and "mt_type t = ''hf''"
    and "mt_name t = ''Publisher'' \<longrightarrow> r ''Publisher'' ''nation'' \<in> {StrCell ''PRC'', StrCell ''USA''}"
  shows "\<exists>f. filter (frag_holds r) (mt_frags t) = [f]"
proof -
  from assms(1) obtain b oc ob p n where r: "r ''Book'' ''id'' = IntCell b" "r ''Orders'' ''customer_id'' = IntCell oc"
    "r ''Orders'' ''book_id'' = IntCell ob" "r ''Publisher'' ''id'' = IntCell p" "r ''Publisher'' ''nation'' = StrCell n"
    by (auto simp: catalog_row_def)
  note eval = catalog_frags frag_holds_hf sat_int_cond sat_str_cond r
  from assms(2,3) consider "t = Book_table" | "t = Orders_table" | "t = Publisher_table"
    by (auto simp: getMetadata_def catalog_types)
  then show ?thesis
  proof cases
    case 1
    then show ?thesis by (cases "b < 205000"; cases "b < 210000") (simp_all add: eval)
  next
    case 2
    then show ?thesis by (cases "oc < 307000"; cases "ob < 215000") (simp_all add: eval)
  next
    case 3
    then have "n = ''PRC'' \<or> n = ''USA''"
      using assms(4) r by (simp add: Publisher_table_def metadataTable_new_def)
    with 3 show ?thesis by (cases "p < 104000") (auto simp: eval)
  qed
qed

lemma catalog_table_names:
  "mt_name Publisher_table = ''Publisher''" "mt_name Customer_table = ''Customer''" "mt_name Book_table = ''Book''" "mt_name Orders_table = ''Orders''"
  by (simp_all add: Publisher_table_def Customer_table_def Book_table_def Orders_table_def metadataTable_new_def)

lemma frags_count:
  assumes "catalog_row r" and "t \<in> set getMetadata" and "mt_type t = ''hf''"
  shows "length (filter (frag_holds r) (mt_frags t)) =
    (if mt_name t = ''Publisher'' \<and> r ''Publisher'' ''nation'' \<notin> {StrCell ''PRC'', StrCell ''USA''} then 0 else 1)"
proof (cases "mt_name t = ''Publisher'' \<and> r ''Publisher'' ''nation'' \<notin> {StrCell ''PRC'', StrCell ''USA''}")
  case True
  obtain n where "r ''Publisher'' ''nation'' = StrCell n" using assms(1) by (auto simp: catalog_row_def)
  moreover have "t = Publisher_table" using True assms(2,3)
    by (auto simp: getMetadata_def catalog_types catalog_table_names)
  ultimately show ?thesis using True by (simp add: catalog_frags frag_holds_hf sat_str_cond)
next
  case False
  then show ?thesis using frags_partition [OF assms] by auto
qed

text \<open>The names of the catalog are distinct, so that a table is found under its name.\<close>

lemma findTable_own_name: "t \<in> set getMetadata \<Longrightarrow> findTable getMetadata (mt_name t) = Inr t"
proof -
  assume "t \<in> set getMetadata"
  then consider "t = Publisher_table" | "t = Customer_table" | "t = Book_table" | "t = Orders_table" by (auto simp: getMetadata_def)
  then show ?thesis by cases (simp_all add: catalog_table_names)
qed

section \<open>Properties\<close>

text \<open>
  C15: the horizontal fragments of the catalog partition the rows of their table, but for one gap. Every row of
  \<open>Book\<close> and of \<open>Orders\<close>, and every row of \<open>Publisher\<close> whose nation is PRC or USA, satisfies the conditions of exactly one
  fragment; a row of \<open>Publisher\<close> with another nation satisfies those of none.
\<close>
theorem catalog_partition:
  assumes "catalog_row r" and "t \<in> set getMetadata" and "mt_type t = ''hf''"
  shows "length (filter (frag_holds r) (mt_frags t)) =
    (if mt_name t = ''Publisher'' \<and> r ''Publisher'' ''nation'' \<notin> {StrCell ''PRC'', StrCell ''USA''} then 0 else 1)"
  by (rule frags_count [OF assms])

definition sample_row :: row where
  "sample_row t a = (if a = ''nation'' then StrCell ''PRC'' else IntCell 206000)"

theorem catalog_partition_witness:
  "length (filter (frag_holds sample_row) (mt_frags Book_table)) = 1 \<and>
   length (filter (frag_holds (sample_row(''Publisher'' := (\<lambda>a. if a = ''nation'' then StrCell ''UK'' else IntCell 1)))) (mt_frags Publisher_table)) = 0"
proof -
  let ?r = "sample_row(''Publisher'' := (\<lambda>a. if a = ''nation'' then StrCell ''UK'' else IntCell 1))"
  have m: "Book_table \<in> set getMetadata" "Publisher_table \<in> set getMetadata" by (simp_all add: getMetadata_def)
  have r: "catalog_row sample_row" "catalog_row ?r" by (simp_all add: catalog_row_def sample_row_def)
  show ?thesis using catalog_partition [OF r(1) m(1)] catalog_partition [OF r(2) m(2)] by (simp add: catalog_types catalog_table_names)
qed



text \<open>
  \<open>findAttr\<close> returns exactly the positions of the conditions on the given column, in
  increasing order, and the single value -1 when there is none.
\<close>
lemma findAttr_positions:
  "findAttr hf t a = [- 1] \<and> (\<forall>c \<in> set hf. \<not> (cond_table c = t \<and> cond_attr c = a)) \<or>
   findAttr hf t a \<noteq> [] \<and> sorted_wrt (<) (findAttr hf t a) \<and>
   set (findAttr hf t a) = int ` {i. i < length hf \<and> cond_table (hf ! i) = t \<and> cond_attr (hf ! i) = a}"
proof -
  let ?is = "filter (\<lambda>i. cond_table (hf ! i) = t \<and> cond_attr (hf ! i) = a) [0..<length hf]"
  have s: "sorted_wrt (<) (map int ?is)"
    by (simp add: sorted_wrt_map sorted_wrt_filter)
  have set: "set (map int ?is) = int ` {i. i < length hf \<and> cond_table (hf ! i) = t \<and> cond_attr (hf ! i) = a}"
    by auto
  show ?thesis
  proof (cases "?is = []")
    case True
    then have "\<forall>c \<in> set hf. \<not> (cond_table c = t \<and> cond_attr c = a)"
      by (fastforce simp: filter_empty_conv in_set_conv_nth)
    with True show ?thesis by (simp add: findAttr_def)
  next
    case False
    then have "findAttr hf t a = map int ?is" by (simp add: findAttr_def Let_def)
    with False s set show ?thesis by simp
  qed
qed

lemma findAttr_positions_witness:
  "set (findAttr (map Condition_parse [''Book.id>=205000'', ''Book.id<210000'']) ''Book'' ''id'') = {0, 1}"
proof -
  let ?hf = "map Condition_parse [''Book.id>=205000'', ''Book.id<210000'']"
  have "{i. i < length ?hf \<and> cond_table (?hf ! i) = ''Book'' \<and> cond_attr (?hf ! i) = ''id''} = {0, 1}"
    by (auto simp: int_cond_def less_Suc_eq)
  then show ?thesis
    using findAttr_positions [of ?hf "''Book''" "''id''"] by (auto simp: int_cond_def)
qed

end
