(* ===== verification/Sql_Destroy.thy ===== *)
theory Sql_Destroy
  imports Sql_Make
begin

text \<open>
  How the syntax tree is released, from the destructors in sql/Expr.cpp, sql/statements.cpp, sql/CreateStatement.cpp,
  sql/SQLStatement.cpp and sql/PrepareStatement.cpp. A destructor is the sequence of blocks it releases and null pointers it
  follows. blocks_Expr and its companions collect the blocks of a tree independently, intact_Expr and its companions say where
  the code may not meet a null pointer, and the destructors are shown to release exactly the blocks, and to fail exactly on
  trees that are not intact.
\<close>

section \<open>Releasing memory\<close>

text \<open>
  A destructor is the sequence of memory operations it makes: blocks it releases, and uses of a null pointer where the code
  follows a pointer without a check. \<open>delete p\<close> runs the destructor of the object and then releases its block; the
  argument of \<open>delete_ptr\<close> is the pointer with its object replaced by what the object's destructor does. In \<open>use_vec\<close>
  the loop looks into its elements before it deletes them.
\<close>

datatype 'l mem_op = Free 'l | NullAccess

definition delete_ptr :: "('l, 'l mem_op list) ptr \<Rightarrow> 'l mem_op list" where
  "delete_ptr p = (case p of Null \<Rightarrow> [] | Ptr l ops \<Rightarrow> ops @ [Free l])"

definition delete_vec :: "('l, ('l, 'l mem_op list) ptr list) ptr \<Rightarrow> 'l mem_op list" where
  "delete_vec p = (case p of Null \<Rightarrow> [] | Ptr l ps \<Rightarrow> concat (map delete_ptr ps) @ [Free l])"

definition use_ptr :: "('l, 'l mem_op list) ptr \<Rightarrow> 'l mem_op list" where
  "use_ptr p = (case p of Null \<Rightarrow> [NullAccess] | Ptr l ops \<Rightarrow> ops @ [Free l])"

definition use_vec :: "('l, ('l, 'l mem_op list) ptr list) ptr \<Rightarrow> 'l mem_op list" where
  "use_vec p = (case p of Null \<Rightarrow> [] | Ptr l ps \<Rightarrow> concat (map use_ptr ps) @ [Free l])"

definition free_cstr :: "'l cstr \<Rightarrow> 'l mem_op list" where
  "free_cstr p = (case p of Null \<Rightarrow> [] | Ptr l _ \<Rightarrow> [Free l])"

definition free_cstrs :: "'l cstrs \<Rightarrow> 'l mem_op list" where
  "free_cstrs p = (case p of Null \<Rightarrow> [] | Ptr l ps \<Rightarrow> concat (map free_cstr ps) @ [Free l])"

fun destroy_Alias :: "'l Alias \<Rightarrow> 'l mem_op list" where
  "destroy_Alias (Alias name columns) = free_cstr name @ free_cstrs columns"

fun release_LockingClause :: "'l LockingClause \<Rightarrow> 'l mem_op list" where
  "release_LockingClause (LockingClause _ _ tables) = free_cstrs tables"

primrec destroy_Expr :: "'l Expr \<Rightarrow> 'l mem_op list"
  and destroy_SelectStatement :: "'l SelectStatement \<Rightarrow> 'l mem_op list"
  and destroy_OrderDescription :: "'l OrderDescription \<Rightarrow> 'l mem_op list"
  and destroy_LimitDescription :: "'l LimitDescription \<Rightarrow> 'l mem_op list"
  and destroy_GroupByDescription :: "'l GroupByDescription \<Rightarrow> 'l mem_op list"
  and destroy_WithDescription :: "'l WithDescription \<Rightarrow> 'l mem_op list"
  and destroy_SetOperation :: "'l SetOperation \<Rightarrow> 'l mem_op list"
  and destroy_TableRef :: "'l TableRef \<Rightarrow> 'l mem_op list"
  and destroy_JoinDefinition :: "'l JoinDefinition \<Rightarrow> 'l mem_op list"
where
  "destroy_Expr (Expr _ e e2 es sel name table alias _ _ _ _ _ _ _ _) =
     delete_ptr (map_ptr destroy_Expr e) @ delete_ptr (map_ptr destroy_Expr e2) @
     delete_ptr (map_ptr destroy_SelectStatement sel) @
     free_cstr name @ free_cstr table @ free_cstr alias @
     delete_vec (map_ptr (map (map_ptr destroy_Expr)) es)"
| "destroy_SelectStatement (SelectStatement _ hnts from _ sels whr grp sets ord wths lim locks) =
     delete_ptr (map_ptr destroy_TableRef from) @ delete_ptr (map_ptr destroy_Expr whr) @
     delete_ptr (map_ptr destroy_GroupByDescription grp) @
     delete_ptr (map_ptr destroy_LimitDescription lim) @
     delete_vec (map_ptr (map (map_ptr destroy_Expr)) sels) @
     delete_vec (map_ptr (map (map_ptr destroy_OrderDescription)) ord) @
     delete_vec (map_ptr (map (map_ptr destroy_WithDescription)) wths) @
     delete_vec (map_ptr (map (map_ptr destroy_SetOperation)) sets) @
     use_vec (map_ptr (map (map_ptr release_LockingClause)) locks) @
     delete_vec (map_ptr (map (map_ptr destroy_Expr)) hnts)"
| "destroy_OrderDescription (OrderDescription _ e) = delete_ptr (map_ptr destroy_Expr e)"
| "destroy_LimitDescription (LimitDescription lim off) =
     delete_ptr (map_ptr destroy_Expr lim) @ delete_ptr (map_ptr destroy_Expr off)"
| "destroy_GroupByDescription (GroupByDescription cols hav) =
     delete_ptr (map_ptr destroy_Expr hav) @ delete_vec (map_ptr (map (map_ptr destroy_Expr)) cols)"
| "destroy_WithDescription (WithDescription alias sel) =
     free_cstr alias @ delete_ptr (map_ptr destroy_SelectStatement sel)"
| "destroy_SetOperation (SetOperation _ _ nested ord lim) =
     delete_ptr (map_ptr destroy_SelectStatement nested) @
     delete_ptr (map_ptr destroy_LimitDescription lim) @
     delete_vec (map_ptr (map (map_ptr destroy_OrderDescription)) ord)"
| "destroy_TableRef (TableRef _ schema name alias sel lst jn) =
     free_cstr schema @ free_cstr name @ delete_ptr (map_ptr destroy_SelectStatement sel) @
     delete_ptr (map_ptr destroy_JoinDefinition jn) @ delete_ptr (map_ptr destroy_Alias alias) @
     delete_vec (map_ptr (map (map_ptr destroy_TableRef)) lst)"
| "destroy_JoinDefinition (JoinDefinition left right cond _) =
     delete_ptr (map_ptr destroy_TableRef left) @ delete_ptr (map_ptr destroy_TableRef right) @
     delete_ptr (map_ptr destroy_Expr cond)"

section \<open>The blocks of a tree\<close>

text \<open>Every block reachable from an object, with multiplicity, in the order of the members.\<close>

definition own_ptr :: "('l, 'l multiset) ptr \<Rightarrow> 'l multiset" where
  "own_ptr p = (case p of Null \<Rightarrow> {#} | Ptr l M \<Rightarrow> add_mset l M)"

definition own_vec :: "('l, ('l, 'l multiset) ptr list) ptr \<Rightarrow> 'l multiset" where
  "own_vec p = own_ptr (map_ptr (\<lambda>ps. sum_list (map own_ptr ps)) p)"

definition own_cstr :: "'l cstr \<Rightarrow> 'l multiset" where
  "own_cstr p = own_ptr (map_ptr (\<lambda>_. {#}) p)"

definition own_cstrs :: "'l cstrs \<Rightarrow> 'l multiset" where
  "own_cstrs p = own_ptr (map_ptr (\<lambda>ps. sum_list (map own_cstr ps)) p)"

fun blocks_Alias :: "'l Alias \<Rightarrow> 'l multiset" where
  "blocks_Alias (Alias name columns) = own_cstr name + own_cstrs columns"

fun blocks_LockingClause :: "'l LockingClause \<Rightarrow> 'l multiset" where
  "blocks_LockingClause (LockingClause _ _ tables) = own_cstrs tables"

primrec blocks_Expr :: "'l Expr \<Rightarrow> 'l multiset"
  and blocks_SelectStatement :: "'l SelectStatement \<Rightarrow> 'l multiset"
  and blocks_OrderDescription :: "'l OrderDescription \<Rightarrow> 'l multiset"
  and blocks_LimitDescription :: "'l LimitDescription \<Rightarrow> 'l multiset"
  and blocks_GroupByDescription :: "'l GroupByDescription \<Rightarrow> 'l multiset"
  and blocks_WithDescription :: "'l WithDescription \<Rightarrow> 'l multiset"
  and blocks_SetOperation :: "'l SetOperation \<Rightarrow> 'l multiset"
  and blocks_TableRef :: "'l TableRef \<Rightarrow> 'l multiset"
  and blocks_JoinDefinition :: "'l JoinDefinition \<Rightarrow> 'l multiset"
where
  "blocks_Expr (Expr _ e e2 es sel name table alias _ _ _ _ _ _ _ _) =
     own_ptr (map_ptr blocks_Expr e) + own_ptr (map_ptr blocks_Expr e2) +
     own_vec (map_ptr (map (map_ptr blocks_Expr)) es) +
     own_ptr (map_ptr blocks_SelectStatement sel) +
     own_cstr name + own_cstr table + own_cstr alias"
| "blocks_SelectStatement (SelectStatement _ hnts from _ sels whr grp sets ord wths lim locks) =
     own_vec (map_ptr (map (map_ptr blocks_Expr)) hnts) +
     own_ptr (map_ptr blocks_TableRef from) +
     own_vec (map_ptr (map (map_ptr blocks_Expr)) sels) +
     own_ptr (map_ptr blocks_Expr whr) +
     own_ptr (map_ptr blocks_GroupByDescription grp) +
     own_vec (map_ptr (map (map_ptr blocks_SetOperation)) sets) +
     own_vec (map_ptr (map (map_ptr blocks_OrderDescription)) ord) +
     own_vec (map_ptr (map (map_ptr blocks_WithDescription)) wths) +
     own_ptr (map_ptr blocks_LimitDescription lim) +
     own_vec (map_ptr (map (map_ptr blocks_LockingClause)) locks)"
| "blocks_OrderDescription (OrderDescription _ e) = own_ptr (map_ptr blocks_Expr e)"
| "blocks_LimitDescription (LimitDescription lim off) =
     own_ptr (map_ptr blocks_Expr lim) + own_ptr (map_ptr blocks_Expr off)"
| "blocks_GroupByDescription (GroupByDescription cols hav) =
     own_vec (map_ptr (map (map_ptr blocks_Expr)) cols) + own_ptr (map_ptr blocks_Expr hav)"
| "blocks_WithDescription (WithDescription alias sel) =
     own_cstr alias + own_ptr (map_ptr blocks_SelectStatement sel)"
| "blocks_SetOperation (SetOperation _ _ nested ord lim) =
     own_ptr (map_ptr blocks_SelectStatement nested) +
     own_vec (map_ptr (map (map_ptr blocks_OrderDescription)) ord) +
     own_ptr (map_ptr blocks_LimitDescription lim)"
| "blocks_TableRef (TableRef _ schema name alias sel lst jn) =
     own_cstr schema + own_cstr name + own_ptr (map_ptr blocks_Alias alias) +
     own_ptr (map_ptr blocks_SelectStatement sel) +
     own_vec (map_ptr (map (map_ptr blocks_TableRef)) lst) +
     own_ptr (map_ptr blocks_JoinDefinition jn)"
| "blocks_JoinDefinition (JoinDefinition left right cond _) =
     own_ptr (map_ptr blocks_TableRef left) + own_ptr (map_ptr blocks_TableRef right) +
     own_ptr (map_ptr blocks_Expr cond)"

section \<open>Destructors release exactly the blocks of the tree\<close>

fun released :: "'l mem_op list \<Rightarrow> 'l list" where
  "released [] = []"
| "released (Free l # ops) = l # released ops"
| "released (NullAccess # ops) = released ops"

lemma released_append [simp]: "released (xs @ ys) = released xs @ released ys"
  by (induction xs rule: released.induct) simp_all

lemma released_concat: "released (concat xss) = concat (map released xss)"
  by (induction xss) simp_all

lemma mset_delete_ptr:
  assumes "\<And>x. x \<in> set_ptr p \<Longrightarrow> mset (released (d x)) = b x"
  shows "mset (released (delete_ptr (map_ptr d p))) = own_ptr (map_ptr b p)"
    and "mset (released (use_ptr (map_ptr d p))) = own_ptr (map_ptr b p)"
  using assms by (cases p; auto simp: delete_ptr_def use_ptr_def own_ptr_def)+

lemma mset_delete_ptrs:
  assumes "\<And>p x. p \<in> set ps \<Longrightarrow> x \<in> set_ptr p \<Longrightarrow> mset (released (d x)) = b x"
  shows "mset (released (concat (map delete_ptr (map (map_ptr d) ps)))) = sum_list (map own_ptr (map (map_ptr b) ps))"
    and "mset (released (concat (map use_ptr (map (map_ptr d) ps)))) = sum_list (map own_ptr (map (map_ptr b) ps))"
proof -
  have "mset (released (concat (map delete_ptr (map (map_ptr d) ps)))) = sum_list (map own_ptr (map (map_ptr b) ps)) \<and>
    mset (released (concat (map use_ptr (map (map_ptr d) ps)))) = sum_list (map own_ptr (map (map_ptr b) ps))"
    using assms
  proof (induction ps)
    case (Cons p ps)
    have "mset (released (delete_ptr (map_ptr d p))) = own_ptr (map_ptr b p)" by (rule mset_delete_ptr) (auto intro: Cons.prems)
    moreover have "mset (released (use_ptr (map_ptr d p))) = own_ptr (map_ptr b p)" by (rule mset_delete_ptr) (auto intro: Cons.prems)
    moreover have "mset (released (concat (map delete_ptr (map (map_ptr d) ps)))) = sum_list (map own_ptr (map (map_ptr b) ps)) \<and>
        mset (released (concat (map use_ptr (map (map_ptr d) ps)))) = sum_list (map own_ptr (map (map_ptr b) ps))"
      by (rule Cons.IH) (auto intro: Cons.prems)
    ultimately show ?case by (simp del: mset_concat)
  qed simp
  then show "mset (released (concat (map delete_ptr (map (map_ptr d) ps)))) = sum_list (map own_ptr (map (map_ptr b) ps))"
    and "mset (released (concat (map use_ptr (map (map_ptr d) ps)))) = sum_list (map own_ptr (map (map_ptr b) ps))" by blast+
qed

lemma mset_delete_vec:
  assumes "\<And>ps p x. ps \<in> set_ptr v \<Longrightarrow> p \<in> set ps \<Longrightarrow> x \<in> set_ptr p \<Longrightarrow> mset (released (d x)) = b x"
  shows "mset (released (delete_vec (map_ptr (map (map_ptr d)) v))) = own_vec (map_ptr (map (map_ptr b)) v)"
    and "mset (released (use_vec (map_ptr (map (map_ptr d)) v))) = own_vec (map_ptr (map (map_ptr b)) v)"
proof -
  have "\<And>l ps p x. v = Ptr l ps \<Longrightarrow> p \<in> set ps \<Longrightarrow> x \<in> set_ptr p \<Longrightarrow> mset (released (d x)) = b x" using assms by auto
  then show "mset (released (delete_vec (map_ptr (map (map_ptr d)) v))) = own_vec (map_ptr (map (map_ptr b)) v)"
    and "mset (released (use_vec (map_ptr (map (map_ptr d)) v))) = own_vec (map_ptr (map (map_ptr b)) v)"
    by (cases v; simp add: delete_vec_def use_vec_def own_vec_def own_ptr_def mset_delete_ptrs del: map_map mset_concat)+
qed

lemma mset_free_cstr: "mset (released (free_cstr p)) = own_cstr p"
  by (cases p) (simp_all add: free_cstr_def own_cstr_def own_ptr_def)

lemma mset_free_cstrs: "mset (released (free_cstrs p)) = own_cstrs p"
proof (cases p)
  case (Ptr l ps)
  have "mset (released (concat (map free_cstr ps))) = sum_list (map own_cstr ps)"
    by (induction ps) (simp_all add: mset_free_cstr)
  with Ptr show ?thesis by (simp add: free_cstrs_def own_cstrs_def own_ptr_def)
qed (simp add: free_cstrs_def own_cstrs_def own_ptr_def)

lemma mset_destroy_Alias: "mset (released (destroy_Alias a)) = blocks_Alias a"
  by (cases a) (simp add: mset_free_cstr mset_free_cstrs)

lemma mset_release_LockingClause: "mset (released (release_LockingClause c)) = blocks_LockingClause c"
  by (cases c) (simp add: mset_free_cstrs)

lemma destroy_blocks:
  fixes e :: "'l Expr" and s :: "'l SelectStatement" and od :: "'l OrderDescription" and ld :: "'l LimitDescription"
    and gb :: "'l GroupByDescription" and wd :: "'l WithDescription" and so :: "'l SetOperation"
    and tr :: "'l TableRef" and jd :: "'l JoinDefinition"
  shows "mset (released (destroy_Expr e)) = blocks_Expr e"
    and "mset (released (destroy_SelectStatement s)) = blocks_SelectStatement s"
    and "mset (released (destroy_OrderDescription od)) = blocks_OrderDescription od"
    and "mset (released (destroy_LimitDescription ld)) = blocks_LimitDescription ld"
    and "mset (released (destroy_GroupByDescription gb)) = blocks_GroupByDescription gb"
    and "mset (released (destroy_WithDescription wd)) = blocks_WithDescription wd"
    and "mset (released (destroy_SetOperation so)) = blocks_SetOperation so"
    and "mset (released (destroy_TableRef tr)) = blocks_TableRef tr"
    and "mset (released (destroy_JoinDefinition jd)) = blocks_JoinDefinition jd"
proof (induction e and s and od and ld and gb and wd and so and tr and jd rule: ast_induct)
qed (simp_all add: mset_delete_ptr mset_delete_vec mset_free_cstr mset_destroy_Alias
      mset_release_LockingClause union_ac)

section \<open>Trees a destructor can be run on\<close>

text \<open>
  The destructor of a query looks into the elements of \<open>lockings\<close> without a check. A tree is intact when no query in it has
  a null pointer there.
\<close>

definition all_ptr :: "('l, bool) ptr \<Rightarrow> bool" where
  "all_ptr p = (case p of Null \<Rightarrow> True | Ptr _ b \<Rightarrow> b)"

definition all_vec :: "('l, ('l, bool) ptr list) ptr \<Rightarrow> bool" where
  "all_vec v = (case v of Null \<Rightarrow> True | Ptr _ ps \<Rightarrow> list_all all_ptr ps)"

definition no_nulls :: "('l, 'a) pvec \<Rightarrow> bool" where
  "no_nulls v = (case v of Null \<Rightarrow> True | Ptr _ ps \<Rightarrow> Null \<notin> set ps)"

primrec intact_Expr :: "'l Expr \<Rightarrow> bool"
  and intact_SelectStatement :: "'l SelectStatement \<Rightarrow> bool"
  and intact_OrderDescription :: "'l OrderDescription \<Rightarrow> bool"
  and intact_LimitDescription :: "'l LimitDescription \<Rightarrow> bool"
  and intact_GroupByDescription :: "'l GroupByDescription \<Rightarrow> bool"
  and intact_WithDescription :: "'l WithDescription \<Rightarrow> bool"
  and intact_SetOperation :: "'l SetOperation \<Rightarrow> bool"
  and intact_TableRef :: "'l TableRef \<Rightarrow> bool"
  and intact_JoinDefinition :: "'l JoinDefinition \<Rightarrow> bool"
where
  "intact_Expr (Expr _ e e2 es sel _ _ _ _ _ _ _ _ _ _ _) =
     (all_ptr (map_ptr intact_Expr e) \<and> all_ptr (map_ptr intact_Expr e2) \<and> all_vec (map_ptr (map (map_ptr intact_Expr)) es) \<and>
      all_ptr (map_ptr intact_SelectStatement sel))"
| "intact_SelectStatement (SelectStatement _ hnts from _ sels whr grp sets ord wths lim locks) =
     (no_nulls locks \<and> all_vec (map_ptr (map (map_ptr intact_Expr)) hnts) \<and> all_ptr (map_ptr intact_TableRef from) \<and>
      all_vec (map_ptr (map (map_ptr intact_Expr)) sels) \<and> all_ptr (map_ptr intact_Expr whr) \<and>
      all_ptr (map_ptr intact_GroupByDescription grp) \<and> all_vec (map_ptr (map (map_ptr intact_SetOperation)) sets) \<and>
      all_vec (map_ptr (map (map_ptr intact_OrderDescription)) ord) \<and>
      all_vec (map_ptr (map (map_ptr intact_WithDescription)) wths) \<and> all_ptr (map_ptr intact_LimitDescription lim))"
| "intact_OrderDescription (OrderDescription _ e) = all_ptr (map_ptr intact_Expr e)"
| "intact_LimitDescription (LimitDescription lim off) = (all_ptr (map_ptr intact_Expr lim) \<and> all_ptr (map_ptr intact_Expr off))"
| "intact_GroupByDescription (GroupByDescription cols hav) =
     (all_vec (map_ptr (map (map_ptr intact_Expr)) cols) \<and> all_ptr (map_ptr intact_Expr hav))"
| "intact_WithDescription (WithDescription _ sel) = all_ptr (map_ptr intact_SelectStatement sel)"
| "intact_SetOperation (SetOperation _ _ nested ord lim) =
     (all_ptr (map_ptr intact_SelectStatement nested) \<and> all_vec (map_ptr (map (map_ptr intact_OrderDescription)) ord) \<and>
      all_ptr (map_ptr intact_LimitDescription lim))"
| "intact_TableRef (TableRef _ _ _ _ sel lst jn) =
     (all_ptr (map_ptr intact_SelectStatement sel) \<and> all_vec (map_ptr (map (map_ptr intact_TableRef)) lst) \<and>
      all_ptr (map_ptr intact_JoinDefinition jn))"
| "intact_JoinDefinition (JoinDefinition left right cond _) =
     (all_ptr (map_ptr intact_TableRef left) \<and> all_ptr (map_ptr intact_TableRef right) \<and> all_ptr (map_ptr intact_Expr cond))"

definition null_free :: "'l mem_op list \<Rightarrow> bool" where
  "null_free ops = (NullAccess \<notin> set ops)"

lemma null_free_simps [simp]:
  "null_free []" "null_free (Free l # ops) = null_free ops" "\<not> null_free (NullAccess # ops)"
  "null_free (xs @ ys) \<longleftrightarrow> null_free xs \<and> null_free ys"
  by (simp_all add: null_free_def)

lemma null_free_concat: "null_free (concat xss) \<longleftrightarrow> list_all null_free xss"
  by (induction xss) simp_all

lemma null_free_delete_ptr:
  assumes "\<And>x. x \<in> set_ptr p \<Longrightarrow> null_free (d x) \<longleftrightarrow> q x"
  shows "null_free (delete_ptr (map_ptr d p)) \<longleftrightarrow> all_ptr (map_ptr q p)"
    and "null_free (use_ptr (map_ptr d p)) \<longleftrightarrow> p \<noteq> Null \<and> all_ptr (map_ptr q p)"
  using assms by (cases p; auto simp: delete_ptr_def use_ptr_def all_ptr_def)+

lemma null_free_delete_vec:
  assumes "\<And>ps p x. ps \<in> set_ptr v \<Longrightarrow> p \<in> set ps \<Longrightarrow> x \<in> set_ptr p \<Longrightarrow> null_free (d x) \<longleftrightarrow> q x"
  shows "null_free (delete_vec (map_ptr (map (map_ptr d)) v)) \<longleftrightarrow> all_vec (map_ptr (map (map_ptr q)) v)"
    and "null_free (use_vec (map_ptr (map (map_ptr d)) v)) \<longleftrightarrow> no_nulls v \<and> all_vec (map_ptr (map (map_ptr q)) v)"
proof -
  have e: "null_free (delete_ptr (map_ptr d p)) \<longleftrightarrow> all_ptr (map_ptr q p)"
    "null_free (use_ptr (map_ptr d p)) \<longleftrightarrow> p \<noteq> Null \<and> all_ptr (map_ptr q p)" if "v = Ptr l ps" "p \<in> set ps" for l ps p
    using assms that by (intro null_free_delete_ptr; auto)+
  then show "null_free (delete_vec (map_ptr (map (map_ptr d)) v)) \<longleftrightarrow> all_vec (map_ptr (map (map_ptr q)) v)"
    and "null_free (use_vec (map_ptr (map (map_ptr d)) v)) \<longleftrightarrow> no_nulls v \<and> all_vec (map_ptr (map (map_ptr q)) v)"
    by (cases v; auto simp: delete_vec_def use_vec_def all_vec_def no_nulls_def null_free_concat list_all_iff)+
qed

lemma null_free_strings: "null_free (free_cstr p)" "null_free (free_cstrs ps)"
proof -
  show s: "null_free (free_cstr p)" for p by (cases p) (simp_all add: free_cstr_def)
  show "null_free (free_cstrs ps)" by (cases ps) (simp_all add: free_cstrs_def null_free_concat list_all_iff s)
qed

lemma null_free_plain: "null_free (destroy_Alias a)" "null_free (release_LockingClause c)"
  by (cases a, simp add: null_free_strings) (cases c, simp add: null_free_strings)

lemma all_ptr_True: "all_ptr (map_ptr (\<lambda>_. True) p)" "all_vec (map_ptr (map (map_ptr (\<lambda>_. True))) v)"
proof -
  show p: "all_ptr (map_ptr (\<lambda>_. True) p)" for p by (cases p) (simp_all add: all_ptr_def)
  show "all_vec (map_ptr (map (map_ptr (\<lambda>_. True))) v)" by (cases v) (simp_all add: all_vec_def list_all_iff p)
qed

lemma null_free_destroy:
  fixes e :: "'l Expr" and s :: "'l SelectStatement" and od :: "'l OrderDescription" and ld :: "'l LimitDescription"
    and gb :: "'l GroupByDescription" and wd :: "'l WithDescription" and so :: "'l SetOperation"
    and tr :: "'l TableRef" and jd :: "'l JoinDefinition"
  shows "null_free (destroy_Expr e) \<longleftrightarrow> intact_Expr e"
    and "null_free (destroy_SelectStatement s) \<longleftrightarrow> intact_SelectStatement s"
    and "null_free (destroy_OrderDescription od) \<longleftrightarrow> intact_OrderDescription od"
    and "null_free (destroy_LimitDescription ld) \<longleftrightarrow> intact_LimitDescription ld"
    and "null_free (destroy_GroupByDescription gb) \<longleftrightarrow> intact_GroupByDescription gb"
    and "null_free (destroy_WithDescription wd) \<longleftrightarrow> intact_WithDescription wd"
    and "null_free (destroy_SetOperation so) \<longleftrightarrow> intact_SetOperation so"
    and "null_free (destroy_TableRef tr) \<longleftrightarrow> intact_TableRef tr"
    and "null_free (destroy_JoinDefinition jd) \<longleftrightarrow> intact_JoinDefinition jd"
proof (induction e and s and od and ld and gb and wd and so and tr and jd rule: ast_induct)
qed (auto simp: null_free_delete_ptr null_free_delete_vec null_free_strings null_free_plain all_ptr_True
      null_free_delete_ptr(1) [where q = "\<lambda>_. True"] null_free_delete_vec(2) [where q = "\<lambda>_. True"])

section \<open>Statements\<close>

text \<open>The base destructor runs after the body of the derived one.\<close>

definition destroy_SQLStatement :: "('l, 'm) SQLStatement_scheme \<Rightarrow> 'l mem_op list" where
  "destroy_SQLStatement s = delete_vec (map_ptr (map (map_ptr destroy_Expr)) (hints s))"

definition destroy_ImportStatement :: "'l ImportStatement \<Rightarrow> 'l mem_op list" where
  "destroy_ImportStatement s = free_cstr (imp_filePath s) @ free_cstr (imp_schema s) @
     free_cstr (imp_tableName s) @ destroy_SQLStatement s"

definition destroy_ExportStatement :: "'l ExportStatement \<Rightarrow> 'l mem_op list" where
  "destroy_ExportStatement s = free_cstr (exp_filePath s) @ free_cstr (exp_schema s) @
     free_cstr (exp_tableName s) @ destroy_SQLStatement s"

definition destroy_InsertStatement :: "'l InsertStatement \<Rightarrow> 'l mem_op list" where
  "destroy_InsertStatement s = free_cstr (ins_schema s) @ free_cstr (ins_tableName s) @
     delete_ptr (map_ptr destroy_SelectStatement (ins_select s)) @ free_cstrs (ins_columns s) @
     delete_vec (map_ptr (map (map_ptr destroy_Expr)) (ins_values s)) @ destroy_SQLStatement s"

definition release_UpdateClause :: "'l UpdateClause \<Rightarrow> 'l mem_op list" where
  "release_UpdateClause u = free_cstr (uc_column u) @ delete_ptr (map_ptr destroy_Expr (uc_value u))"

definition destroy_UpdateStatement :: "'l UpdateStatement \<Rightarrow> 'l mem_op list" where
  "destroy_UpdateStatement s = delete_ptr (map_ptr destroy_TableRef (upd_table s)) @
     delete_ptr (map_ptr destroy_Expr (upd_where s)) @
     use_vec (map_ptr (map (map_ptr release_UpdateClause)) (upd_updates s)) @ destroy_SQLStatement s"

definition destroy_DeleteStatement :: "'l DeleteStatement \<Rightarrow> 'l mem_op list" where
  "destroy_DeleteStatement s = free_cstr (del_schema s) @ free_cstr (del_tableName s) @
     delete_ptr (map_ptr destroy_Expr (del_expr s)) @ destroy_SQLStatement s"

definition destroy_DropStatement :: "'l DropStatement \<Rightarrow> 'l mem_op list" where
  "destroy_DropStatement s = free_cstr (drop_schema s) @ free_cstr (drop_name s) @
     free_cstr (drop_indexName s) @ destroy_SQLStatement s"

definition destroy_PrepareStatement :: "'l PrepareStatement \<Rightarrow> 'l mem_op list" where
  "destroy_PrepareStatement s = free_cstr (prep_name s) @ free_cstr (prep_query s) @ destroy_SQLStatement s"

definition destroy_ExecuteStatement :: "'l ExecuteStatement \<Rightarrow> 'l mem_op list" where
  "destroy_ExecuteStatement s = free_cstr (exec_name s) @
     delete_vec (map_ptr (map (map_ptr destroy_Expr)) (exec_parameters s)) @ destroy_SQLStatement s"

definition destroy_DropColumnAction :: "'l DropColumnAction \<Rightarrow> 'l mem_op list" where
  "destroy_DropColumnAction a = free_cstr (dca_columnName a)"

definition destroy_AlterStatement :: "'l AlterStatement \<Rightarrow> 'l mem_op list" where
  "destroy_AlterStatement s = free_cstr (alt_schema s) @ free_cstr (alt_name s) @
     delete_ptr (map_ptr destroy_DropColumnAction (alt_action s)) @ destroy_SQLStatement s"

definition destroy_ShowStatement :: "'l ShowStatement \<Rightarrow> 'l mem_op list" where
  "destroy_ShowStatement s = free_cstr (show_schema s) @ free_cstr (show_name s) @ destroy_SQLStatement s"

definition destroy_TransactionStatement :: "'l TransactionStatement \<Rightarrow> 'l mem_op list" where
  "destroy_TransactionStatement s = destroy_SQLStatement s"

definition destroy_ColumnDefinition :: "'l ColumnDefinition \<Rightarrow> 'l mem_op list" where
  "destroy_ColumnDefinition c = free_cstr (cd_name c) @ delete_ptr (map_ptr (\<lambda>_. []) (cd_column_constraints c))"

text \<open>This destructor iterates over its vector without a null check.\<close>

definition destroy_TableConstraint :: "'l TableConstraint \<Rightarrow> 'l mem_op list" where
  "destroy_TableConstraint c = (if tc_columnNames c = Null then [NullAccess] else free_cstrs (tc_columnNames c))"

definition destroy_CreateStatement :: "'l CreateStatement \<Rightarrow> 'l mem_op list" where
  "destroy_CreateStatement s =
     free_cstr (cre_filePath s) @ free_cstr (cre_schema s) @ free_cstr (cre_tableName s) @
     free_cstr (cre_indexName s) @ delete_ptr (map_ptr destroy_SelectStatement (cre_select s)) @
     delete_vec (map_ptr (map (map_ptr destroy_ColumnDefinition)) (cre_columns s)) @
     delete_vec (map_ptr (map (map_ptr destroy_TableConstraint)) (cre_tableConstraints s)) @
     free_cstrs (cre_indexColumns s) @ free_cstrs (cre_viewColumns s) @ destroy_SQLStatement s"

text \<open>The virtual destructor of a statement.\<close>

fun destroy_Statement :: "'l Statement \<Rightarrow> 'l mem_op list" where
  "destroy_Statement (SelectStmt s) = destroy_SelectStatement s"
| "destroy_Statement (ImportStmt s) = destroy_ImportStatement s"
| "destroy_Statement (InsertStmt s) = destroy_InsertStatement s"
| "destroy_Statement (UpdateStmt s) = destroy_UpdateStatement s"
| "destroy_Statement (DeleteStmt s) = destroy_DeleteStatement s"
| "destroy_Statement (CreateStmt s) = destroy_CreateStatement s"
| "destroy_Statement (DropStmt s) = destroy_DropStatement s"
| "destroy_Statement (PrepareStmt s) = destroy_PrepareStatement s"
| "destroy_Statement (ExecuteStmt s) = destroy_ExecuteStatement s"
| "destroy_Statement (ExportStmt s) = destroy_ExportStatement s"
| "destroy_Statement (AlterStmt s) = destroy_AlterStatement s"
| "destroy_Statement (ShowStmt s) = destroy_ShowStatement s"
| "destroy_Statement (TransactionStmt s) = destroy_TransactionStatement s"

section \<open>The blocks of a statement\<close>

definition own_expr :: "('l, 'l Expr) ptr \<Rightarrow> 'l multiset" where
  "own_expr p = own_ptr (map_ptr blocks_Expr p)"

definition own_exprs :: "('l, 'l Expr) pvec \<Rightarrow> 'l multiset" where
  "own_exprs v = own_vec (map_ptr (map (map_ptr blocks_Expr)) v)"

definition own_select :: "('l, 'l SelectStatement) ptr \<Rightarrow> 'l multiset" where
  "own_select p = own_ptr (map_ptr blocks_SelectStatement p)"

fun blocks_Statement :: "'l Statement \<Rightarrow> 'l multiset" where
  "blocks_Statement (SelectStmt s) = blocks_SelectStatement s"
| "blocks_Statement (ImportStmt s) = own_exprs (hints s) + own_cstr (imp_filePath s) +
     own_cstr (imp_schema s) + own_cstr (imp_tableName s)"
| "blocks_Statement (InsertStmt s) = own_exprs (hints s) + own_cstr (ins_schema s) +
     own_cstr (ins_tableName s) + own_cstrs (ins_columns s) + own_exprs (ins_values s) + own_select (ins_select s)"
| "blocks_Statement (UpdateStmt s) = own_exprs (hints s) + own_ptr (map_ptr blocks_TableRef (upd_table s)) +
     own_vec (map_ptr (map (map_ptr (\<lambda>u. own_cstr (uc_column u) + own_expr (uc_value u)))) (upd_updates s)) +
     own_expr (upd_where s)"
| "blocks_Statement (DeleteStmt s) = own_exprs (hints s) + own_cstr (del_schema s) +
     own_cstr (del_tableName s) + own_expr (del_expr s)"
| "blocks_Statement (CreateStmt s) = own_exprs (hints s) + own_cstr (cre_filePath s) +
     own_cstr (cre_schema s) + own_cstr (cre_tableName s) + own_cstr (cre_indexName s) +
     own_cstrs (cre_indexColumns s) +
     own_vec (map_ptr (map (map_ptr (\<lambda>c. own_ptr (map_ptr (\<lambda>_. {#}) (cd_column_constraints c)) +
       own_cstr (cd_name c)))) (cre_columns s)) +
     own_vec (map_ptr (map (map_ptr (\<lambda>c. own_cstrs (tc_columnNames c)))) (cre_tableConstraints s)) +
     own_cstrs (cre_viewColumns s) + own_select (cre_select s)"
| "blocks_Statement (DropStmt s) = own_exprs (hints s) + own_cstr (drop_schema s) +
     own_cstr (drop_name s) + own_cstr (drop_indexName s)"
| "blocks_Statement (PrepareStmt s) = own_exprs (hints s) + own_cstr (prep_name s) + own_cstr (prep_query s)"
| "blocks_Statement (ExecuteStmt s) = own_exprs (hints s) + own_cstr (exec_name s) + own_exprs (exec_parameters s)"
| "blocks_Statement (ExportStmt s) = own_exprs (hints s) + own_cstr (exp_filePath s) +
     own_cstr (exp_schema s) + own_cstr (exp_tableName s)"
| "blocks_Statement (AlterStmt s) = own_exprs (hints s) + own_cstr (alt_schema s) + own_cstr (alt_name s) +
     own_ptr (map_ptr (\<lambda>a. own_cstr (dca_columnName a)) (alt_action s))"
| "blocks_Statement (ShowStmt s) = own_exprs (hints s) + own_cstr (show_schema s) + own_cstr (show_name s)"
| "blocks_Statement (TransactionStmt s) = own_exprs (hints s)"

text \<open>
  What the destructor of a statement relies on: an intact tree, an UPDATE without null pointers among its clauses, and table
  constraints with their column vectors.
\<close>

definition intact_exprs :: "('l, 'l Expr) pvec \<Rightarrow> bool" where
  "intact_exprs v = all_vec (map_ptr (map (map_ptr intact_Expr)) v)"

definition intact_expr :: "('l, 'l Expr) ptr \<Rightarrow> bool" where
  "intact_expr p = all_ptr (map_ptr intact_Expr p)"

definition intact_select :: "('l, 'l SelectStatement) ptr \<Rightarrow> bool" where
  "intact_select p = all_ptr (map_ptr intact_SelectStatement p)"

fun intact_Statement :: "'l Statement \<Rightarrow> bool" where
  "intact_Statement (SelectStmt s) = intact_SelectStatement s"
| "intact_Statement (ImportStmt s) = intact_exprs (hints s)"
| "intact_Statement (InsertStmt s) = (intact_exprs (hints s) \<and> intact_select (ins_select s) \<and> intact_exprs (ins_values s))"
| "intact_Statement (UpdateStmt s) = (intact_exprs (hints s) \<and> all_ptr (map_ptr intact_TableRef (upd_table s)) \<and>
     intact_expr (upd_where s) \<and> no_nulls (upd_updates s) \<and>
     all_vec (map_ptr (map (map_ptr (\<lambda>u. intact_expr (uc_value u)))) (upd_updates s)))"
| "intact_Statement (DeleteStmt s) = (intact_exprs (hints s) \<and> intact_expr (del_expr s))"
| "intact_Statement (CreateStmt s) = (intact_exprs (hints s) \<and> intact_select (cre_select s) \<and>
     all_vec (map_ptr (map (map_ptr (\<lambda>c. tc_columnNames c \<noteq> Null))) (cre_tableConstraints s)))"
| "intact_Statement (DropStmt s) = intact_exprs (hints s)"
| "intact_Statement (PrepareStmt s) = intact_exprs (hints s)"
| "intact_Statement (ExecuteStmt s) = (intact_exprs (hints s) \<and> intact_exprs (exec_parameters s))"
| "intact_Statement (ExportStmt s) = intact_exprs (hints s)"
| "intact_Statement (AlterStmt s) = intact_exprs (hints s)"
| "intact_Statement (ShowStmt s) = intact_exprs (hints s)"
| "intact_Statement (TransactionStmt s) = intact_exprs (hints s)"

lemmas destroy_defs = destroy_SQLStatement_def destroy_ImportStatement_def destroy_ExportStatement_def destroy_InsertStatement_def
  destroy_UpdateStatement_def destroy_DeleteStatement_def destroy_DropStatement_def destroy_PrepareStatement_def
  destroy_ExecuteStatement_def destroy_AlterStatement_def destroy_ShowStatement_def destroy_TransactionStatement_def
  destroy_CreateStatement_def

lemma mset_parts:
  "mset (released (release_UpdateClause u)) = own_cstr (uc_column u) + own_expr (uc_value u)"
  "mset (released (destroy_DropColumnAction a)) = own_cstr (dca_columnName a)"
  "mset (released (destroy_ColumnDefinition c)) = own_ptr (map_ptr (\<lambda>_. {#}) (cd_column_constraints c)) + own_cstr (cd_name c)"
  "mset (released (destroy_TableConstraint k)) = own_cstrs (tc_columnNames k)"
  by (simp_all add: release_UpdateClause_def destroy_DropColumnAction_def destroy_ColumnDefinition_def destroy_TableConstraint_def
      mset_free_cstr mset_free_cstrs mset_delete_ptr destroy_blocks own_expr_def own_cstrs_def own_ptr_def union_ac)

lemma mset_destroy_Statement: "mset (released (destroy_Statement s)) = blocks_Statement s"
  by (cases s) (simp_all add: destroy_defs mset_delete_ptr mset_delete_vec mset_free_cstr mset_free_cstrs mset_parts
      destroy_blocks own_expr_def own_exprs_def own_select_def union_ac)

lemma null_free_parts:
  "null_free (release_UpdateClause u) \<longleftrightarrow> intact_expr (uc_value u)"
  "null_free (destroy_DropColumnAction a)"
  "null_free (destroy_ColumnDefinition c)"
  "null_free (destroy_TableConstraint k) \<longleftrightarrow> tc_columnNames k \<noteq> Null"
  by (simp_all add: release_UpdateClause_def destroy_DropColumnAction_def destroy_ColumnDefinition_def destroy_TableConstraint_def
      null_free_strings null_free_delete_ptr null_free_destroy intact_expr_def null_free_delete_ptr(1) [where q = "\<lambda>_. True"] all_ptr_True)

lemma null_free_destroy_Statement: "null_free (destroy_Statement s) \<longleftrightarrow> intact_Statement s"
  by (cases s) (auto simp: destroy_defs null_free_delete_ptr null_free_delete_vec null_free_strings null_free_parts null_free_destroy
      null_free_delete_ptr(1) [where q = "\<lambda>_. True"] null_free_delete_vec(1) [where q = "\<lambda>_. True"] all_ptr_True
      intact_expr_def intact_exprs_def intact_select_def)

section \<open>Running a destructor against the heap\<close>

text \<open>
  The heap is the set of allocated blocks; releasing a block that is not allocated is the
  undefined behaviour of a double free, and following a null pointer is undefined too.
\<close>

fun free_all :: "'l mem_op list \<Rightarrow> 'l set \<Rightarrow> 'l set res" where
  "free_all [] H = Inr H"
| "free_all (Free l # ops) H = (if l \<in> H then free_all ops (H - {l}) else Inl DoubleFree)"
| "free_all (NullAccess # ops) H = Inl NullDeref"

definition uniquely_owned :: "'l multiset \<Rightarrow> bool" where
  "uniquely_owned M = (\<forall>l \<in># M. count M l = 1)"

lemma uniquely_owned_mset: "uniquely_owned (mset ls) \<longleftrightarrow> distinct ls"
  by (auto simp: uniquely_owned_def distinct_count_atmost_1 count_eq_zero_iff)

lemma free_all_distinct:
  assumes "distinct (released ops)" and "set (released ops) \<subseteq> H"
  shows "free_all ops H = (if null_free ops then Inr (H - set (released ops)) else Inl NullDeref)"
  using assms
proof (induction ops H rule: free_all.induct)
  case (2 l ops H)
  have "free_all ops (H - {l}) = (if null_free ops then Inr (H - {l} - set (released ops)) else Inl NullDeref)"
    using 2(2,3) by (intro 2(1)) auto
  moreover have "H - {l} - set (released ops) = H - set (released (Free l # ops))" by auto
  ultimately show ?case using 2(3) by simp
qed simp_all

lemma free_all_owned:
  assumes "mset (released ops) = M" and "uniquely_owned M" and "set_mset M \<subseteq> H"
  shows "free_all ops H = (if null_free ops then Inr (H - set_mset M) else Inl NullDeref)"
proof -
  from assms(1) have "set (released ops) = set_mset M" by (metis set_mset_mset)
  with assms free_all_distinct [of ops H] show ?thesis by (simp add: uniquely_owned_mset [symmetric])
qed

text \<open>The contract of a destructor: it releases exactly the blocks of its object, and follows null pointers only if it is not intact.\<close>

locale destructor =
  fixes destroy :: "'a \<Rightarrow> 'l mem_op list" and blocks :: "'a \<Rightarrow> 'l multiset" and intact :: "'a \<Rightarrow> bool"
  assumes exact: "mset (released (destroy x)) = blocks x" and safe: "null_free (destroy x) \<longleftrightarrow> intact x"
begin

lemma delete_outcome:
  assumes "uniquely_owned (blocks x)" and "set_mset (blocks x) \<subseteq> H"
  shows "free_all (destroy x) H = (if intact x then Inr (H - set_mset (blocks x)) else Inl NullDeref)"
  using free_all_owned [OF exact assms] by (simp add: safe)

lemma delete_twice:
  assumes "uniquely_owned (blocks x)" and "set_mset (blocks x) \<subseteq> H" and "blocks x \<noteq> {#}" and "intact x"
  shows "rbind (free_all (destroy x) H) (free_all (destroy x)) = Inl DoubleFree"
proof -
  from assms(4) have nf: "null_free (destroy x)" by (simp add: safe)
  have "destroy x \<noteq> []" using assms(3) exact [of x] by auto
  with nf obtain l ops where d: "destroy x = Free l # ops" by (cases "destroy x" rule: released.cases) auto
  then have "l \<in># blocks x" using exact [of x, symmetric] by simp
  then show ?thesis using delete_outcome [OF assms(1,2)] assms(4) d by simp
qed

end

interpretation d_expr: destructor destroy_Expr blocks_Expr intact_Expr
  by unfold_locales (rule destroy_blocks null_free_destroy)+


interpretation d_tableref: destructor destroy_TableRef blocks_TableRef intact_TableRef
  by unfold_locales (rule destroy_blocks null_free_destroy)+

interpretation d_join: destructor destroy_JoinDefinition blocks_JoinDefinition intact_JoinDefinition
  by unfold_locales (rule destroy_blocks null_free_destroy)+

interpretation d_setop: destructor destroy_SetOperation blocks_SetOperation intact_SetOperation
  by unfold_locales (rule destroy_blocks null_free_destroy)+

interpretation d_statement: destructor destroy_Statement blocks_Statement intact_Statement
  by unfold_locales (rule mset_destroy_Statement null_free_destroy_Statement)+

section \<open>Properties\<close>





text \<open>
  C18: the same for every kind of statement, through the virtual destructor. It returns and releases each block of the statement
  exactly once if the statement is intact: no null pointer among locking clauses or the clauses of an UPDATE, and no table
  constraint without its column vector. Otherwise it follows a null pointer.
\<close>
theorem delete_Statement_exact:
  assumes "uniquely_owned (blocks_Statement s)" and "set_mset (blocks_Statement s) \<subseteq> H"
  shows "free_all (destroy_Statement s) H = (if intact_Statement s then Inr (H - set_mset (blocks_Statement s)) else Inl NullDeref)"
  by (rule d_statement.delete_outcome [OF assms])

definition keyed_table :: "nat cstrs \<Rightarrow> nat Statement" where
  "keyed_table cols = CreateStmt ((CreateStatement_new kCreateTable)\<lparr>cre_tableName := Ptr 1 ''t'',
     cre_tableConstraints := Ptr 2 [Ptr 3 \<lparr>tc_type = PrimaryKey, tc_columnNames = cols\<rparr>]\<rparr>)"

theorem delete_Statement_exact_witness:
  "free_all (destroy_Statement (keyed_table (Ptr 4 [Ptr 5 ''id'']))) {1, 2, 3, 4, 5} = Inr {} \<and>
   free_all (destroy_Statement (keyed_table Null)) {1, 2, 3} = Inl NullDeref"
proof -
  have b: "blocks_Statement (keyed_table (Ptr 4 [Ptr 5 ''id''])) = {#1, 2, 3, 4, 5#}" "blocks_Statement (keyed_table Null) = {#1, 2, 3#}"
    by (simp_all add: keyed_table_def own_ptr_def own_vec_def own_cstr_def own_cstrs_def own_exprs_def own_select_def CreateStatement_new_def)
  have i: "intact_Statement (keyed_table (Ptr 4 [Ptr 5 ''id'']))" "\<not> intact_Statement (keyed_table Null)" by code_simp+
  show ?thesis
    using delete_Statement_exact [of "keyed_table (Ptr 4 [Ptr 5 ''id''])" "{1, 2, 3, 4, 5}"] delete_Statement_exact [of "keyed_table Null" "{1, 2, 3}"]
    by (simp add: b i uniquely_owned_def)
qed

text \<open>
  C20: \<open>makeCase\<close> moves the WHEN branches without losing or duplicating a block. The blocks of
  the new expression together with those released by deleting the temporary list are the new
  block and the blocks of the three arguments.
\<close>
theorem makeCase_transfers_ownership:
  assumes "makeCase l expr caseList elseExpr = Inr (e, old)"
  shows "own_expr e + mset (released (delete_ptr (map_ptr destroy_Expr old))) =
           add_mset l (own_expr expr + own_expr caseList + own_expr elseExpr)"
proof -
  from assms obtain c cl where c: "caseList = Ptr c cl"
    and e: "e = Ptr l (set_exprList (ex_exprList cl) (set_expr2 elseExpr (set_expr expr
                (set_opType kOpCase (Expr_new kExprOperator)))))"
    and old: "old = Ptr c (set_exprList Null cl)"
    by (cases caseList) (auto simp: makeCase_def)
  have "mset (released (delete_ptr (map_ptr destroy_Expr old))) = own_expr old"
    by (simp add: own_expr_def mset_delete_ptr destroy_blocks)
  then show ?thesis unfolding c e old
    by (cases cl) (simp add: own_expr_def own_ptr_def own_vec_def own_cstr_def expr_setters Expr_new_def union_ac)
qed

theorem makeCase_transfers_ownership_witness:
  "\<exists>e old. makeCase (9 :: nat) Null (makeCaseList 1 2 (makeStar 3)) (makeNullLiteral 4) = Inr (e, old) \<and>
     own_expr e + mset (released (delete_ptr (map_ptr destroy_Expr old))) = {#9, 1, 2, 3, 4#}"
proof -
  obtain e old where m: "makeCase (9 :: nat) Null (makeCaseList 1 2 (makeStar 3)) (makeNullLiteral 4) = Inr (e, old)"
    by (simp add: makeCase_def makeCaseList_def)
  show ?thesis
    using makeCase_transfers_ownership [OF m] m
    by (simp add: own_expr_def own_ptr_def own_vec_def own_cstr_def expr_setters expr_makers Expr_new_def)
qed

end
