(* ===== verification/Parser_Result.thy ===== *)
theory Parser_Result
  imports Sql_Destroy
begin

text \<open>
  The front end of the SQL parser, from sql-parser/src/SQLParserResult.cpp and
  sql-parser/src/SQLParser.cpp: the result object that owns the parsed statements, parse and
  tokenize over the generated scanner and grammar, which are parameters.
\<close>

section \<open>The result object\<close>

text \<open>
  \<open>errorLine_\<close> and \<open>errorColumn_\<close> are not initialised by the constructors. The parameters are
  pointers into the statements; the result does not own them.
\<close>

record 'l SQLParserResult =
  statements :: "('l, 'l Statement) ptr list"
  isValid :: bool
  errorMsg :: "'l cstr"
  errorLine :: "int option"
  errorColumn :: "int option"
  parameters :: "('l, 'l Expr) ptr list"

definition SQLParserResult_new :: "'l SQLParserResult" where
  "SQLParserResult_new = \<lparr>statements = [], isValid = False, errorMsg = Null, errorLine = None,
     errorColumn = None, parameters = []\<rparr>"

definition addStatement :: "('l, 'l Statement) ptr \<Rightarrow> 'l SQLParserResult \<Rightarrow> 'l SQLParserResult" where
  "addStatement stmt r = r\<lparr>statements := statements r @ [stmt]\<rparr>"

definition SQLParserResult_stmt :: "('l, 'l Statement) ptr \<Rightarrow> 'l SQLParserResult" where
  "SQLParserResult_stmt stmt = addStatement stmt SQLParserResult_new"

definition getStatement :: "'l SQLParserResult \<Rightarrow> nat \<Rightarrow> ('l, 'l Statement) ptr res" where
  "getStatement r index = vat (statements r) index"

definition result_size :: "'l SQLParserResult \<Rightarrow> nat" where
  "result_size r = length (statements r)"

definition setIsValid :: "bool \<Rightarrow> 'l SQLParserResult \<Rightarrow> 'l SQLParserResult" where
  "setIsValid v r = r\<lparr>isValid := v\<rparr>"

definition setErrorDetails :: "'l cstr \<Rightarrow> int \<Rightarrow> int \<Rightarrow> 'l SQLParserResult \<Rightarrow> 'l SQLParserResult" where
  "setErrorDetails msg line col r = r\<lparr>errorMsg := msg, errorLine := Some line, errorColumn := Some col\<rparr>"

definition releaseStatements :: "'l SQLParserResult \<Rightarrow> ('l, 'l Statement) ptr list \<times> 'l SQLParserResult" where
  "releaseStatements r = (statements r, r\<lparr>statements := []\<rparr>)"

text \<open>What \<open>delete\<close> of one statement pointer does.\<close>

definition delete_Statement :: "('l, 'l Statement) ptr \<Rightarrow> 'l mem_op list" where
  "delete_Statement p = delete_ptr (map_ptr destroy_Statement p)"

text \<open>\<open>reset\<close> gives the memory operations and the new state; it leaves \<open>parameters_\<close> alone.\<close>

definition reset :: "'l SQLParserResult \<Rightarrow> 'l mem_op list \<times> 'l SQLParserResult" where
  "reset r = (concat (map delete_Statement (statements r)) @ free_cstr (errorMsg r),
     r\<lparr>statements := [], isValid := False, errorMsg := Null, errorLine := Some (- 1), errorColumn := Some (- 1)\<rparr>)"

definition destroy_SQLParserResult :: "'l SQLParserResult \<Rightarrow> 'l mem_op list" where
  "destroy_SQLParserResult r = fst (reset r)"

text \<open>Move assignment: the memory operations, the target and the moved-from object.\<close>

definition move_assign :: "'l SQLParserResult \<Rightarrow> 'l SQLParserResult
    \<Rightarrow> 'l mem_op list \<times> 'l SQLParserResult \<times> 'l SQLParserResult" where
  "move_assign this moved =
     (let this' = this\<lparr>isValid := isValid moved, errorMsg := errorMsg moved, statements := statements moved\<rparr>;
          moved' = moved\<lparr>statements := [], errorMsg := Null\<rparr>;
          (ops, moved'') = reset moved'
      in (ops, this', moved''))"

definition move_construct :: "'l SQLParserResult \<Rightarrow> 'l mem_op list \<times> 'l SQLParserResult \<times> 'l SQLParserResult" where
  "move_construct moved = move_assign SQLParserResult_new moved"

text \<open>
  \<open>addParameter\<close> sorts by the signed value of \<open>ival\<close>. \<open>std::sort\<close> leaves the order of equal keys
  open; the model keeps it.
\<close>

definition param_key :: "('l, 'l Expr) ptr \<Rightarrow> int" where
  "param_key p = sint (ex_ival (obj p))"

definition addParameter :: "('l, 'l Expr) ptr \<Rightarrow> 'l SQLParserResult \<Rightarrow> 'l SQLParserResult res" where
  "addParameter p r = (let ps = parameters r @ [p] in
     if Null \<in> set ps \<and> length ps > 1 then Inl NullDeref
     else Inr (r\<lparr>parameters := (if length ps > 1 then sort_key param_key ps else ps)\<rparr>))"

section \<open>The parser front end\<close>

text \<open>
  The lexer and the grammar are generated by flex and bison: \<open>hsql_parse\<close> takes the text up to its
  first NUL and the result object, and returns the exit code with the filled object. The
  return value of \<open>parse\<close> only says whether the lexer could be initialised.
\<close>

definition c_text :: "string \<Rightarrow> string" where
  "c_text s = takeWhile (\<lambda>c. c \<noteq> CHR 0x00) s"

definition parse :: "(string \<Rightarrow> 'l SQLParserResult \<Rightarrow> int \<times> 'l SQLParserResult) \<Rightarrow> bool
    \<Rightarrow> string \<Rightarrow> 'l SQLParserResult \<Rightarrow> bool \<times> 'l SQLParserResult" where
  "parse hsql_parse lex_init_fails sql result =
     (if lex_init_fails then (False, result)
      else let (ret, result) = hsql_parse (c_text sql) result in (True, setIsValid (ret = 0) result))"

text \<open>
  \<open>tokenize\<close> pulls tokens from the scanner, a state of type \<open>'s\<close>; a token comes with the string
  block in \<open>yylval.sval\<close>. The loop ends only if the scanner delivers 0, so the function is partial;
  it yields the tokens and the strings it frees.
\<close>

definition SQL_IDENTIFIER :: "16 word" where "SQL_IDENTIFIER = 258"

definition SQL_STRING :: "16 word" where "SQL_STRING = 259"

partial_function (option) tokenize_loop ::
  "('s \<Rightarrow> (32 word \<times> 'l cstr) \<times> 's) \<Rightarrow> 's \<Rightarrow> 16 word \<Rightarrow> 16 word list \<Rightarrow> 'l mem_op list \<Rightarrow> (16 word list \<times> 'l mem_op list) option"
where
  "tokenize_loop hsql_lex scanner token tokens freed =
     (if token \<noteq> 0
      then case hsql_lex scanner of ((t, sval), scanner') \<Rightarrow>
        let token' = ucast t :: 16 word in
        tokenize_loop hsql_lex scanner' token' (tokens @ [token])
          (if token' = SQL_IDENTIFIER \<or> token' = SQL_STRING then freed @ free_cstr sval else freed)
      else Some (tokens, freed))"

definition tokenize :: "('s \<Rightarrow> (32 word \<times> 'l cstr) \<times> 's) \<Rightarrow> bool \<Rightarrow> 's \<Rightarrow> 16 word list
    \<Rightarrow> (bool \<times> 16 word list \<times> 'l mem_op list) option" where
  "tokenize hsql_lex lex_init_fails scanner tokens =
     (if lex_init_fails then Some (False, tokens, [])
      else case hsql_lex scanner of ((t, _), scanner') \<Rightarrow>
        map_option (\<lambda>(ts, fs). (True, ts, fs)) (tokenize_loop hsql_lex scanner' (ucast t) tokens []))"

section \<open>Ownership\<close>

definition blocks_result :: "'l SQLParserResult \<Rightarrow> 'l multiset" where
  "blocks_result r = sum_list (map (\<lambda>p. own_ptr (map_ptr blocks_Statement p)) (statements r)) + own_cstr (errorMsg r)"

definition intact_result :: "'l SQLParserResult \<Rightarrow> bool" where
  "intact_result r = list_all (\<lambda>p. all_ptr (map_ptr intact_Statement p)) (statements r)"

lemma delete_statements:
  "mset (released (concat (map delete_Statement ps))) = sum_list (map (\<lambda>p. own_ptr (map_ptr blocks_Statement p)) ps)"
  "null_free (concat (map delete_Statement ps)) \<longleftrightarrow> list_all (\<lambda>p. all_ptr (map_ptr intact_Statement p)) ps"
  by (induction ps) (simp_all add: delete_Statement_def mset_delete_ptr mset_destroy_Statement null_free_delete_ptr null_free_destroy_Statement)

interpretation d_result: destructor destroy_SQLParserResult blocks_result intact_result
  by unfold_locales (simp_all add: destroy_SQLParserResult_def reset_def blocks_result_def intact_result_def delete_statements
      mset_free_cstr null_free_strings del: mset_concat)

lemma tokenize_loop_unroll:
  "token \<noteq> 0 \<Longrightarrow> hsql_lex scanner = ((t, sval), scanner') \<Longrightarrow>
   tokenize_loop hsql_lex scanner token tokens freed =
     tokenize_loop hsql_lex scanner' (ucast t) (tokens @ [token])
       (if ucast t = SQL_IDENTIFIER \<or> ucast t = SQL_STRING then freed @ free_cstr sval else freed)"
  by (subst tokenize_loop.simps) (simp add: Let_def)

lemma tokenize_loop_end: "tokenize_loop hsql_lex scanner 0 tokens freed = Some (tokens, freed)"
  by (subst tokenize_loop.simps) simp

text \<open>A scanner that reads from a list and then reports the end of the input.\<close>

fun list_lex :: "(32 word \<times> 'l cstr) list \<Rightarrow> (32 word \<times> 'l cstr) \<times> (32 word \<times> 'l cstr) list" where
  "list_lex [] = ((0, Null), [])"
| "list_lex (t # ts) = (t, ts)"

definition sval_blocks :: "(32 word \<times> 'l cstr) list \<Rightarrow> 'l mem_op list" where
  "sval_blocks ts = concat (map (\<lambda>(t, sval). if (ucast t :: 16 word) = SQL_IDENTIFIER \<or> (ucast t :: 16 word) = SQL_STRING
     then free_cstr sval else []) ts)"

lemma tokenize_loop_list:
  assumes "\<forall>(t, sval) \<in> set ts. (ucast t :: 16 word) \<noteq> 0" and "token \<noteq> 0"
  shows "tokenize_loop list_lex ts token tokens freed =
     Some (tokens @ [token] @ map (\<lambda>(t, _). ucast t) ts, freed @ sval_blocks ts)"
  using assms
proof (induction ts arbitrary: token tokens freed)
  case Nil
  then show ?case
    by (simp add: tokenize_loop_unroll [of token list_lex "[]" 0 Null "[]"] tokenize_loop_end sval_blocks_def
        SQL_IDENTIFIER_def SQL_STRING_def)
next
  case (Cons a ts)
  obtain t sval where a: "a = (t, sval)" by (cases a)
  then have step: "tokenize_loop list_lex (a # ts) token tokens freed =
    tokenize_loop list_lex ts (ucast t) (tokens @ [token])
      (if (ucast t :: 16 word) = SQL_IDENTIFIER \<or> (ucast t :: 16 word) = SQL_STRING then freed @ free_cstr sval else freed)"
    using Cons.prems(2) by (intro tokenize_loop_unroll) simp_all
  from a Cons show ?case unfolding step by (simp add: sval_blocks_def)
qed

section \<open>Properties\<close>

text \<open>
  C19: \<open>reset\<close>, exactly. When the blocks the result owns are not shared and all allocated, it releases each of them once and leaves an
  empty result, for which the destructor that runs later does nothing; but if a statement is not intact, having a null pointer
  among its locking or update clauses or a table constraint without columns, \<open>reset\<close> follows a null pointer.
\<close>
theorem reset_then_destroy:
  assumes "uniquely_owned (blocks_result r)" and "set_mset (blocks_result r) \<subseteq> H"
  shows "free_all (fst (reset r)) H = (if intact_result r then Inr (H - set_mset (blocks_result r)) else Inl NullDeref) \<and>
     blocks_result (snd (reset r)) = {#} \<and> destroy_SQLParserResult (snd (reset r)) = [] \<and>
     result_size (snd (reset r)) = 0 \<and> \<not> isValid (snd (reset r))"
  using d_result.delete_outcome [OF assms]
  by (simp add: destroy_SQLParserResult_def) (simp add: reset_def blocks_result_def free_cstr_def own_cstr_def own_ptr_def result_size_def)

definition update_result :: "(nat, nat UpdateClause) ptr \<Rightarrow> nat SQLParserResult" where
  "update_result u = SQLParserResult_stmt (Ptr 1 (UpdateStmt (UpdateStatement_new\<lparr>upd_updates := Ptr 2 [u]\<rparr>)))"

theorem reset_then_destroy_witness:
  "free_all (fst (reset (update_result (Ptr 3 \<lparr>uc_column = Ptr 4 ''a'', uc_value = Null\<rparr>)))) {1, 2, 3, 4, 5} = Inr {5} \<and>
   free_all (fst (reset (update_result Null))) {1, 2} = Inl NullDeref"
proof -
  let ?u = "Ptr 3 \<lparr>uc_column = Ptr 4 ''a'', uc_value = Null\<rparr>"
  have b: "blocks_result (update_result ?u) = {#1, 2, 3, 4#}" "blocks_result (update_result Null) = {#1, 2#}"
    by (simp_all add: update_result_def blocks_result_def SQLParserResult_stmt_def addStatement_def SQLParserResult_new_def
        UpdateStatement_new_def own_ptr_def own_cstr_def own_exprs_def own_expr_def own_vec_def)
  have i: "intact_result (update_result ?u)" "\<not> intact_result (update_result Null)" by code_simp+
  show ?thesis using reset_then_destroy [of "update_result ?u" "{1, 2, 3, 4, 5}"] reset_then_destroy [of "update_result Null" "{1, 2}"]
    by (simp add: b i uniquely_owned_def insert_Diff_if)
qed

text \<open>
  C21: move assignment hands the statements and the error message of the source over to the
  target and releases nothing. The blocks the target owned before are owned by neither object
  afterwards and are not released: they leak.
\<close>
theorem move_assign_ownership:
  "\<exists>this' moved'. move_assign this moved = ([], this', moved') \<and>
     blocks_result this' = blocks_result moved \<and> blocks_result moved' = {#} \<and>
     statements this' = statements moved \<and> isValid this' = isValid moved \<and> errorLine this' = errorLine this"
  by (simp add: move_assign_def reset_def blocks_result_def free_cstr_def own_cstr_def own_ptr_def)

text \<open>Adding a parameter to a result without null parameters orders all of them by the signed value of \<open>ival\<close>.\<close>

lemma addParameter_sorted:
  assumes "Null \<notin> set (parameters r)" and "p \<noteq> Null"
  shows "\<exists>r'. addParameter p r = Inr r' \<and> sorted_wrt (\<lambda>p q. sint (ex_ival (obj p)) \<le> sint (ex_ival (obj q))) (parameters r') \<and>
     mset (parameters r') = add_mset p (mset (parameters r)) \<and> statements r' = statements r"
proof (cases "parameters r = []")
  case False
  with assms show ?thesis using sorted_sort_key [of param_key "parameters r @ [p]"]
    by (simp add: addParameter_def Let_def sorted_map param_key_def)
qed (use assms in \<open>simp add: addParameter_def\<close>)

text \<open>
  C23: on a scanner that delivers the non-zero tokens of a list and then 0, \<open>tokenize\<close> terminates
  and returns exactly these tokens; it frees the strings of all identifiers and string literals
  but the one of the first token.
\<close>
theorem tokenize_collects_tokens:
  assumes "\<forall>(t, sval) \<in> set (a # ts). (ucast t :: 16 word) \<noteq> 0"
  shows "tokenize list_lex False (a # ts) [] =
     Some (True, map (\<lambda>(t, _). ucast t) (a # ts), sval_blocks ts)"
  using assms tokenize_loop_list [of ts "ucast (fst a)" "[]" "[]"]
  by (cases a) (simp add: tokenize_def)

theorem tokenize_collects_tokens_witness:
  "tokenize list_lex False [(258, Ptr (1 :: nat) ''a''), (259, Ptr 2 ''b'')] [] = Some (True, [258, 259], [Free 2])"
  using tokenize_collects_tokens [of "(258, Ptr (1 :: nat) ''a'')" "[(259, Ptr 2 ''b'')]"]
  by (simp add: sval_blocks_def SQL_IDENTIFIER_def SQL_STRING_def free_cstr_def)

end
