(* ===== verification/Sql_Print.thy ===== *)
theory Sql_Print
  imports Sql_Make Conditions
begin

text \<open>
  The statement printer, from optimizer/util/sqlhelper.cpp, with the stream operators of the column
  types, operators and date fields. The output is a list of lines, each with its number of tabs;
  render turns it into the text that is written.
\<close>

section \<open>Printing lines\<close>

text \<open>
  What is written to standard output, as lines with their number of tabs. A null \<open>char*\<close> sent to
  the stream is undefined. \<open>show_double\<close> is the stream's formatting of a double.
\<close>

type_synonym lines = "(nat \<times> string) list"
type_synonym printer = "nat \<Rightarrow> lines res"

definition indent :: "nat \<Rightarrow> string" where
  "indent numIndent = replicate numIndent (CHR 0x09)"

definition render :: "lines \<Rightarrow> string" where
  "render ls = concat (map (\<lambda>(n, s). indent n @ s @ [CHR 0x0A]) ls)"

definition inprint :: "string \<Rightarrow> printer" where
  "inprint val numIndent = Inr [(numIndent, val)]"

definition inprint_cstr :: "'l cstr \<Rightarrow> printer" where
  "inprint_cstr val numIndent = (case val of Null \<Rightarrow> Inl NullDeref | Ptr _ s \<Rightarrow> Inr [(numIndent, s)])"

definition inprint_int :: "64 word \<Rightarrow> printer" where
  "inprint_int val numIndent = Inr [(numIndent, to_string (sint val) @ ''  '')]"

fun op_name :: "OperatorType \<Rightarrow> string" where
  "op_name kOpNone = ''None''" | "op_name kOpBetween = ''BETWEEN''"
| "op_name kOpCase = ''CASE''" | "op_name kOpCaseListElement = ''CASE LIST ELEMENT''"
| "op_name kOpPlus = ''+''" | "op_name kOpMinus = ''-''"
| "op_name kOpAsterisk = ''*''" | "op_name kOpSlash = ''/''"
| "op_name kOpPercentage = ''%''" | "op_name kOpCaret = ''^''"
| "op_name kOpEquals = ''=''" | "op_name kOpNotEquals = ''!=''"
| "op_name kOpLess = ''<''" | "op_name kOpLessEq = ''<=''"
| "op_name kOpGreater = ''>''" | "op_name kOpGreaterEq = ''>=''"
| "op_name kOpLike = ''LIKE''" | "op_name kOpNotLike = ''NOT LIKE''"
| "op_name kOpILike = ''ILIKE''" | "op_name kOpAnd = ''AND''"
| "op_name kOpOr = ''OR''" | "op_name kOpIn = ''IN''"
| "op_name kOpConcat = ''CONCAT''" | "op_name kOpNot = ''NOT''"
| "op_name kOpUnaryMinus = ''-''" | "op_name kOpIsNull = ''IS NULL''"
| "op_name kOpExists = ''EXISTS''"

fun datetime_name :: "DatetimeField \<Rightarrow> string" where
  "datetime_name kDatetimeNone = ''None''" | "datetime_name kDatetimeSecond = ''SECOND''"
| "datetime_name kDatetimeMinute = ''MINUTE''" | "datetime_name kDatetimeHour = ''HOUR''"
| "datetime_name kDatetimeDay = ''DAY''" | "datetime_name kDatetimeMonth = ''MONTH''"
| "datetime_name kDatetimeYear = ''YEAR''"

fun ColumnType_name :: "ColumnType \<Rightarrow> string" where
  "ColumnType_name (ColumnType UNKNOWN _ _ _) = ''UNKNOWN''"
| "ColumnType_name (ColumnType INT_type _ _ _) = ''INT''"
| "ColumnType_name (ColumnType BIGINT _ _ _) = ''BIGINT''"
| "ColumnType_name (ColumnType LONG _ _ _) = ''LONG''"
| "ColumnType_name (ColumnType FLOAT _ _ _) = ''FLOAT''"
| "ColumnType_name (ColumnType DOUBLE _ _ _) = ''DOUBLE''"
| "ColumnType_name (ColumnType REAL _ _ _) = ''REAL''"
| "ColumnType_name (ColumnType CHAR_type n _ _) = ''CHAR('' @ to_string (sint n) @ '')''"
| "ColumnType_name (ColumnType VARCHAR n _ _) = ''VARCHAR('' @ to_string (sint n) @ '')''"
| "ColumnType_name (ColumnType DECIMAL _ _ _) = ''DECIMAL''"
| "ColumnType_name (ColumnType TEXT _ _ _) = ''TEXT''"
| "ColumnType_name (ColumnType DATETIME _ _ _) = ''DATETIME''"
| "ColumnType_name (ColumnType DATE _ _ _) = ''DATE''"
| "ColumnType_name (ColumnType TIME _ _ _) = ''TIME''"
| "ColumnType_name (ColumnType SMALLINT _ _ _) = ''SMALLINT''"
| "ColumnType_name (ColumnType BOOLEAN _ _ _) = ''BOOLEAN''"

section \<open>Sequencing\<close>

fun seq :: "printer list \<Rightarrow> printer" where
  "seq [] n = Inr []"
| "seq (f # fs) n = rbind (f n) (\<lambda>ls. rbind (seq fs n) (\<lambda>ms. Inr (ls @ ms)))"

declare seq.simps [simp del, cxx_eval]

definition nest :: "nat \<Rightarrow> printer \<Rightarrow> printer" where
  "nest k f n = f (n + k)"

text \<open>A call with a possibly null argument: ignored, or dereferenced.\<close>

definition opt_print :: "('l, printer) ptr \<Rightarrow> printer" where
  "opt_print p n = (case p of Null \<Rightarrow> Inr [] | Ptr _ f \<Rightarrow> f n)"

definition must_print :: "('l, printer) ptr \<Rightarrow> printer" where
  "must_print p n = (case p of Null \<Rightarrow> Inl NullDeref | Ptr _ f \<Rightarrow> f n)"

definition each_print :: "(('l, printer) ptr \<Rightarrow> printer) \<Rightarrow> ('l, ('l, printer) ptr list) ptr \<Rightarrow> printer" where
  "each_print f v n = (case v of Null \<Rightarrow> Inl NullDeref | Ptr _ ps \<Rightarrow> seq (map f ps) n)"

definition if_vec :: "('l, 'a) ptr \<Rightarrow> printer \<Rightarrow> printer" where
  "if_vec v f n = (case v of Null \<Rightarrow> Inr [] | Ptr _ _ \<Rightarrow> f n)"

text \<open>A heading one level in and its body two levels in, when the pointer is set.\<close>

definition titled :: "string \<Rightarrow> ('l, printer) ptr \<Rightarrow> printer" where
  "titled title p = if_vec p (seq [nest 1 (inprint title), nest 2 (must_print p)])"

definition cstrs_print :: "'l cstrs \<Rightarrow> printer" where
  "cstrs_print v n = (case v of Null \<Rightarrow> Inl NullDeref | Ptr _ ss \<Rightarrow> seq (map inprint_cstr ss) n)"

section \<open>The printers\<close>

fun printAlias :: "'l Alias \<Rightarrow> printer" where
  "printAlias (Alias name columns) =
     seq [nest 1 (inprint ''Alias''), nest 2 (inprint_cstr name), if_vec columns (nest 3 (cstrs_print columns))]"

fun lock_mode :: "RowLockMode \<Rightarrow> string" where
  "lock_mode ForUpdate = ''FOR UPDATE''"
| "lock_mode ForNoKeyUpdate = ''FOR NO KEY UPDATE''"
| "lock_mode ForShare = ''FOR SHARE''"
| "lock_mode ForKeyShare = ''FOR KEY SHARE''"

fun lock_policy :: "RowLockWaitPolicy \<Rightarrow> printer" where
  "lock_policy NoPolicy = seq []"
| "lock_policy NoWait = seq [nest 2 (inprint ''Waiting policy: ''), nest 3 (inprint ''NOWAIT'')]"
| "lock_policy SkipLocked = seq [nest 2 (inprint ''Waiting policy: ''), nest 3 (inprint ''SKIP LOCKED'')]"

fun printLocking :: "'l LockingClause \<Rightarrow> printer" where
  "printLocking (LockingClause mode policy tables) =
     seq [nest 2 (inprint ''Type''), nest 3 (inprint (lock_mode mode)),
          if_vec tables (seq [nest 2 (inprint ''Target tables:''), nest 3 (cstrs_print tables)]),
          lock_policy policy]"

definition set_title :: "SetType option \<Rightarrow> printer" where
  "set_title t n = (case t of None \<Rightarrow> Inl UninitRead
     | Some kSetIntersect \<Rightarrow> inprint ''Intersect:'' (n + 1)
     | Some kSetUnion \<Rightarrow> inprint ''Union:'' (n + 1)
     | Some kSetExcept \<Rightarrow> inprint ''Except:'' (n + 1))"

primrec printExpression :: "(64 word \<Rightarrow> string) \<Rightarrow> 'l Expr \<Rightarrow> printer"
  and printSelectStatementInfo :: "(64 word \<Rightarrow> string) \<Rightarrow> 'l SelectStatement \<Rightarrow> printer"
  and printOrder :: "(64 word \<Rightarrow> string) \<Rightarrow> 'l OrderDescription \<Rightarrow> printer"
  and printSetLimit :: "(64 word \<Rightarrow> string) \<Rightarrow> 'l LimitDescription \<Rightarrow> string \<Rightarrow> string \<Rightarrow> printer"
  and printGroupBy :: "(64 word \<Rightarrow> string) \<Rightarrow> 'l GroupByDescription \<Rightarrow> printer"
  and printWith :: "(64 word \<Rightarrow> string) \<Rightarrow> 'l WithDescription \<Rightarrow> printer"
  and printSetOperation :: "(64 word \<Rightarrow> string) \<Rightarrow> 'l SetOperation \<Rightarrow> printer"
  and printTableRefInfo :: "(64 word \<Rightarrow> string) \<Rightarrow> 'l TableRef \<Rightarrow> printer"
  and printJoin :: "(64 word \<Rightarrow> string) \<Rightarrow> 'l JoinDefinition \<Rightarrow> printer"
where
  "printExpression sd (Expr t e e2 es sel name table alias fval ival _ field ct _ op _) =
     (if t = kExprHint then seq []
      else seq [
        (case t of
           kExprStar \<Rightarrow> inprint ''*''
         | kExprColumnRef \<Rightarrow> seq [inprint_cstr name,
             if_vec table (seq [nest 1 (inprint ''Table:''), nest 2 (inprint_cstr table)])]
         | kExprLiteralFloat \<Rightarrow> inprint (sd fval)
         | kExprLiteralInt \<Rightarrow> inprint_int ival
         | kExprLiteralString \<Rightarrow> inprint_cstr name
         | kExprLiteralDate \<Rightarrow> inprint_cstr name
         | kExprLiteralNull \<Rightarrow> inprint ''NULL''
         | kExprLiteralInterval \<Rightarrow> seq [inprint ''INTERVAL'', nest 1 (inprint_int ival),
             nest 1 (inprint (datetime_name field))]
         | kExprFunctionRef \<Rightarrow> seq [inprint_cstr name,
             nest 1 (each_print opt_print (map_ptr (map (map_ptr (printExpression sd))) es))]
         | kExprExtract \<Rightarrow> seq [inprint ''EXTRACT'', nest 1 (inprint (datetime_name field)),
             nest 1 (opt_print (map_ptr (printExpression sd) e))]
         | kExprCast \<Rightarrow> seq [inprint ''CAST'', nest 1 (inprint (ColumnType_name ct)),
             nest 1 (opt_print (map_ptr (printExpression sd) e))]
         | kExprOperator \<Rightarrow> seq [inprint (op_name op), nest 1 (opt_print (map_ptr (printExpression sd) e)),
             (if e2 \<noteq> Null then nest 1 (opt_print (map_ptr (printExpression sd) e2))
              else if_vec es (nest 1 (each_print opt_print (map_ptr (map (map_ptr (printExpression sd))) es))))]
         | kExprSelect \<Rightarrow> must_print (map_ptr (printSelectStatementInfo sd) sel)
         | kExprParameter \<Rightarrow> inprint_int ival
         | kExprArray \<Rightarrow> nest 1 (each_print opt_print (map_ptr (map (map_ptr (printExpression sd))) es))
         | kExprArrayIndex \<Rightarrow> seq [nest 1 (opt_print (map_ptr (printExpression sd) e)), inprint_int ival]
         | kExprHint \<Rightarrow> seq []),
        if_vec alias (seq [nest 1 (inprint ''Alias''), nest 2 (inprint_cstr alias)])])"
| "printSelectStatementInfo sd (SelectStatement _ _ from _ sels whr grp sets ord _ lim locks) =
     seq [inprint ''SelectStatement'', nest 1 (inprint ''Fields:''),
       nest 2 (each_print opt_print (map_ptr (map (map_ptr (printExpression sd))) sels)),
       titled ''Sources:'' (map_ptr (printTableRefInfo sd) from),
       titled ''Search Conditions:'' (map_ptr (printExpression sd) whr),
       opt_print (map_ptr (printGroupBy sd) grp),
       if_vec locks (seq [nest 1 (inprint ''Lock Info:''),
         each_print must_print (map_ptr (map (map_ptr printLocking)) locks)]),
       if_vec sets (each_print must_print (map_ptr (map (map_ptr (printSetOperation sd))) sets)),
       if_vec ord (seq [nest 1 (inprint ''OrderBy:''),
         nest 2 (each_print must_print (map_ptr (map (map_ptr (printOrder sd))) ord))]),
       opt_print (map_ptr (\<lambda>f. f ''Limit:'' ''Offset:'') (map_ptr (printSetLimit sd) lim))]"
| "printOrder sd (OrderDescription t e) =
     seq [opt_print (map_ptr (printExpression sd) e),
          inprint (if t = kOrderAsc then ''ascending'' else ''descending'')]"
| "printSetLimit sd (LimitDescription lim off) = (\<lambda>ltitle otitle.
     seq [titled ltitle (map_ptr (printExpression sd) lim), titled otitle (map_ptr (printExpression sd) off)])"
| "printGroupBy sd (GroupByDescription cols hav) =
     seq [nest 1 (inprint ''GroupBy:''),
          nest 2 (each_print opt_print (map_ptr (map (map_ptr (printExpression sd))) cols)),
          titled ''Having:'' (map_ptr (printExpression sd) hav)]"
| "printWith sd (WithDescription _ _) = seq []"
| "printSetOperation sd (SetOperation t _ nested ord lim) =
     seq [set_title t, nest 2 (must_print (map_ptr (printSelectStatementInfo sd) nested)),
          if_vec ord (seq [nest 1 (inprint ''SetResultOrderBy:''),
            nest 2 (each_print must_print (map_ptr (map (map_ptr (printOrder sd))) ord))]),
          opt_print (map_ptr (\<lambda>f. f ''SetResultLimit:'' ''SetResultOffset:'') (map_ptr (printSetLimit sd) lim))]"
| "printTableRefInfo sd (TableRef t schema name alias sel lst jn) =
     seq [
       (case t of
          kTableName \<Rightarrow> seq [inprint_cstr name,
            if_vec schema (seq [nest 1 (inprint ''Schema''), nest 2 (inprint_cstr schema)])]
        | kTableSelect \<Rightarrow> must_print (map_ptr (printSelectStatementInfo sd) sel)
        | kTableJoin \<Rightarrow> seq [inprint ''Join Table'', must_print (map_ptr (printJoin sd) jn)]
        | kTableCrossProduct \<Rightarrow> each_print must_print (map_ptr (map (map_ptr (printTableRefInfo sd))) lst)),
       opt_print (map_ptr printAlias alias)]"
| "printJoin sd (JoinDefinition left right cond _) =
     seq [nest 1 (inprint ''Left''), nest 2 (must_print (map_ptr (printTableRefInfo sd) left)),
          nest 1 (inprint ''Right''), nest 2 (must_print (map_ptr (printTableRefInfo sd) right)),
          nest 1 (inprint ''Join Condition''), nest 2 (opt_print (map_ptr (printExpression sd) cond))]"

fun import_name :: "ImportType \<Rightarrow> string" where
  "import_name kImportCSV = ''CSV''"
| "import_name kImportTbl = ''TBL''"
| "import_name kImportBinary = ''BINARY''"
| "import_name kImportAuto = ''AUTO''"

definition printImportStatementInfo :: "'l ImportStatement \<Rightarrow> printer" where
  "printImportStatementInfo stmt = seq [inprint ''ImportStatement'', nest 1 (inprint_cstr (imp_filePath stmt)),
     nest 1 (inprint (import_name (imp_type stmt))), nest 1 (inprint_cstr (imp_tableName stmt))]"

definition printExportStatementInfo :: "'l ExportStatement \<Rightarrow> printer" where
  "printExportStatementInfo stmt = seq [inprint ''ExportStatement'', nest 1 (inprint_cstr (exp_filePath stmt)),
     nest 1 (inprint (import_name (exp_type stmt))), nest 1 (inprint_cstr (exp_tableName stmt))]"

definition printCreateStatementInfo :: "'l CreateStatement \<Rightarrow> printer" where
  "printCreateStatementInfo stmt = seq [inprint ''CreateStatement'', nest 1 (inprint_cstr (cre_tableName stmt)),
     if_vec (cre_filePath stmt) (nest 1 (inprint_cstr (cre_filePath stmt)))]"

definition printInsertStatementInfo :: "(64 word \<Rightarrow> string) \<Rightarrow> 'l InsertStatement \<Rightarrow> printer" where
  "printInsertStatementInfo sd stmt = seq [inprint ''InsertStatement'', nest 1 (inprint_cstr (ins_tableName stmt)),
     if_vec (ins_columns stmt) (seq [nest 1 (inprint ''Columns''), nest 2 (cstrs_print (ins_columns stmt))]),
     (if ins_type stmt = kInsertValues
      then seq [nest 1 (inprint ''Values''),
                nest 2 (each_print opt_print (map_ptr (map (map_ptr (printExpression sd))) (ins_values stmt)))]
      else nest 1 (must_print (map_ptr (printSelectStatementInfo sd) (ins_select stmt))))]"

fun command_name :: "TransactionCommand \<Rightarrow> string" where
  "command_name kBeginTransaction = ''BEGIN''"
| "command_name kCommitTransaction = ''COMMIT''"
| "command_name kRollbackTransaction = ''ROLLBACK''"

definition printTransactionStatementInfo :: "'l TransactionStatement \<Rightarrow> printer" where
  "printTransactionStatementInfo stmt = seq [inprint ''TransactionStatement'',
     nest 1 (inprint (command_name (trans_command stmt)))]"

fun printStatementInfo :: "(64 word \<Rightarrow> string) \<Rightarrow> 'l Statement \<Rightarrow> lines res" where
  "printStatementInfo sd (SelectStmt s) = printSelectStatementInfo sd s 0"
| "printStatementInfo sd (InsertStmt s) = printInsertStatementInfo sd s 0"
| "printStatementInfo sd (CreateStmt s) = printCreateStatementInfo s 0"
| "printStatementInfo sd (ImportStmt s) = printImportStatementInfo s 0"
| "printStatementInfo sd (ExportStmt s) = printExportStatementInfo s 0"
| "printStatementInfo sd (TransactionStmt s) = printTransactionStatementInfo s 0"
| "printStatementInfo sd _ = Inr []"

section \<open>Printers are compositional in the indentation\<close>

definition shift :: "nat \<Rightarrow> lines res \<Rightarrow> lines res" where
  "shift k r = (case r of Inl e \<Rightarrow> Inl e | Inr ls \<Rightarrow> Inr (map (\<lambda>(n, s). (n + k, s)) ls))"

definition shifty :: "printer \<Rightarrow> bool" where
  "shifty f = (\<forall>n k. f (n + k) = shift k (f n))"

definition deep :: "nat \<Rightarrow> printer \<Rightarrow> bool" where
  "deep d f = (\<forall>n ls. f n = Inr ls \<longrightarrow> (\<forall>(m, s) \<in> set ls. n + d \<le> m))"

lemma shifty_seq: "(\<And>f. f \<in> set fs \<Longrightarrow> shifty f) \<Longrightarrow> shifty (seq fs)"
proof (induction fs)
  case (Cons f fs)
  then have f: "f (n + k) = shift k (f n)" and fs: "seq fs (n + k) = shift k (seq fs n)" for n k
    by (auto simp: shifty_def)
  show ?case unfolding shifty_def
  proof (intro allI)
    fix n k
    show "seq (f # fs) (n + k) = shift k (seq (f # fs) n)"
      by (cases "f n"; cases "seq fs n") (simp_all add: f fs shift_def seq.simps)
  qed
qed (simp add: shifty_def shift_def seq.simps)

lemma shifty_basic:
  "shifty (inprint s)" "shifty (inprint_cstr p)" "shifty (inprint_int i)"
  "shifty (cstrs_print v)" "shifty (set_title t)"
proof -
  show c: "shifty (inprint_cstr p)" for p :: "'a cstr"
    by (cases p) (simp_all add: shifty_def inprint_cstr_def shift_def)
  show "shifty (inprint s)" "shifty (inprint_int i)"
    by (simp_all add: shifty_def inprint_def inprint_int_def shift_def)
  show "shifty (set_title t)"
    by (cases t rule: option.exhaust; simp add: shifty_def set_title_def shift_def inprint_def split: SetType.split)
  have "shifty (seq (map inprint_cstr ss))" for ss :: "'b cstr list"
    by (rule shifty_seq) (auto simp: shifty_def inprint_cstr_def shift_def split: ptr.split)
  then show "shifty (cstrs_print v)"
    by (cases v) (simp_all add: shifty_def cstrs_print_def shift_def)
qed

lemma shifty_nest: "shifty f \<Longrightarrow> shifty (nest k f)"
  by (simp add: shifty_def nest_def) (metis add.assoc add.commute)

lemma shifty_ptr:
  assumes "\<And>f. f \<in> set_ptr p \<Longrightarrow> shifty f"
  shows "shifty (opt_print p)" "shifty (must_print p)"
  using assms by (cases p; simp add: shifty_def opt_print_def must_print_def shift_def)+

lemma shifty_if_vec: "shifty f \<Longrightarrow> shifty (if_vec p f)"
  by (cases p) (simp_all add: shifty_def if_vec_def shift_def)

lemma shifty_each:
  assumes "\<And>q. (\<And>f. f \<in> set_ptr q \<Longrightarrow> shifty f) \<Longrightarrow> shifty (g q)"
    and "\<And>ps p f. ps \<in> set_ptr v \<Longrightarrow> p \<in> set ps \<Longrightarrow> f \<in> set_ptr p \<Longrightarrow> shifty f"
  shows "shifty (each_print g v)"
proof (cases v)
  case (Ptr l ps)
  have "shifty (seq (map g ps))"
    using assms Ptr by (intro shifty_seq) auto
  with Ptr show ?thesis by (simp add: shifty_def each_print_def)
qed (simp add: shifty_def each_print_def shift_def)

lemma shifty_titled:
  assumes "\<And>f. f \<in> set_ptr p \<Longrightarrow> shifty f"
  shows "shifty (titled t p)"
  unfolding titled_def using assms by (auto intro!: shifty_if_vec shifty_seq shifty_nest shifty_basic shifty_ptr)

lemmas shifty_rules = shifty_basic shifty_nest shifty_ptr shifty_if_vec shifty_titled

lemma shifty_each_map:
  assumes "\<And>ps p x. ps \<in> set_ptr v \<Longrightarrow> p \<in> set ps \<Longrightarrow> x \<in> set_ptr p \<Longrightarrow> shifty (h x)"
  shows "shifty (each_print opt_print (map_ptr (map (map_ptr h)) v))"
    and "shifty (each_print must_print (map_ptr (map (map_ptr h)) v))"
  using assms by (auto intro!: shifty_each shifty_ptr simp: ptr.set_map)

lemma shifty_alias: "shifty (printAlias a)"
  by (cases a) (auto intro!: shifty_seq shifty_rules)

lemma shifty_locking: "shifty (printLocking c)"
proof (cases c)
  case (LockingClause m p t)
  have "shifty (lock_policy p)" by (cases p) (auto intro!: shifty_seq shifty_rules)
  with LockingClause show ?thesis by (auto intro!: shifty_seq shifty_rules)
qed

lemma printers_shifty:
  fixes e :: "'l Expr" and s :: "'l SelectStatement" and od :: "'l OrderDescription" and ld :: "'l LimitDescription"
    and gb :: "'l GroupByDescription" and wd :: "'l WithDescription" and so :: "'l SetOperation"
    and tr :: "'l TableRef" and jd :: "'l JoinDefinition"
  shows "shifty (printExpression sd e)"
    and "shifty (printSelectStatementInfo sd s)"
    and "shifty (printOrder sd od)"
    and "shifty (printSetLimit sd ld lt ot)"
    and "shifty (printGroupBy sd gb)"
    and "shifty (printWith sd wd)"
    and "shifty (printSetOperation sd so)"
    and "shifty (printTableRefInfo sd tr)"
    and "shifty (printJoin sd jd)"
proof (induction e and s and od and ld and gb and wd and so and tr and jd arbitrary: and and and lt ot rule: ast_induct)
qed (auto intro!: shifty_seq shifty_rules shifty_each_map shifty_alias shifty_locking
      simp: ptr.set_map split: ExprType.split TableRefType.split)

section \<open>The outline of a printed query\<close>

lemma shifty_deep:
  assumes "shifty f"
  shows "deep 0 f"
  unfolding deep_def
proof (intro allI impI)
  fix n ls
  assume "f n = Inr ls"
  moreover have "f (0 + n) = shift n (f 0)" using assms by (simp only: shifty_def)
  ultimately show "\<forall>(m, s) \<in> set ls. n + 0 \<le> m" by (auto simp: shift_def split: sum.splits)
qed

lemma deep_nest: "shifty f \<Longrightarrow> d \<le> k \<Longrightarrow> deep d (nest k f)"
  using shifty_deep [of f] by (fastforce simp: deep_def nest_def)

lemma deep_seq: "(\<And>f. f \<in> set fs \<Longrightarrow> deep d f) \<Longrightarrow> deep d (seq fs)"
  by (induction fs) (fastforce simp: deep_def seq.simps)+

lemma deep_ptr:
  assumes "\<And>f. f \<in> set_ptr p \<Longrightarrow> deep d f"
  shows "deep d (opt_print p)" "deep d (must_print p)"
  using assms by (cases p; simp add: deep_def opt_print_def must_print_def)+

lemma deep_if_vec: "deep d f \<Longrightarrow> deep d (if_vec p f)"
  by (cases p) (simp_all add: deep_def if_vec_def)

lemma deep_titled:
  assumes "\<And>f. f \<in> set_ptr p \<Longrightarrow> shifty f"
  shows "deep (Suc 0) (titled t p)"
  unfolding titled_def using assms
  by (auto intro!: deep_if_vec deep_seq deep_nest shifty_basic shifty_ptr)

lemma deep_each_map:
  assumes "\<And>x. deep d (h x)"
  shows "deep d (each_print must_print (map_ptr (map (map_ptr h)) v))"
proof (cases v)
  case (Ptr l ps)
  have "deep d (seq (map must_print (map (map_ptr h) ps)))"
    using assms by (intro deep_seq) (auto intro!: deep_ptr simp: ptr.set_map)
  with Ptr show ?thesis by (simp add: deep_def each_print_def)
qed (simp add: deep_def each_print_def)

lemma deep_set_title: "deep (Suc 0) (set_title t)"
  by (auto simp: deep_def set_title_def inprint_def split: option.splits SetType.splits)

lemma deep_lock_policy: "deep (Suc 0) (lock_policy p)"
  by (cases p) (auto intro!: deep_seq deep_nest shifty_basic)

lemma deep_locking: "deep (Suc 0) (printLocking c)"
  by (cases c) (auto intro!: deep_seq deep_nest deep_if_vec shifty_basic deep_lock_policy)

lemma deep_group: "deep (Suc 0) (printGroupBy sd gb)"
  by (cases gb) (auto intro!: deep_seq deep_nest deep_titled shifty_basic shifty_each_map printers_shifty simp: ptr.set_map)

lemma deep_limit: "deep (Suc 0) (printSetLimit sd ld lt ot)"
  by (cases ld) (auto intro!: deep_seq deep_titled printers_shifty simp: ptr.set_map)

lemma deep_set_operation: "deep (Suc 0) (printSetOperation sd so)"
  by (cases so) (auto intro!: deep_seq deep_nest deep_if_vec deep_set_title deep_ptr deep_limit shifty_ptr shifty_basic
        shifty_each_map printers_shifty simp: ptr.set_map)

lemmas deep_parts = deep_group deep_limit deep_set_operation

lemma seq_Cons_Inr:
  "seq (f # fs) n = Inr ls \<Longrightarrow> \<exists>as bs. f n = Inr as \<and> seq fs n = Inr bs \<and> ls = as @ bs"
  by (auto simp: seq.simps)

lemma deep_Inr: "deep (Suc 0) f \<Longrightarrow> f n = Inr ls \<Longrightarrow> \<forall>(m, t) \<in> set ls. n < m"
  by (fastforce simp: deep_def)

lemma deep_select_rest:
  assumes "printSelectStatementInfo sd s n = Inr ls"
  shows "\<exists>rest. ls = (n, ''SelectStatement'') # (n + 1, ''Fields:'') # rest \<and> (\<forall>(m, t) \<in> set rest. n < m)"
proof (cases s)
  case (SelectStatement x1 hs frm x4 sels whr grp sets ord wds lim locks)
  define fs where "fs = [nest 2 (each_print opt_print (map_ptr (map (map_ptr (printExpression sd))) sels)),
       titled ''Sources:'' (map_ptr (printTableRefInfo sd) frm),
       titled ''Search Conditions:'' (map_ptr (printExpression sd) whr),
       opt_print (map_ptr (printGroupBy sd) grp),
       if_vec locks (seq [nest 1 (inprint ''Lock Info:''),
         each_print must_print (map_ptr (map (map_ptr printLocking)) locks)]),
       if_vec sets (each_print must_print (map_ptr (map (map_ptr (printSetOperation sd))) sets)),
       if_vec ord (seq [nest 1 (inprint ''OrderBy:''),
         nest 2 (each_print must_print (map_ptr (map (map_ptr (printOrder sd))) ord))]),
       opt_print (map_ptr (\<lambda>f. f ''Limit:'' ''Offset:'') (map_ptr (printSetLimit sd) lim))]"
  have d: "deep (Suc 0) (seq fs)"
  proof (rule deep_seq)
    fix f
    assume "f \<in> set fs"
    then show "deep (Suc 0) f"
      by (auto simp: fs_def ptr.set_map
          intro!: deep_nest deep_titled deep_if_vec deep_ptr deep_parts deep_each_map deep_locking
            deep_seq shifty_basic shifty_each_map printers_shifty)
  qed
  have "printSelectStatementInfo sd s = seq (inprint ''SelectStatement'' # nest 1 (inprint ''Fields:'') # fs)"
    unfolding SelectStatement fs_def by simp
  with assms have "seq (inprint ''SelectStatement'' # nest 1 (inprint ''Fields:'') # fs) n = Inr ls" by simp
  then obtain rest where r: "seq fs n = Inr rest" and ls: "ls = (n, ''SelectStatement'') # (n + 1, ''Fields:'') # rest"
    by (auto dest!: seq_Cons_Inr simp: inprint_def nest_def)
  from deep_Inr [OF d r] ls show ?thesis by blast
qed

section \<open>Properties\<close>

text \<open>
  The printed outline of a query mirrors its nesting. Whenever a query prints without
  dereferencing a null pointer, its own line comes first at the given depth and everything else
  it prints, subqueries included, lies strictly deeper.
\<close>
lemma print_select_outline:
  assumes "printSelectStatementInfo sd s n = Inr ls"
  shows "\<exists>rest. ls = (n, ''SelectStatement'') # (n + 1, ''Fields:'') # rest \<and> (\<forall>(m, t) \<in> set rest. n < m)"
  by (rule deep_select_rest [OF assms])

lemma print_select_outline_witness:
  "\<exists>rest. printSelectStatementInfo (\<lambda>_. []) (SelectStatement None Null
       (Ptr (1 :: nat) (TableRef kTableName Null (Ptr 2 ''Book'') Null Null Null Null)) False
       (Ptr 3 [makeStar 4]) Null Null Null Null Null Null Null) 0 =
     Inr ((0, ''SelectStatement'') # (0 + 1, ''Fields:'') # rest) \<and> (\<forall>(m, t) \<in> set rest. 0 < m)"
proof -
  let ?s = "SelectStatement None Null
       (Ptr (1 :: nat) (TableRef kTableName Null (Ptr 2 ''Book'') Null Null Null Null)) False
       (Ptr 3 [makeStar 4]) Null Null Null Null Null Null Null"
  obtain ls where ls: "printSelectStatementInfo (\<lambda>_. []) ?s 0 = Inr ls"
    by (simp add: seq.simps inprint_def inprint_cstr_def nest_def titled_def if_vec_def each_print_def opt_print_def
        must_print_def makeStar_def Expr_new_def)
  from print_select_outline [OF this] show ?thesis unfolding ls by blast
qed

text \<open>
  The depth only shifts the output. Printing a query, a table reference or an expression
  \<open>k\<close> levels deeper gives the same lines, each with \<open>k\<close> more tabs, and fails exactly when printing
  at the original depth fails.
\<close>
lemma print_depth_shift:
  "printSelectStatementInfo sd s (n + k) = shift k (printSelectStatementInfo sd s n) \<and>
   printTableRefInfo sd t (n + k) = shift k (printTableRefInfo sd t n) \<and>
   printExpression sd e (n + k) = shift k (printExpression sd e n)"
  by (simp add: printers_shifty [unfolded shifty_def])

text \<open>
  The operator names the conditions of the optimizer use are the names the statement
  printer shows, and no two operators but the two minus signs share a printed name.
\<close>
lemma operator_names_agree:
  "(\<forall>op tok. operatorToToken op = Some tok \<longrightarrow> op_name op = tok) \<and>
   (\<forall>op op'. op_name op = op_name op' \<and> op \<noteq> op' \<longrightarrow> {op, op'} = {kOpMinus, kOpUnaryMinus})"
proof (intro conjI allI impI)
  fix op tok
  assume "operatorToToken op = Some tok"
  then show "op_name op = tok" by (cases op) auto
next
  fix op op'
  assume "op_name op = op_name op' \<and> op \<noteq> op'"
  then show "{op, op'} = {kOpMinus, kOpUnaryMinus}" by (cases op; cases op') auto
qed

lemma operator_names_agree_witness: "op_name kOpLessEq = ''<=''"
  using operator_names_agree [THEN conjunct1, rule_format, of kOpLessEq "''<=''"] by simp

end
