(* ===== verification/Dml_Routing.thy ===== *)
theory Dml_Routing
  imports Catalog Parser_Result Sql_Print
begin

text \<open>
  INSERT and DELETE, from createInsertSql, InsertProcess, StrSplit and DeleteProcess in
  db_server/optimizer/preprocess.h: to which sites a statement is sent. Both use the fragment
  test of the pruning theory through the interface sound_test.
\<close>

section \<open>The code\<close>

record DeleteSql =
  ds_sites :: "int list"
  ds_query :: string

record InsertSql =
  siteQuery :: "(int \<times> string) list"

text \<open>The fragments on which the test returns a non-empty list, in the order of the catalog.\<close>

type_synonym fragment_test = "Condition list \<Rightarrow> Condition list \<Rightarrow> int \<Rightarrow> (Condition list \<times> int) res"

fun routed_by :: "fragment_test \<Rightarrow> Fragment list \<Rightarrow> Condition list \<Rightarrow> Fragment list res" where
  "routed_by test [] pred = Inr []"
| "routed_by test (frag # frags) pred =
     rbind (test (frag_hf_condition frag) pred 0) (\<lambda>(conditions, cnt).
       rbind (routed_by test frags pred) (\<lambda>rest.
         Inr (if conditions = [] then rest else frag # rest)))"

definition index_of :: "'a list \<Rightarrow> 'a \<Rightarrow> nat" where
  "index_of xs x = length (takeWhile (\<lambda>y. y \<noteq> x) xs)"

definition createInsertSql :: "string list \<Rightarrow> string list \<Rightarrow> string list \<Rightarrow> string res" where
  "createInsertSql vf_column columns values =
     rbind (rfold (\<lambda>x (col, val).
         rbind (vat columns (index_of columns x)) (\<lambda>c.
         rbind (vat values (index_of columns x)) (\<lambda>v.
         Inr (col @ c @ '','', val @ v @ '','')))) vf_column (''('', ''(''))
       (\<lambda>(col, val).
         Inr (butlast col @ '')'' @ '' values'' @ butlast val @ '')'' @ '';''))"




text \<open>The two branches of \<open>InsertProcess\<close> once columns and values are collected.\<close>

definition insert_sites :: "metadataTable \<Rightarrow> string \<Rightarrow> string list \<Rightarrow> string list \<Rightarrow> Condition list \<Rightarrow> string
    \<Rightarrow> InsertSql res" where
  "insert_sites res tableName columns values pred query =
     (if mt_type res = ''hf''
      then rbind (routed_by check_condition (mt_frags res) pred) (\<lambda>fs.
        Inr \<lparr>siteQuery = map (\<lambda>f. (frag_site f, query)) fs\<rparr>)
      else rbind (rmap (\<lambda>f. rbind (createInsertSql (frag_vf_column f) columns values) (\<lambda>q.
             Inr (frag_site f, ''insert into '' @ tableName @ q))) (mt_frags res)) (\<lambda>sq.
        Inr \<lparr>siteQuery = sq\<rparr>))"


text \<open>
  \<open>StrSplit\<close> with the position advanced to the rest of the string. With an empty separator the
  loop of the code never ends.
\<close>

partial_function (option) StrSplit :: "string \<Rightarrow> string list \<Rightarrow> string \<Rightarrow> string list option" where
  "StrSplit s v c = (case find_from s c 0 of
       None \<Rightarrow> Some (if s = [] then v else v @ [s])
     | Some k \<Rightarrow> StrSplit (drop (k + length c) s) (v @ [take k s]) c)"

declare StrSplit.simps [code]

text \<open>The string surgery of \<open>DeleteProcess\<close>: the table name and the WHERE clause without blanks and quotes.\<close>

definition delete_clauses :: "string \<Rightarrow> (string \<times> string) res" where
  "delete_clauses query =
     rbind (substr query (pos_plus (str_find query ''from'') 5) None) (\<lambda>temp.
     rbind (substr temp (pos_plus (str_find temp ''where'') 6) None) (\<lambda>whereClause.
       Inr (prefix_upto temp (str_find temp '' ''),
            filter (\<lambda>c. c \<noteq> CHR 0x27) (filter (\<lambda>c. c \<noteq> CHR '' '') whereClause))))"

definition delete_sites :: "metadataTable \<Rightarrow> Condition list \<Rightarrow> int list res" where
  "delete_sites res Predicate =
     (if mt_type res = ''hf''
      then rbind (routed_by check_condition (mt_frags res) Predicate) (\<lambda>fs. Inr (map frag_site fs))
      else Inr (map frag_site (mt_frags res)))"

definition DeleteProcess :: "metadataTable list \<Rightarrow> string \<Rightarrow> DeleteSql res option" where
  "DeleteProcess Tables query =
     (case rbind (pop_back query) (\<lambda>q. rbind (delete_clauses q) (\<lambda>tw. Inr (q, tw))) of
        Inl e \<Rightarrow> Some (Inl e)
      | Inr (q, tableName, whereClause) \<Rightarrow>
          map_option (\<lambda>pred.
            rbind (findTable Tables tableName) (\<lambda>res.
            rbind (delete_sites res (map Condition_parse pred)) (\<lambda>sites.
              Inr \<lparr>ds_sites = sites, ds_query = q\<rparr>)))
          (StrSplit whereClause [] ''and''))"

section \<open>Splitting\<close>

lemma find_from_shift: "find_from s p (i + j) = map_option (\<lambda>k. k + j) (find_from s p i)"
  by (induction s arbitrary: i) (auto simp flip: add_Suc)

lemma StrSplit_last: "find_from s c 0 = None \<Longrightarrow> StrSplit s v c = Some (if s = [] then v else v @ [s])"
  by (subst StrSplit.simps) simp

lemma StrSplit_step:
  "find_from s c 0 = Some k \<Longrightarrow> StrSplit s v c = StrSplit (drop (k + length c) s) (v @ [take k s]) c"
  by (subst StrSplit.simps) simp

lemma StrSplit_total: "c \<noteq> [] \<Longrightarrow> \<exists>w. StrSplit s v c = Some (v @ w)"
proof (induction s arbitrary: v rule: length_induct)
  case (1 s)
  show ?case
  proof (cases "find_from s c 0")
    case None
    then show ?thesis by (simp add: StrSplit_last)
  next
    case (Some k)
    with find_from_Some [OF Some] 1(2) have "length (drop (k + length c) s) < length s"
      by (cases s) (auto simp: prefix_def)
    with 1 obtain w where "StrSplit (drop (k + length c) s) (v @ [take k s]) c = Some ((v @ [take k s]) @ w)" by blast
    with Some show ?thesis by (simp add: StrSplit_step)
  qed
qed

text \<open>No proper suffix of \<open>and\<close> begins an occurrence of it, so a part without \<open>and\<close> ends where the separator starts.\<close>

lemma find_and: "\<not> sublist ''and'' x \<Longrightarrow> find_from (x @ ''and'' @ rest) ''and'' i = Some (i + length x)"
proof (induction x arbitrary: i)
  case (Cons a x)
  then have x: "\<not> sublist ''and'' x" and np: "\<not> prefix ''and'' (a # x)" by (auto simp: sublist_Cons_right)
  have "\<not> prefix ''and'' ((a # x) @ ''and'' @ rest)"
  proof (cases x)
    case Nil
    then show ?thesis by simp
  next
    case (Cons b y)
    with np show ?thesis by (cases y) auto
  qed
  with Cons.IH [OF x] show ?case by simp
qed simp

lemma StrSplit_join:
  assumes "\<forall>x \<in> set xs. \<not> sublist ''and'' x" and "xs \<noteq> []" and "last xs \<noteq> []"
  shows "StrSplit (join_with ''and'' xs) v ''and'' = Some (v @ xs)"
  using assms
proof (induction xs arbitrary: v rule: induct_list012)
  case (2 x)
  then have "find_from x ''and'' 0 = None" by (simp add: find_from_None)
  with 2 show ?case by (simp add: StrSplit_last)
next
  case (3 x y ys)
  then have "find_from (x @ ''and'' @ join_with ''and'' (y # ys)) ''and'' 0 = Some (length x)"
    using find_and [of x "join_with ''and'' (y # ys)" 0] by simp
  with 3 show ?case by (simp add: StrSplit_step)
qed simp

section \<open>The fragment test as an interface\<close>



section \<open>Equality predicates\<close>







section \<open>The row of an INSERT\<close>










section \<open>Properties\<close>







text \<open>
  C25: an INSERT into the vertically fragmented \<open>Customer\<close> with plain column names always indexes
  past the end of the column list: the catalog stores the columns of a vertical fragment with
  the table name in front, and \<open>createInsertSql\<close> looks them up among the plain names.
\<close>
theorem insert_customer_out_of_bounds:
  assumes "''Customer.id'' \<notin> set columns"
  shows "insert_sites Customer_table ''Customer'' columns values pred query = Inl OutOfBounds"
proof -
  have "takeWhile (\<lambda>y. y \<noteq> ''Customer.id'') columns = columns" using assms by (auto simp: takeWhile_eq_all_conv)
  then have "index_of columns ''Customer.id'' = length columns" by (simp only: index_of_def)
  then show ?thesis
    by (simp add: insert_sites_def catalog_types createInsertSql_def vat_def
        Customer_table_def metadataTable_new_def vf_frag_def Fragment_new_def)
qed

theorem insert_customer_out_of_bounds_witness:
  "insert_sites Customer_table ''Customer'' [''id'', ''name''] [''1'', ''x''] [] ''q'' = Inl OutOfBounds"
  by (rule insert_customer_out_of_bounds) simp




text \<open>
  \<open>StrSplit\<close> inverts joining: a list of parts none of which contains \<open>and\<close> and whose last one
  is not empty is recovered from the parts joined by \<open>and\<close>.
\<close>
lemma StrSplit_and_roundtrip:
  assumes "\<forall>x \<in> set xs. \<not> sublist ''and'' x" and "xs \<noteq> []" and "last xs \<noteq> []"
  shows "StrSplit (join_with ''and'' xs) [] ''and'' = Some xs"
  using StrSplit_join [OF assms, of "[]"] by simp

lemma StrSplit_and_roundtrip_witness:
  "StrSplit ''Book.id>3andBook.id<9'' [] ''and'' = Some [''Book.id>3'', ''Book.id<9'']"
  using StrSplit_and_roundtrip [of "[''Book.id>3'', ''Book.id<9'']"] by (simp add: sublist_Cons_right)

text \<open>
  \<open>DeleteProcess\<close> always returns: with the separator \<open>and\<close> the splitting loop ends on every
  string, so every query gives a result or an error.
\<close>
lemma DeleteProcess_returns: "\<exists>x. DeleteProcess Tables query = Some x"
proof -
  have "\<exists>w. StrSplit s [] ''and'' = Some w" for s
    using StrSplit_total [of "''and''" s "[]"] by auto
  then show ?thesis by (auto simp: DeleteProcess_def split: sum.splits)
qed

end
