(* ===== verification/Query_Tree.thy ===== *)
theory Query_Tree
  imports Join_Order Dml_Routing
begin

text \<open>
  The construction of a query tree, optimizer/preprocess.h lines 43 to 141 and 499 to 884: the nodes and their printed
  form, the phases of build_query_tree (star expansion, transferred predicates, pruned fragments of every table, edges
  between fragments that can join, process sites, joins of merged patterns, and the closing union) and SelectProcess.
\<close>

section \<open>Nodes\<close>

record treeNode =
  tn_parent :: int
  tn_child :: "int list"
  tn_type :: string
  tn_site :: int
  tn_size :: int
  tn_fname :: frag
  tn_join :: joinCell
  tn_attr :: "string list"
  tn_projection :: "string list"
  tn_select :: "Condition list"

definition treeNode_frag :: "string \<Rightarrow> frag \<Rightarrow> int \<Rightarrow> int \<Rightarrow> string list \<Rightarrow> Condition list \<Rightarrow> treeNode" where
  "treeNode_frag type fname sz site attr select =
     \<lparr>tn_parent = - 1, tn_child = [], tn_type = type, tn_site = site, tn_size = sz, tn_fname = fname,
      tn_join = joinCell_new [] [] [] [], tn_attr = attr, tn_projection = [], tn_select = select\<rparr>"

definition treeNode_op :: "string \<Rightarrow> int \<Rightarrow> treeNode" where
  "treeNode_op type site = treeNode_frag type ([], 0) 0 site [] []"

record Tree =
  tree_tr :: "treeNode list"
  tree_root :: int

section \<open>Printing\<close>

text \<open>\<open>Condition::getStr\<close> and \<open>show_Condition\<close> are called but not declared in the sources: they are the argument \<open>cstr\<close>.\<close>

fun projection_items :: "nat \<Rightarrow> string list \<Rightarrow> string" where
  "projection_items cnt [] = []"
| "projection_items cnt (x # xs) =
     x @ '','' @ (if (cnt + 1) mod 2 = 0 then [CHR 0x09] else []) @ projection_items (cnt + 1) xs"

fun strip_back :: "string \<Rightarrow> string" where
  "strip_back [] = []"
| "strip_back (c # s) = (if c = CHR 0x09 \<or> c = CHR '','' then strip_back s else c # s)"

definition getStr :: "(Condition \<Rightarrow> string) \<Rightarrow> treeNode \<Rightarrow> string" where
  "getStr cstr n =
     (let res = (if tn_type n = ''Fragment''
                 then tn_type n @ '' '' @ fst (tn_fname n) @ to_string (snd (tn_fname n)) @ [CHR 0x09]
                 else tn_type n @ [CHR 0x09]);
          res = (if tn_projection n = [] then res
                 else rev (strip_back (rev (res @ ''Projection('' @ projection_items 0 (tn_projection n)))) @ '') '' @ [CHR 0x09]);
          res = (if tn_select n = [] then res
                 else butlast (butlast (res @ ''Select('' @ concat (map (\<lambda>x. cstr x @ '','' @ [CHR 0x09]) (tn_select n)))) @ '') '' @ [CHR 0x09]);
          res = res @ ''|'' @ to_string (tn_site n) @ ''|'' @ concat (map (\<lambda>x. to_string x @ '','') (tn_child n))
      in if last res = CHR '','' then butlast res else res)"

text \<open>The text of \<open>print.txt\<close>; the script run on it is not part of the model.\<close>

definition createPrintFile :: "(Condition \<Rightarrow> string) \<Rightarrow> Tree \<Rightarrow> string list" where
  "createPrintFile cstr t =
     map (\<lambda>(i, n). to_string (int i) @ ''|'' @ getStr cstr n) (enumerate 0 (tree_tr t))"

definition print_line :: "string list \<Rightarrow> string" where
  "print_line xs = concat (map (\<lambda>x. x @ '' '') xs)"

definition show_treeNode :: "(Condition \<Rightarrow> string) \<Rightarrow> treeNode \<Rightarrow> string list" where
  "show_treeNode cstr n =
     [''-------------------------------'', ''Father: '' @ to_string (tn_parent n), ''Type: '' @ tn_type n,
      ''Size: '' @ to_string (tn_size n), ''Site: '' @ to_string (tn_site n),
      ''Fname: '' @ fst (tn_fname n) @ '' '' @ to_string (snd (tn_fname n)),
      ''Child: '', print_line (map to_string (tn_child n)), ''Attributes: '', print_line (tn_attr n),
      ''Projection: '', print_line (tn_projection n), ''Select: '', concat (map cstr (tn_select n))]"

definition show_tree :: "(Condition \<Rightarrow> string) \<Rightarrow> Tree \<Rightarrow> string list" where
  "show_tree cstr t = (''Root: '' @ to_string (tree_root t)) #
     concat (map (\<lambda>(i, n). (''treeNode id: '' @ to_string (int i)) # show_treeNode cstr n) (enumerate 0 (tree_tr t)))"

section \<open>Sharing fragments\<close>

definition tr_at :: "treeNode list \<Rightarrow> int \<Rightarrow> treeNode res" where
  "tr_at tr i = (if 0 \<le> i then vat tr (nat i) else Inl OutOfBounds)"

definition set_parent :: "int \<Rightarrow> int \<Rightarrow> treeNode list \<Rightarrow> treeNode list res" where
  "set_parent i p tr = rbind (tr_at tr i) (\<lambda>n. Inr (tr[nat i := n\<lparr>tn_parent := p\<rparr>]))"

text \<open>The first use of a fragment is its own node, every later use a fresh copy without children.\<close>

definition get_treeNode :: "(frag \<times> int) list \<Rightarrow> frag \<Rightarrow> (frag \<times> int) list \<times> treeNode list
    \<Rightarrow> (int \<times> (frag \<times> int) list \<times> treeNode list) res" where
  "get_treeNode mpTr x s = (case s of (cpTr, tr) \<Rightarrow>
     if omap_get 0 cpTr x = 0 then Inr (omap_get 0 mpTr x, omap_set x 1 cpTr, tr)
     else rbind (tr_at tr (omap_get 0 mpTr x)) (\<lambda>node.
       Inr (int (length tr), cpTr, tr @ [node\<lparr>tn_child := [], tn_parent := - 1\<rparr>])))"

definition node_attrs :: "treeNode \<Rightarrow> string list" where
  "node_attrs n = (if tn_projection n \<noteq> [] then tn_projection n else tn_attr n)"

definition get_attr :: "treeNode \<Rightarrow> treeNode \<Rightarrow> string list" where
  "get_attr x y = sort_unique (node_attrs x @ node_attrs y)"

definition get_projection :: "string list \<Rightarrow> string list \<Rightarrow> string \<Rightarrow> string list" where
  "get_projection Select_Attr attr x = (if x \<in> set Select_Attr then [] else removeAll x attr)"

section \<open>The fragments of a query\<close>

text \<open>\<open>SELECT *\<close>: the star is replaced by the attributes of the first table.\<close>

definition star_attrs :: "metadataTable list \<Rightarrow> string list \<Rightarrow> string list \<Rightarrow> string list \<Rightarrow> (string list \<times> string list) res" where
  "star_attrs Tables fromTable Select_Attr all_attr =
     rbind (vat Select_Attr 0) (\<lambda>a.
       if a \<noteq> ''*'' then Inr (Select_Attr, all_attr)
       else rbind (vat fromTable 0) (\<lambda>t. rbind (findTable Tables t) (\<lambda>res.
         if ''*'' \<notin> set all_attr then Inl OutOfBounds
         else Inr (butlast Select_Attr @ mt_attrs res,
                fold (\<lambda>x A. if x \<in> set A then A else A @ [x]) (mt_attrs res) (remove1 ''*'' all_attr)))))"

definition join_attrs :: "joinCell list \<Rightarrow> string list" where
  "join_attrs joins = concat (map (\<lambda>x. [ltab x @ ''.'' @ lcol x, rtab x @ ''.'' @ rcol x]) joins)"

text \<open>A predicate on one side of a join is copied to the other side.\<close>

definition transfer_pred :: "Condition \<Rightarrow> joinCell \<Rightarrow> Condition list res" where
  "transfer_pred p x =
     (let res = joinCell_find x (cond_table p) (cond_attr p); dot = str_find res ''.'' in
      if res = [] then Inr []
      else rbind (substr res 0 dot) (\<lambda>tab. rbind (substr res (pos_plus dot 1) None) (\<lambda>attr.
        let cur = (Condition_tok (cond_opt p) tab attr)\<lparr>cond_type := cond_type p\<rparr> in
        Inr [if cond_type p = ''int'' then cur\<lparr>cond_ival := cond_ival p\<rparr> else cur\<lparr>cond_sval := cond_sval p\<rparr>])))"

definition add_preds :: "Condition list \<Rightarrow> joinCell list \<Rightarrow> Condition list res" where
  "add_preds preds joins =
     rbind (rmap (\<lambda>p. rbind (rmap (transfer_pred p) joins) (\<lambda>cs'. Inr (concat cs'))) preds) (\<lambda>added.
       Inr (preds @ concat added))"

text \<open>The local variables the loop over the tables fills.\<close>

record build =
  bd_tr :: "treeNode list"
  bd_mpTr :: "(frag \<times> int) list"
  bd_pruning :: "(string \<times> Fragment list) list"
  bd_relationSize :: "(string \<times> int) list"
  bd_siteNums :: "siteNum list"
  bd_allFrag :: "frag list"

definition build_new :: build where
  "build_new = \<lparr>bd_tr = [], bd_mpTr = [], bd_pruning = [], bd_relationSize = [],
     bd_siteNums = map siteNum_new [1, 2, 3, 4], bd_allFrag = []\<rparr>"

text \<open>The query as the loop sees it, after the steps above.\<close>

record query =
  q_Select_Attr :: "string list"
  q_All_Attr :: "string list"
  q_Join_Attr :: "string list"
  q_Predicate :: "Condition list"

definition push_frag :: "string \<Rightarrow> Fragment \<Rightarrow> build \<Rightarrow> build" where
  "push_frag table frag b = b\<lparr>bd_pruning := omap_set table (omap_get [] (bd_pruning b) table @ [frag]) (bd_pruning b)\<rparr>"

text \<open>\<open>siteNums[site - 1].add_relation\<close>, \<open>allFrag.push_back\<close> and \<open>mpTr[fname] = tr.size() - 1\<close>.\<close>

definition enlist :: "string \<Rightarrow> int \<Rightarrow> int \<Rightarrow> frag \<Rightarrow> build \<Rightarrow> build res" where
  "enlist table site sz fname b =
     (if site < 1 \<or> int (length (bd_siteNums b)) < site then Inl OutOfBounds
      else Inr (b\<lparr>bd_siteNums := (bd_siteNums b)[nat (site - 1) := add_relation table sz (bd_siteNums b ! nat (site - 1))],
                  bd_allFrag := bd_allFrag b @ [fname],
                  bd_mpTr := omap_set fname (int (length (bd_tr b)) - 1) (bd_mpTr b)\<rparr>))"

definition push_node :: "treeNode \<Rightarrow> build \<Rightarrow> build" where
  "push_node n b = b\<lparr>bd_tr := bd_tr b @ [n]\<rparr>"

definition wanted :: "query \<Rightarrow> string \<Rightarrow> bool" where
  "wanted q x = (x \<in> set (q_Select_Attr q) \<or> x \<in> set (q_Join_Attr q))"

definition hf_node :: "query \<Rightarrow> metadataTable \<Rightarrow> Fragment \<Rightarrow> Condition list \<Rightarrow> treeNode" where
  "hf_node q table frag conditions =
     (let proj = filter (wanted q) (mt_attrs table) in
      (treeNode_frag ''Fragment'' (frag_fname frag) (frag_size frag) (frag_site frag) (mt_attrs table) conditions)
        \<lparr>tn_projection := if length proj = length (mt_attrs table) then [] else proj\<rparr>)"

definition hf_fragment :: "query \<Rightarrow> metadataTable \<Rightarrow> Fragment \<Rightarrow> build \<Rightarrow> build res" where
  "hf_fragment q table frag b =
     rbind (check_condition (frag_hf_condition frag) (q_Predicate q) 0) (\<lambda>(conditions, cnt).
       if conditions = [] \<and> q_Predicate q \<noteq> [] then Inr b
       else let conditions = (if cnt = int (length (frag_hf_condition frag)) then [] else conditions);
                b = push_frag (mt_name table) frag (push_node (hf_node q table frag conditions) b);
                b = b\<lparr>bd_relationSize := omap_set (mt_name table)
                        (omap_get 0 (bd_relationSize b) (mt_name table) + frag_size frag) (bd_relationSize b)\<rparr>
            in enlist (mt_name table) (frag_site frag) (frag_size frag) (frag_fname frag) b)"

definition hf_table :: "query \<Rightarrow> metadataTable \<Rightarrow> build \<Rightarrow> build res" where
  "hf_table q table b =
     rfold (hf_fragment q table) (mt_frags table) (b\<lparr>bd_relationSize := omap_set (mt_name table) 0 (bd_relationSize b)\<rparr>)"

text \<open>A vertical fragment takes part when the query names one of its columns besides the key.\<close>

definition vf_fragment :: "query \<Rightarrow> metadataTable \<Rightarrow> Fragment \<Rightarrow> (nat \<times> build) \<Rightarrow> nat \<times> build" where
  "vf_fragment q table frag cb = (case cb of (cnt, b) \<Rightarrow>
     let res = filter (\<lambda>x. cond_table x = mt_name table) (q_Predicate q);
         sel = concat (map (\<lambda>x. filter (\<lambda>p. cond_table p @ ''.'' @ cond_attr p = x) res) (frag_vf_column frag));
         used = filter (\<lambda>x. x \<in> set (q_All_Attr q)) (frag_vf_column frag);
         vf_attr = filter (wanted q) used;
         node = treeNode_frag ''Fragment'' (frag_fname frag) (frag_size frag) (frag_site frag) (frag_vf_column frag) sel
     in if \<exists>x \<in> set used. x \<noteq> mt_name table @ ''.'' @ mt_key_column table
        then (cnt + 1, push_frag (mt_name table) frag
               (push_node (if frag_vf_column frag \<noteq> vf_attr then node\<lparr>tn_projection := vf_attr\<rparr> else node) b))
        else (cnt, b))"

text \<open>
  Several vertical fragments are joined on the key. The loop over the last \<open>cnt\<close> nodes runs from the last one
  backwards; it sees to it that each keeps the key and finds the site of the largest.
\<close>

definition keep_key :: "string \<Rightarrow> treeNode \<Rightarrow> treeNode" where
  "keep_key key n =
     (if tn_projection n \<noteq> [] \<and> key \<notin> set (tn_projection n)
      then let proj = tn_projection n @ [key] in n\<lparr>tn_projection := if length proj = length (tn_attr n) then [] else proj\<rparr>
      else n)"

definition largest_site :: "treeNode list \<Rightarrow> int option" where
  "largest_site ns = snd (fold (\<lambda>n (mx, ans). if tn_size n \<ge> mx then (tn_size n, Some (tn_site n)) else (mx, ans)) ns (0, None))"

definition drop_frags :: "nat \<Rightarrow> string \<Rightarrow> build \<Rightarrow> build" where
  "drop_frags cnt table b = b\<lparr>bd_pruning := omap_set table
     (let fs = omap_get [] (bd_pruning b) table in take (length fs - cnt) fs) (bd_pruning b)\<rparr>"

definition vf_join_node :: "query \<Rightarrow> metadataTable \<Rightarrow> Fragment \<Rightarrow> int \<Rightarrow> treeNode list \<Rightarrow> treeNode" where
  "vf_join_node q table frag0 site pieces =
     (let vf_attr = sort_unique (concat (map tn_attr pieces)); proj = filter (wanted q) vf_attr in
      (treeNode_frag ''Join'' (frag_fname frag0) (frag_size frag0) site vf_attr [])
        \<lparr>tn_projection := if proj = vf_attr then [] else proj,
         tn_join := joinCell_new (mt_name table) (mt_key_column table) (mt_name table) (mt_key_column table)\<rparr>)"

definition vf_join :: "query \<Rightarrow> metadataTable \<Rightarrow> Fragment \<Rightarrow> nat \<Rightarrow> build \<Rightarrow> build res" where
  "vf_join q table frag0 cnt b =
     (let sz = length (bd_tr b);
          old = take (sz - cnt) (bd_tr b);
          pieces = map (keep_key (mt_name table @ ''.'' @ mt_key_column table)) (drop (sz - cnt) (bd_tr b))
      in case largest_site (rev pieces) of
           None \<Rightarrow> Inl UninitRead
         | Some site \<Rightarrow>
             let node = (vf_join_node q table frag0 site (rev pieces))\<lparr>tn_child := rev (map int [sz - cnt..<sz])\<rparr>;
                 b = drop_frags cnt (mt_name table) b;
                 b = b\<lparr>bd_tr := old @ map (\<lambda>n. n\<lparr>tn_parent := int sz\<rparr>) pieces @ [node]\<rparr>
             in enlist (mt_name table) 1 (frag_size frag0) (frag_fname frag0) (push_frag (mt_name table) frag0 b))"

definition vf_table :: "query \<Rightarrow> metadataTable \<Rightarrow> build \<Rightarrow> build res" where
  "vf_table q table b =
     rbind (vat (mt_frags table) 0) (\<lambda>frag0.
       let b = b\<lparr>bd_relationSize := omap_set (mt_name table) (frag_size frag0) (bd_relationSize b)\<rparr>;
           res = filter (\<lambda>x. cond_table x = mt_name table) (q_Predicate q);
           (cnt, b) = fold (vf_fragment q table) (mt_frags table) (0, b)
       in if cnt > 1 then vf_join q table frag0 cnt b
          else if cnt = 1 then let node = last (bd_tr b) in enlist (mt_name table) (tn_site node) (tn_size node) (tn_fname node) b
          else enlist (mt_name table) 1 (frag_size frag0) (frag_fname frag0)
                 (push_frag (mt_name table) frag0 (push_node
                   ((treeNode_frag ''Fragment'' (frag_fname frag0) (frag_size frag0) 1 (frag_vf_column frag0) res)
                      \<lparr>tn_projection := [mt_key_column table]\<rparr>) b)))"

definition add_table :: "query \<Rightarrow> string list \<Rightarrow> metadataTable \<Rightarrow> build \<Rightarrow> build res" where
  "add_table q fromTable table b =
     (if mt_name table \<notin> set fromTable then Inr b
      else if mt_type table = ''hf'' then hf_table q table b else vf_table q table b)"

section \<open>Edges between fragments\<close>

definition set_edge :: "frag \<Rightarrow> frag \<Rightarrow> int \<Rightarrow> edges \<Rightarrow> edges" where
  "set_edge x y v e = omap_set x (omap_set y v (omap_get [] e x)) e"

definition get_edge :: "edges \<Rightarrow> frag \<Rightarrow> frag \<Rightarrow> int" where
  "get_edge e x y = omap_get 0 (omap_get [] e x) y"

text \<open>Whether two conditions on the joined columns can hold together.\<close>

definition conds_meet :: "Condition \<Rightarrow> Condition \<Rightarrow> bool res" where
  "conds_meet conx cony =
     (if cond_type conx = ''string'' then Inr (cond_sval conx = cond_sval cony)
      else case (get_section conx None, get_section cony None) of
        (Some (a1, b1), Some (a2, b2)) \<Rightarrow> Inr (max a1 a2 \<le> min b1 b2)
      | _ \<Rightarrow> Inl UninitRead)"

definition joinable :: "joinCell \<Rightarrow> Fragment \<Rightarrow> Fragment \<Rightarrow> bool res" where
  "joinable p x y =
     (if frag_type x \<noteq> frag_type y then Inr True
      else let idxs = findAttr (frag_hf_condition x) (ltab p) (lcol p);
               idys = findAttr (frag_hf_condition y) (rtab p) (rcol p)
           in if min (hd idxs) (hd idys) = - 1 then Inr True
              else rfold (\<lambda>(idx, idy) mark. rbind (vat (frag_hf_condition x) (nat idx)) (\<lambda>conx.
                     rbind (vat (frag_hf_condition y) (nat idy)) (\<lambda>cony.
                       rbind (conds_meet conx cony) (\<lambda>ok. Inr (mark \<and> ok))))) (List.product idxs idys) True)"

definition link_frags :: "joinCell \<Rightarrow> Fragment \<times> Fragment \<Rightarrow> edges \<times> edges \<Rightarrow> (edges \<times> edges) res" where
  "link_frags p xy ec = (case (xy, ec) of ((x, y), (edge, conflict)) \<Rightarrow>
     rbind (joinable p x y) (\<lambda>mark. Inr (if mark then (set_edge (frag_fname x) (frag_fname y) 1 edge, conflict)
       else (edge, set_edge (frag_fname y) (frag_fname x) 1 (set_edge (frag_fname x) (frag_fname y) 1 conflict)))))"

definition build_edges :: "build \<Rightarrow> joinCell list \<Rightarrow> (edges \<times> edges) res" where
  "build_edges b joins =
     rfold (\<lambda>p. rfold (link_frags p) (List.product (omap_get [] (bd_pruning b) (ltab p)) (omap_get [] (bd_pruning b) (rtab p)))) joins
       ([], fold (\<lambda>(i, j). set_edge i j 0) (List.product (bd_allFrag b) (bd_allFrag b)) [])"

definition join_lists :: "build \<Rightarrow> joinCell list \<Rightarrow> edges \<Rightarrow> frag list list" where
  "join_lists b joins edge =
     (if joins = [] then []
      else concat (map (\<lambda>x. get_joinList (length joins) edge (frag_fname x) [frag_fname x])
             (omap_get [] (bd_pruning b) (ltab (joins ! 0)))))"

definition relation :: "joinCell list \<Rightarrow> string list" where
  "relation joins = (if joins = [] then [] else map ltab joins @ [rtab (last joins)])"

section \<open>Sites\<close>

text \<open>\<open>max_element\<close> with \<open>cmp\<close>: the first of the largest; on an empty map the end is dereferenced.\<close>

fun max_relation :: "(string \<times> int) list \<Rightarrow> (string \<times> int) res" where
  "max_relation [] = Inl OutOfBounds"
| "max_relation (x # xs) = Inr (fold (\<lambda>y m. if snd m < snd y then y else m) xs x)"

definition shipped :: "metadataTable list \<Rightarrow> build \<Rightarrow> edges \<Rightarrow> string \<Rightarrow> siteNum \<Rightarrow> int" where
  "shipped Tables b conflict Rp x =
     sum_list (map (\<lambda>tab.
       (if mt_name tab \<noteq> Rp then omap_get 0 (bd_relationSize b) (mt_name tab) - omap_get 0 (sn_rSize x) (mt_name tab) else 0) -
       sum_list (map frag_size (filter (\<lambda>f. frag_site f \<noteq> sn_site x \<and> get_edge conflict (Rp, sn_site x) (frag_fname f) \<noteq> 0)
         (omap_get [] (bd_pruning b) (mt_name tab))))) Tables)"

definition process_sites :: "metadataTable list \<Rightarrow> build \<Rightarrow> edges \<Rightarrow> string \<Rightarrow> siteNum list \<Rightarrow> int list" where
  "process_sites Tables b conflict Rp sites =
     map sn_site (takeWhile (\<lambda>x. shipped Tables b conflict Rp x \<le> omap_get 0 (sn_rSize x) Rp) sites)"

fun lead_swaps :: "siteNum list \<Rightarrow> nat list \<Rightarrow> int list \<Rightarrow> int list res" where
  "lead_swaps sites [] ps = Inr ps"
| "lead_swaps sites (i # is') ps =
     rbind (find_site_total sites (ps ! i)) (\<lambda>a. rbind (find_site_total sites (ps ! 0)) (\<lambda>b.
       lead_swaps sites is' (if a > b then list_swap 0 i ps else ps)))"

definition processSite :: "metadataTable list \<Rightarrow> build \<Rightarrow> edges \<Rightarrow> siteNum list \<Rightarrow> int list res" where
  "processSite Tables b conflict sites =
     rbind (max_relation (bd_relationSize b)) (\<lambda>Rp.
     rbind (case process_sites Tables b conflict (fst Rp) sites of
              [] \<Rightarrow> rbind (vat sites 0) (\<lambda>s. Inr [sn_site s]) | ps \<Rightarrow> Inr ps) (\<lambda>ps.
       lead_swaps sites [0..<length ps] ps))"

text \<open>Where a join list runs: at the process site that holds its largest relation, by the number of the fragment.\<close>

definition list_site :: "siteNum list \<Rightarrow> int list \<Rightarrow> frag list \<Rightarrow> int res" where
  "list_site sites ps x =
     rbind (rfold (\<lambda>y (cnt, mx, mxSite).
         if snd y \<in> set ps
         then rbind (find_site sites (snd y)) (\<lambda>cur. Inr
           (if omap_get 0 (sn_rSize cur) (fst y) > mx then (cnt + 1, omap_get 0 (sn_rSize cur) (fst y), snd y)
            else (cnt + 1, mx, mxSite)))
         else Inr (cnt, mx, mxSite)) x (0 :: nat, 0, 0)) (\<lambda>(cnt, mx, mxSite).
       if cnt = 0 then vat ps 0 else Inr mxSite)"

definition join_sites :: "siteNum list \<Rightarrow> int list \<Rightarrow> frag list list \<Rightarrow> (int \<times> frag list list) list res" where
  "join_sites sites ps JoinList =
     rfold (\<lambda>x JoinSite. rbind (list_site sites ps x) (\<lambda>m. Inr (omap_set m (omap_get [] JoinSite m @ [x]) JoinSite))) JoinList []"

section \<open>Joining\<close>

text \<open>The state of this phase: which fragments have been used, and the nodes.\<close>

type_synonym jstate = "(frag \<times> int) list \<times> treeNode list"

definition add_child :: "int \<Rightarrow> int \<Rightarrow> treeNode list \<Rightarrow> treeNode list res" where
  "add_child par idx tr =
     rbind (tr_at tr par) (\<lambda>p. rbind (tr_at tr idx) (\<lambda>n.
       set_parent idx par (tr[nat par := p\<lparr>tn_child := tn_child p @ [idx], tn_attr := node_attrs n\<rparr>])))"

definition union_one :: "(frag \<times> int) list \<Rightarrow> int \<Rightarrow> frag \<Rightarrow> jstate \<Rightarrow> jstate res" where
  "union_one mpTr par x s =
     rbind (get_treeNode mpTr x s) (\<lambda>(idx, cpTr, tr). rbind (add_child par idx tr) (\<lambda>tr. Inr (cpTr, tr)))"

definition operand :: "(frag \<times> int) list \<Rightarrow> int \<Rightarrow> string \<times> int list \<Rightarrow> int list \<times> jstate \<Rightarrow> (int list \<times> jstate) res" where
  "operand mpTr site rp st = (case (rp, st) of ((rel, nums), (ids, cpTr, tr)) \<Rightarrow>
     if length nums = 1
     then rbind (get_treeNode mpTr (rel, nums ! 0) (cpTr, tr)) (\<lambda>(idx, s). Inr (ids @ [idx], s))
     else rbind (rfold (union_one mpTr (int (length tr))) (map (Pair rel) nums) (cpTr, tr @ [treeNode_op ''Union'' site])) (\<lambda>s.
            Inr (ids @ [int (length tr)], s)))"

definition lattr :: "joinCell \<Rightarrow> string" where
  "lattr j = ltab j @ ''.'' @ lcol j"

definition rattr :: "joinCell \<Rightarrow> string" where
  "rattr j = rtab j @ ''.'' @ rcol j"

text \<open>Joining the node \<open>par\<close> with the operand \<open>t\<close>; \<open>next\<close> is the following join, if any.\<close>

definition join_pair :: "string list \<Rightarrow> int \<Rightarrow> joinCell \<Rightarrow> joinCell option \<Rightarrow> int \<Rightarrow> int \<Rightarrow> treeNode list \<Rightarrow> (int \<times> treeNode list) res" where
  "join_pair Select_Attr site j next' par t tr =
     rbind (tr_at tr par) (\<lambda>l. rbind (tr_at tr t) (\<lambda>r.
       let attr = get_attr l r;
           proj = get_projection Select_Attr attr (lattr j);
           proj = (if (case next' of None \<Rightarrow> True | Some k \<Rightarrow> rattr j \<noteq> lattr k) then get_projection Select_Attr proj (rattr j) else proj);
           node = (treeNode_op ''Join'' site)\<lparr>tn_join := j, tn_child := [par, t], tn_attr := attr, tn_projection := proj\<rparr>;
           cpar = int (length tr)
       in rbind (set_parent par cpar (tr @ [node])) (\<lambda>tr. rbind (set_parent t cpar tr) (\<lambda>tr. Inr (cpar, tr)))))"

fun join_rest :: "string list \<Rightarrow> int \<Rightarrow> joinCell list \<Rightarrow> int list \<Rightarrow> int \<times> treeNode list \<Rightarrow> (int \<times> treeNode list) res" where
  "join_rest Select_Attr site (j # js) (t # ts) (par, tr) =
     rbind (join_pair Select_Attr site j (case js of [] \<Rightarrow> None | k # _ \<Rightarrow> Some k) par t tr) (join_rest Select_Attr site js ts)"
| "join_rest Select_Attr site _ _ s = Inr s"

definition join_pattern :: "string list \<Rightarrow> (frag \<times> int) list \<Rightarrow> joinCell list \<Rightarrow> int \<Rightarrow> pattern \<Rightarrow> jstate \<Rightarrow> jstate res" where
  "join_pattern Select_Attr mpTr joins site plist s =
     rbind (rfold (operand mpTr site) (zip (relation joins) plist) ([], s)) (\<lambda>(ids, cpTr, tr).
       case ids of
         t0 # ts \<Rightarrow> rbind (join_rest Select_Attr site joins ts (t0, tr)) (\<lambda>(_, tr). Inr (cpTr, tr))
       | [] \<Rightarrow> Inl OutOfBounds)"

definition join_at_site :: "string list \<Rightarrow> (frag \<times> int) list \<Rightarrow> joinCell list \<Rightarrow> (int \<times> frag list list) list \<Rightarrow> int \<Rightarrow> jstate \<Rightarrow> jstate res" where
  "join_at_site Select_Attr mpTr joins JoinSite i s =
     (if omap_get [] JoinSite i = [] then Inr s
      else rbind (get_pattern (omap_get [] JoinSite i) (length joins + 1)) (\<lambda>res.
             rfold (join_pattern Select_Attr mpTr joins i) res s))"

section \<open>The root\<close>

definition orphans :: "treeNode list \<Rightarrow> nat list" where
  "orphans tr = filter (\<lambda>i. tn_parent (tr ! i) = - 1) [0..<length tr]"

definition close_tree :: "string list \<Rightarrow> int \<Rightarrow> treeNode list \<Rightarrow> Tree" where
  "close_tree Select_Attr site tr =
     (let num = length tr; os = orphans tr in
      if length os > 1
      then let root = (treeNode_op ''Union'' site)\<lparr>tn_child := map int os,
                        tn_attr := fold (\<lambda>i a. sort_unique (a @ node_attrs (tr ! i))) os []\<rparr>;
               root = (if length (tn_attr root) \<noteq> length Select_Attr then root\<lparr>tn_projection := Select_Attr\<rparr> else root)
           in \<lparr>tree_tr = map (\<lambda>n. if tn_parent n = - 1 then n\<lparr>tn_parent := int num\<rparr> else n) tr @ [root], tree_root = int num\<rparr>
      else \<lparr>tree_tr = tr, tree_root = int num - 1\<rparr>)"

definition plan_joins :: "metadataTable list \<Rightarrow> string list \<Rightarrow> joinCell list \<Rightarrow> build \<Rightarrow> Tree res" where
  "plan_joins Tables Select_Attr joins0 b =
     (let sites = sort_sites (bd_siteNums b); joins = sortJoin joins0 in
      rbind (build_edges b joins) (\<lambda>(edge, conflict).
      rbind (processSite Tables b conflict sites) (\<lambda>ps.
      rbind (join_sites sites ps (join_lists b joins edge)) (\<lambda>JoinSite.
      rbind (rfold (join_at_site Select_Attr (bd_mpTr b) joins JoinSite) [1, 2, 3, 4] ([], bd_tr b)) (\<lambda>(_, tr).
      rbind (vat ps 0) (\<lambda>site. Inr (close_tree Select_Attr site tr)))))))"

definition build_query_tree :: "metadataTable list \<Rightarrow> string list \<Rightarrow> string list \<Rightarrow> string list \<Rightarrow> Condition list \<Rightarrow> joinCell list \<Rightarrow> Tree res" where
  "build_query_tree Tables fromTable Select_Attr all_attr preds joins =
     rbind (star_attrs Tables fromTable Select_Attr all_attr) (\<lambda>(sel, alls).
     rbind (add_preds preds joins) (\<lambda>preds.
       let q = \<lparr>q_Select_Attr = sel, q_All_Attr = alls, q_Join_Attr = join_attrs joins, q_Predicate = preds\<rparr> in
       rbind (rfold (add_table q fromTable) Tables build_new) (plan_joins Tables sel joins)))"

fun as_SelectStatement :: "'l Statement \<Rightarrow> 'l SelectStatement res" where
  "as_SelectStatement (SelectStmt s) = Inr s"
| "as_SelectStatement _ = Inl BadCast"

definition SelectProcess :: "(64 word \<Rightarrow> string) \<Rightarrow> metadataTable list \<Rightarrow> 'l SQLParserResult \<Rightarrow> Tree res" where
  "SelectProcess sd Tables result =
     rbind (getStatement result 0) (\<lambda>p. rbind (deref p) (\<lambda>stmt.
     rbind (printStatementInfo sd stmt) (\<lambda>_. rbind (as_SelectStatement stmt) (\<lambda>s.
     rbind (init_SQL s) (\<lambda>(fromTable, Select_Attr, cl).
       build_query_tree Tables fromTable Select_Attr (All_Attr cl) (Predicate cl) (Join cl))))))"

end
