(* ===== verification/Tree_Shape.thy ===== *)
theory Tree_Shape
  imports Query_Tree
begin

text \<open>
  Forests given by parent and child links, as the vector of nodes of a query tree holds them: the invariant, and the three
  changes the planner makes to it (a new node, a new node over parentless ones, one more child).
\<close>

section \<open>Forests\<close>

text \<open>What matters for the shape of a tree is the parent and the children of every node.\<close>

type_synonym shape = "(int \<times> int list) list"

definition shape_of :: "treeNode list \<Rightarrow> shape" where
  "shape_of tr = map (\<lambda>n. (tn_parent n, tn_child n)) tr"

definition orphan :: "shape \<Rightarrow> nat \<Rightarrow> bool" where
  "orphan sh i = (i < length sh \<and> fst (sh ! i) = - 1)"

inductive rooted :: "shape \<Rightarrow> nat \<Rightarrow> bool" for sh where
  rooted_top: "orphan sh i \<Longrightarrow> rooted sh i"
| rooted_step: "i < length sh \<Longrightarrow> fst (sh ! i) = int p \<Longrightarrow> rooted sh p \<Longrightarrow> rooted sh i"

definition parents_ok :: "shape \<Rightarrow> bool" where
  "parents_ok sh = (\<forall>i < length sh. fst (sh ! i) = - 1 \<or> (\<exists>p < length sh. fst (sh ! i) = int p \<and> int i \<in> set (snd (sh ! p))))"

definition children_ok :: "shape \<Rightarrow> bool" where
  "children_ok sh = (\<forall>i < length sh. distinct (snd (sh ! i)) \<and>
     (\<forall>c \<in> set (snd (sh ! i)). \<exists>k < length sh. c = int k \<and> fst (sh ! k) = int i))"

definition forest :: "shape \<Rightarrow> bool" where
  "forest sh = (parents_ok sh \<and> children_ok sh \<and> (\<forall>i < length sh. rooted sh i))"

lemma children_okD:
  assumes "children_ok sh" and "i < length sh" and "c \<in> set (snd (sh ! i))"
  obtains k where "k < length sh" "c = int k" "fst (sh ! k) = int i"
  using assms unfolding children_ok_def by metis

lemma forest_Nil [simp]: "forest []"
  by (simp add: forest_def parents_ok_def children_ok_def)

lemma rooted_mono:
  assumes "rooted sh i" and "\<And>j. j < length sh \<Longrightarrow> rooted sh' j \<or> fst (sh' ! j) = fst (sh ! j) \<and> j < length sh' \<and> fst (sh ! j) \<noteq> - 1"
  shows "rooted sh' i"
  using assms(1)
proof (induction rule: rooted.induct)
  case (rooted_top i)
  with assms(2) [of i] show ?case by (auto simp: orphan_def)
next
  case (rooted_step i p)
  with assms(2) [of i] show ?case by (auto intro: rooted.rooted_step)
qed

text \<open>A new node that takes the nodes \<open>cs\<close> as its children.\<close>

definition adopt_all :: "nat list \<Rightarrow> shape \<Rightarrow> shape" where
  "adopt_all ks sh = map (\<lambda>i. if i \<in> set ks then (int (length sh), snd (sh ! i)) else sh ! i) [0..<length sh] @ [(- 1, map int ks)]"

lemma length_adopt_all [simp]: "length (adopt_all ks sh) = Suc (length sh)"
  by (simp add: adopt_all_def)

lemma nth_adopt_all:
  "i < length sh \<Longrightarrow> adopt_all ks sh ! i = (if i \<in> set ks then (int (length sh), snd (sh ! i)) else sh ! i)"
  "adopt_all ks sh ! length sh = (- 1, map int ks)"
  by (simp_all add: adopt_all_def nth_append)

lemma orphan_adopt_all:
  assumes "\<forall>k \<in> set ks. k < length sh"
  shows "orphan (adopt_all ks sh) i \<longleftrightarrow> i = length sh \<or> orphan sh i \<and> i \<notin> set ks"
  using assms by (cases "i < length sh") (auto simp: orphan_def nth_adopt_all less_Suc_eq)

lemma forest_adopt_all:
  assumes "forest sh" and "distinct ks" and ks: "\<forall>k \<in> set ks. orphan sh k"
  shows "forest (adopt_all ks sh)"
proof -
  let ?n = "length sh" and ?A = "adopt_all ks sh"
  have kl: "\<forall>k \<in> set ks. k < ?n" using ks by (simp add: orphan_def)
  from assms(1) have P: "parents_ok sh" and C: "children_ok sh" and R: "\<And>i. i < ?n \<Longrightarrow> rooted sh i" by (auto simp: forest_def)
  have child: "k \<notin> set ks" if "i < ?n" "int k \<in> set (snd (sh ! i))" for i k
    using C ks that by (fastforce simp: children_ok_def orphan_def)
  have "parents_ok ?A" unfolding parents_ok_def
  proof (intro allI impI)
    fix i assume "i < length ?A"
    then consider "i = ?n" | "i < ?n" "i \<in> set ks" | "i < ?n" "i \<notin> set ks" by fastforce
    then show "fst (?A ! i) = - 1 \<or> (\<exists>p < length ?A. fst (?A ! i) = int p \<and> int i \<in> set (snd (?A ! p)))"
    proof cases
      case 2
      then have "fst (?A ! i) = int ?n \<and> int i \<in> set (snd (?A ! ?n))" by (simp add: nth_adopt_all)
      then show ?thesis by auto
    next
      case 3
      then have "fst (sh ! i) = - 1 \<or> (\<exists>p < ?n. fst (sh ! i) = int p \<and> int i \<in> set (snd (sh ! p)))"
        using P by (simp add: parents_ok_def)
      moreover have "snd (?A ! p) = snd (sh ! p)" if "p < ?n" for p using that by (simp add: nth_adopt_all)
      ultimately show ?thesis using 3 by (auto simp: nth_adopt_all intro: less_SucI)
    qed (simp add: nth_adopt_all)
  qed
  moreover have "children_ok ?A" unfolding children_ok_def
  proof (intro allI impI)
    fix i assume "i < length ?A"
    then consider "i = ?n" | "i < ?n" by fastforce
    then show "distinct (snd (?A ! i)) \<and> (\<forall>c \<in> set (snd (?A ! i)). \<exists>k < length ?A. c = int k \<and> fst (?A ! k) = int i)"
    proof cases
      case 1
      have "\<exists>k < length ?A. int c = int k \<and> fst (?A ! k) = int i" if "c \<in> set ks" for c
        using that kl 1 by (intro exI [of _ c]) (simp add: nth_adopt_all less_SucI)
      with 1 assms(2) show ?thesis by (auto simp: nth_adopt_all distinct_map)
    next
      case 2
      have s: "snd (?A ! i) = snd (sh ! i)" using 2 by (simp add: nth_adopt_all)
      have "\<exists>k < length ?A. c = int k \<and> fst (?A ! k) = int i" if c: "c \<in> set (snd (sh ! i))" for c
      proof -
        obtain k where k: "k < ?n" "c = int k" "fst (sh ! k) = int i" by (rule children_okD [OF C 2 c])
        have "k \<notin> set ks" using child [OF 2, of k] c k(2) by simp
        with k show ?thesis by (intro exI [of _ k]) (simp add: nth_adopt_all less_SucI)
      qed
      moreover have "distinct (snd (sh ! i))" using C 2 unfolding children_ok_def by blast
      ultimately show ?thesis unfolding s by blast
    qed
  qed
  moreover have "rooted ?A i" if "i < length ?A" for i
  proof -
    have n: "rooted ?A ?n" using kl by (intro rooted_top) (simp add: orphan_adopt_all)
    have "rooted ?A j" if "j < ?n" for j
    proof (rule rooted_mono [OF R [OF that]])
      fix j assume j: "j < ?n"
      show "rooted ?A j \<or> fst (?A ! j) = fst (sh ! j) \<and> j < length ?A \<and> fst (sh ! j) \<noteq> - 1"
      proof (cases "j \<in> set ks")
        case True
        with j n show ?thesis by (intro disjI1 rooted_step [of j ?A ?n]) (simp_all add: nth_adopt_all)
      next
        case False
        then show ?thesis using j rooted_top [of ?A j] kl by (auto simp: nth_adopt_all orphan_adopt_all orphan_def)
      qed
    qed
    with n that show ?thesis by (cases "i = ?n") auto
  qed
  ultimately show ?thesis by (simp add: forest_def)
qed

lemma forest_push: "forest sh \<Longrightarrow> forest (sh @ [(- 1, [])])"
proof -
  have "adopt_all [] sh = sh @ [(- 1, [])]" by (simp add: adopt_all_def map_nth)
  then show "forest sh \<Longrightarrow> ?thesis" using forest_adopt_all [of sh "[]"] by simp
qed

text \<open>A parentless node that takes one more child.\<close>

definition adopt :: "nat \<Rightarrow> nat \<Rightarrow> shape \<Rightarrow> shape" where
  "adopt p c sh = sh[p := (fst (sh ! p), snd (sh ! p) @ [int c]), c := (int p, snd (sh ! c))]"

lemma length_adopt [simp]: "length (adopt p c sh) = length sh"
  by (simp add: adopt_def)

lemma fst_adopt: "p < length sh \<Longrightarrow> c < length sh \<Longrightarrow> i < length sh \<Longrightarrow>
    fst (adopt p c sh ! i) = (if i = c then int p else fst (sh ! i))"
  by (auto simp: adopt_def nth_list_update)

lemma snd_adopt: "p < length sh \<Longrightarrow> c < length sh \<Longrightarrow> p \<noteq> c \<Longrightarrow> i < length sh \<Longrightarrow>
    snd (adopt p c sh ! i) = (if i = p then snd (sh ! i) @ [int c] else snd (sh ! i))"
  by (auto simp: adopt_def nth_list_update)

lemma orphan_adopt: "p < length sh \<Longrightarrow> c < length sh \<Longrightarrow> orphan (adopt p c sh) i \<longleftrightarrow> orphan sh i \<and> i \<noteq> c"
  by (auto simp: orphan_def fst_adopt split: if_splits)

lemma forest_adopt:
  assumes "forest sh" and p: "orphan sh p" and c: "orphan sh c" and "p \<noteq> c"
  shows "forest (adopt p c sh)"
proof -
  let ?n = "length sh" and ?A = "adopt p c sh"
  from p c have pl: "p < ?n" "c < ?n" by (auto simp: orphan_def)
  note f = fst_adopt [OF pl] and s = snd_adopt [OF pl assms(4)]
  from assms(1) have P: "parents_ok sh" and C: "children_ok sh" and R: "\<And>i. i < ?n \<Longrightarrow> rooted sh i" by (auto simp: forest_def)
  have child: "c' \<noteq> int c" if "i < ?n" "c' \<in> set (snd (sh ! i))" for i c'
    using C c that by (fastforce simp: children_ok_def orphan_def)
  have "parents_ok ?A" unfolding parents_ok_def
  proof (intro allI impI)
    fix i assume "i < length ?A"
    then have i: "i < ?n" by simp
    show "fst (?A ! i) = - 1 \<or> (\<exists>p < length ?A. fst (?A ! i) = int p \<and> int i \<in> set (snd (?A ! p)))"
    proof (cases "i = c")
      case True
      with pl f [of c] s [of p] show ?thesis by auto
    next
      case False
      with P i have "fst (sh ! i) = - 1 \<or> (\<exists>p < ?n. fst (sh ! i) = int p \<and> int i \<in> set (snd (sh ! p)))"
        by (simp add: parents_ok_def)
      moreover have "set (snd (sh ! q)) \<subseteq> set (snd (?A ! q))" if "q < ?n" for q using that by (simp add: s subset_insertI)
      ultimately show ?thesis using False i f [of i] by fastforce
    qed
  qed
  moreover have "children_ok ?A" unfolding children_ok_def
  proof (intro allI impI)
    fix i assume "i < length ?A"
    then have i: "i < ?n" by simp
    have old: "\<exists>k < length ?A. c' = int k \<and> fst (?A ! k) = int i" if c': "c' \<in> set (snd (sh ! i))" for c'
    proof -
      obtain k where "k < ?n" "c' = int k" "fst (sh ! k) = int i" by (rule children_okD [OF C i c'])
      moreover from this child [OF i c'] have "k \<noteq> c" by simp
      ultimately show ?thesis using f [of k] by auto
    qed
    have "distinct (snd (sh ! i))" using C i by (simp add: children_ok_def)
    with old child [OF i] pl f [of c] s [OF i]
    show "distinct (snd (?A ! i)) \<and> (\<forall>c \<in> set (snd (?A ! i)). \<exists>k < length ?A. c = int k \<and> fst (?A ! k) = int i)"
      by (auto split: if_splits)
  qed
  moreover have "rooted ?A i" if "i < length ?A" for i
  proof -
    have pr: "rooted ?A p" using p assms(4) pl by (intro rooted_top) (simp add: orphan_adopt)
    show ?thesis
    proof (rule rooted_mono [OF R])
      fix j assume j: "j < ?n"
      show "rooted ?A j \<or> fst (?A ! j) = fst (sh ! j) \<and> j < length ?A \<and> fst (sh ! j) \<noteq> - 1"
      proof (cases "j = c")
        case True
        with j pr f show ?thesis by (intro disjI1 rooted_step [of j ?A p]) simp_all
      next
        case False
        then show ?thesis using j rooted_top [of ?A j] pl f [of j] by (auto simp: orphan_adopt orphan_def)
      qed
    qed (use that in simp)
  qed
  ultimately show ?thesis by (simp add: forest_def)
qed

end
