(* ===== verification/Plan_Tree.thy ===== *)
theory Plan_Tree
  imports Tree_Shape
begin

text \<open>
  The joining phase of build_query_tree keeps the nodes a forest: the invariant on the nodes that wait for a parent, and
  that every step returns and keeps it (a first use or a copy of a fragment, a union, a join).
\<close>

section \<open>Nodes waiting for a parent\<close>

text \<open>
  The invariant of the joining phase. \<open>mp\<close> gives the node of every fragment, \<open>cp\<close> tells which of them have been used, and
  \<open>P\<close> lists the nodes that wait to be joined.
\<close>

definition avail :: "(frag \<times> int) list \<Rightarrow> (frag \<times> int) list \<Rightarrow> int set" where
  "avail mp cp = omap_get 0 mp ` {x \<in> fst ` set mp. omap_get 0 cp x = 0}"

definition mp_inj :: "(frag \<times> int) list \<Rightarrow> bool" where
  "mp_inj mp = inj_on (omap_get 0 mp) (fst ` set mp)"

definition in_tree :: "treeNode list \<Rightarrow> int \<Rightarrow> bool" where
  "in_tree tr i = (0 \<le> i \<and> i < int (length tr))"

definition free :: "treeNode list \<Rightarrow> int \<Rightarrow> bool" where
  "free tr i = (in_tree tr i \<and> tn_parent (tr ! nat i) = - 1)"

definition pending :: "(frag \<times> int) list \<Rightarrow> (frag \<times> int) list \<Rightarrow> treeNode list \<Rightarrow> int list \<Rightarrow> bool" where
  "pending mp cp tr P = (forest (shape_of tr) \<and> mp_inj mp \<and> (\<forall>x \<in> fst ` set mp. in_tree tr (omap_get 0 mp x)) \<and>
     (\<forall>i \<in> avail mp cp. free tr i) \<and> distinct P \<and> (\<forall>i \<in> set P. free tr i \<and> i \<notin> avail mp cp))"

lemma length_shape_of [simp]: "length (shape_of tr) = length tr"
  by (simp add: shape_of_def)

lemma nth_shape_of [simp]: "i < length tr \<Longrightarrow> shape_of tr ! i = (tn_parent (tr ! i), tn_child (tr ! i))"
  by (simp add: shape_of_def)

lemma shape_of_simps [simp]:
  "shape_of [] = []" "shape_of (xs @ ys) = shape_of xs @ shape_of ys" "shape_of [n] = [(tn_parent n, tn_child n)]"
  "shape_of (xs[i := n]) = (shape_of xs)[i := (tn_parent n, tn_child n)]"
  by (simp_all add: shape_of_def map_update)

lemma adopt_all_last: "adopt_all ks (shape_of tr) ! length tr = (- 1, map int ks)"
  using nth_adopt_all(2) [of ks "shape_of tr"] by simp

lemma adopt_two:
  assumes "i < length sh" and "j < length sh" and "i \<noteq> j" and "n = int (length sh)"
  shows "(sh @ [(- 1, [int i, int j])])[i := (n, snd (sh ! i)), j := (n, snd (sh ! j))] = adopt_all [i, j] sh" (is "?L = _")
proof (rule nth_equalityI)
  fix k assume "k < length ?L"
  then consider "k = length sh" | "k < length sh" by fastforce
  then show "?L ! k = adopt_all [i, j] sh ! k"
  proof cases
    case 1
    with assms(1,2) show ?thesis by (simp add: nth_adopt_all nth_append)
  next
    case 2
    with assms show ?thesis by (simp add: nth_adopt_all nth_append nth_list_update)
  qed
qed simp

lemma free_orphan: "free tr i \<longleftrightarrow> 0 \<le> i \<and> orphan (shape_of tr) (nat i)"
  by (auto simp: free_def orphan_def in_tree_def)

lemma tr_at_in [simp]: "in_tree tr i \<Longrightarrow> tr_at tr i = Inr (tr ! nat i)"
  by (auto simp: tr_at_def in_tree_def)

lemma in_tree_simps [simp]:
  "in_tree (tr @ [n]) i \<longleftrightarrow> in_tree tr i \<or> i = int (length tr)" "in_tree (tr[k := n]) i = in_tree tr i"
  by (auto simp: in_tree_def)

lemma free_in_tree: "free tr i \<Longrightarrow> in_tree tr i"
  by (simp add: free_def)

lemma free_append: "free tr i \<Longrightarrow> free (tr @ [n]) i"
  by (auto simp: free_def in_tree_def nth_append)

lemma pending_push:
  assumes "pending mp cp tr P" and "tn_parent n = - 1" and "tn_child n = []"
  shows "pending mp cp (tr @ [n]) (int (length tr) # P)"
proof -
  have "free (tr @ [n]) (int (length tr))" using assms(2) by (simp add: free_def in_tree_def)
  moreover have "int (length tr) \<notin> set P \<union> avail mp cp"
    using assms(1) by (auto simp: pending_def free_def in_tree_def)
  ultimately show ?thesis using assms by (auto simp: pending_def free_append forest_push)
qed

lemma pending_copy:
  assumes "pending mp cp tr P" and x: "x \<in> fst ` set mp"
  shows "\<exists>idx cp' tr'. get_treeNode mp x (cp, tr) = Inr (idx, cp', tr') \<and> pending mp cp' tr' (idx # P) \<and>
     length tr \<le> length tr'"
proof (cases "omap_get 0 cp x = 0")
  case True
  let ?i = "omap_get 0 mp x" and ?cp = "omap_set x 1 cp"
  have A: "avail mp ?cp = avail mp cp - {?i}"
  proof -
    let ?D = "{y \<in> fst ` set mp. omap_get 0 cp y = 0}"
    have "{y \<in> fst ` set mp. omap_get 0 ?cp y = 0} = ?D - {x}" by auto
    moreover have "omap_get 0 mp ` (?D - {x}) = omap_get 0 mp ` ?D - omap_get 0 mp ` {x}"
      using assms by (intro inj_on_image_set_diff [of _ "fst ` set mp"]) (auto simp: pending_def mp_inj_def)
    ultimately show ?thesis by (simp add: avail_def)
  qed
  have i: "?i \<in> avail mp cp" using x True by (auto simp: avail_def)
  then have "?i \<notin> set P" "free tr ?i" using assms(1) by (auto simp: pending_def)
  then have "pending mp ?cp tr (?i # P)" using assms(1) A by (auto simp: pending_def)
  then show ?thesis using True by (simp add: get_treeNode_def)
next
  case False
  have "in_tree tr (omap_get 0 mp x)" using assms unfolding pending_def by blast
  with False pending_push [OF assms(1), of "(tr ! nat (omap_get 0 mp x))\<lparr>tn_child := [], tn_parent := - 1\<rparr>"]
  show ?thesis by (simp add: get_treeNode_def)
qed

lemma set_parent_in: "in_tree tr i \<Longrightarrow> set_parent i p tr = Inr (tr[nat i := (tr ! nat i)\<lparr>tn_parent := p\<rparr>])"
  by (simp add: set_parent_def)

lemma pending_shape:
  assumes "pending mp cp tr P" and "length tr' = length tr" and "forest (shape_of tr')"
    and "set P' \<subseteq> set P" and "distinct P'"
    and "\<And>i. free tr i \<Longrightarrow> i \<in> set P' \<union> avail mp cp \<Longrightarrow> free tr' i"
  shows "pending mp cp tr' P'"
  using assms by (auto simp: pending_def in_tree_def)

lemma pending_add_child:
  assumes "pending mp cp tr (idx # par # P)"
  shows "\<exists>tr'. add_child par idx tr = Inr tr' \<and> pending mp cp tr' (par # P) \<and> length tr' = length tr"
proof -
  from assms have p: "free tr par" "free tr idx" "par \<noteq> idx" "in_tree tr par" "in_tree tr idx"
    by (auto simp: pending_def free_in_tree)
  then have n: "nat par \<noteq> nat idx" "nat par < length tr" "nat idx < length tr" "int (nat par) = par" "int (nat idx) = idx"
    by (auto simp: in_tree_def)
  let ?p = "(tr ! nat par)\<lparr>tn_child := tn_child (tr ! nat par) @ [idx], tn_attr := node_attrs (tr ! nat idx)\<rparr>"
  let ?n = "(tr ! nat idx)\<lparr>tn_parent := par\<rparr>"
  let ?tr = "tr[nat par := ?p, nat idx := ?n]"
  have e: "add_child par idx tr = Inr ?tr"
    unfolding add_child_def set_parent_def using p(4,5) n(1) by (simp only: tr_at_in in_tree_simps rbind_simps nth_list_update_neq [OF n(1)])
  have s: "shape_of ?tr = adopt (nat par) (nat idx) (shape_of tr)"
    using n by (simp add: adopt_def)
  have o: "free ?tr i \<longleftrightarrow> free tr i \<and> i \<noteq> idx" for i
    using p unfolding free_orphan s by (auto simp: orphan_adopt in_tree_def)
  have "forest (shape_of ?tr)" unfolding s
    using assms p n by (intro forest_adopt) (auto simp: pending_def free_orphan)
  then have "pending mp cp ?tr (par # P)"
    using assms o by (intro pending_shape [OF assms]) (auto simp: pending_def)
  with e show ?thesis by auto
qed

lemma pending_join:
  assumes "pending mp cp tr (par # t # P)"
  shows "\<exists>cpar tr'. join_pair S site j nx par t tr = Inr (cpar, tr') \<and> pending mp cp tr' (cpar # P) \<and>
     length tr < length tr' \<and> tn_parent (last tr') = - 1"
proof -
  from assms have p: "free tr par" "free tr t" "par \<noteq> t" "in_tree tr par" "in_tree tr t"
    by (auto simp: pending_def free_in_tree)
  then have n: "nat par \<noteq> nat t" "nat par < length tr" "nat t < length tr" "int (nat par) = par" "int (nat t) = t"
    by (auto simp: in_tree_def)
  define node where "node = (let attr = get_attr (tr ! nat par) (tr ! nat t);
      proj = get_projection S attr (lattr j);
      proj = (if (case nx of None \<Rightarrow> True | Some k \<Rightarrow> rattr j \<noteq> lattr k) then get_projection S proj (rattr j) else proj)
    in (treeNode_op ''Join'' site)\<lparr>tn_join := j, tn_child := [par, t], tn_attr := attr, tn_projection := proj\<rparr>)"
  have nd: "tn_parent node = - 1" "tn_child node = [par, t]" by (simp_all add: node_def Let_def treeNode_op_def treeNode_frag_def)
  let ?c = "int (length tr)"
  let ?tr1 = "(tr @ [node])[nat par := ((tr @ [node]) ! nat par)\<lparr>tn_parent := ?c\<rparr>]"
  let ?tr = "?tr1[nat t := (?tr1 ! nat t)\<lparr>tn_parent := ?c\<rparr>]"
  have "join_pair S site j nx par t tr =
      rbind (set_parent par ?c (tr @ [node])) (\<lambda>tr. rbind (set_parent t ?c tr) (\<lambda>tr. Inr (?c, tr)))"
    using p by (simp add: join_pair_def node_def Let_def)
  also have "\<dots> = Inr (?c, ?tr)" using p by (simp only: set_parent_in in_tree_simps simp_thms rbind_simps)
  finally have e: "join_pair S site j nx par t tr = Inr (?c, ?tr)" .
  have s: "shape_of ?tr = adopt_all [nat par, nat t] (shape_of tr)"
  proof -
    have "(tr @ [node]) ! nat par = tr ! nat par" "?tr1 ! nat t = tr ! nat t" using n(1-3) by (simp_all add: nth_append)
    then have "shape_of ?tr = (shape_of tr @ [(- 1, [int (nat par), int (nat t)])])
        [nat par := (?c, snd (shape_of tr ! nat par)), nat t := (?c, snd (shape_of tr ! nat t))]"
      using n(2-5) nd by (simp del: int_nat_eq)
    also have "\<dots> = adopt_all [nat par, nat t] (shape_of tr)" using n(1-3) by (intro adopt_two) simp_all
    finally show ?thesis .
  qed
  have o: "free ?tr i \<longleftrightarrow> i = ?c \<or> free tr i \<and> i \<noteq> par \<and> i \<noteq> t" for i
  proof -
    have "orphan (shape_of ?tr) (nat i) \<longleftrightarrow> nat i = length tr \<or> orphan (shape_of tr) (nat i) \<and> nat i \<noteq> nat par \<and> nat i \<noteq> nat t"
      unfolding s using n by (subst orphan_adopt_all) auto
    note o = this
    have nn: "0 \<le> par" "0 \<le> t" using p(4,5) by (simp_all add: in_tree_def)
    show ?thesis
    proof (cases "0 \<le> i")
      case True
      then have "nat i = length tr \<longleftrightarrow> i = ?c" "nat i = nat par \<longleftrightarrow> i = par" "nat i = nat t \<longleftrightarrow> i = t"
        using nn by linarith+
      with o True show ?thesis unfolding free_orphan by blast
    next
      case False
      then show ?thesis unfolding free_orphan by linarith
    qed
  qed
  have f: "forest (shape_of ?tr)" unfolding s
    using assms p n by (intro forest_adopt_all) (auto simp: pending_def free_orphan)
  have c: "?c \<notin> set P" "?c \<notin> avail mp cp" using assms by (auto simp: pending_def free_def in_tree_def)
  have m: "mp_inj mp" "\<forall>x \<in> fst ` set mp. in_tree tr (omap_get 0 mp x)" "\<forall>i \<in> avail mp cp. free tr i \<and> i \<noteq> par \<and> i \<noteq> t"
    "distinct P" "\<forall>i \<in> set P. free tr i \<and> i \<noteq> par \<and> i \<noteq> t \<and> i \<notin> avail mp cp"
    using assms by (auto simp: pending_def)
  have "in_tree ?tr i" if "in_tree tr i" for i using that by simp
  then have "pending mp cp ?tr (?c # P)" unfolding pending_def using f m c o by auto
  moreover have "tn_parent (last ?tr) = - 1" using n nd by (simp add: last_conv_nth nth_append)
  ultimately show ?thesis using e by auto
qed

lemma pending_rest:
  assumes "pending mp cp tr (par # ts @ P)" and "length js = length ts" and "ts \<noteq> []"
  shows "\<exists>cpar tr'. join_rest S site js ts (par, tr) = Inr (cpar, tr') \<and> pending mp cp tr' (cpar # P) \<and>
     length tr < length tr' \<and> tn_parent (last tr') = - 1"
  using assms
proof (induction ts arbitrary: js par tr)
  case (Cons t ts)
  then obtain j js' where js: "js = j # js'" by (cases js) auto
  obtain c tr1 where 1: "join_pair S site j (case js' of [] \<Rightarrow> None | k # _ \<Rightarrow> Some k) par t tr = Inr (c, tr1)"
    "pending mp cp tr1 (c # ts @ P)" "length tr < length tr1" "tn_parent (last tr1) = - 1"
    using pending_join [of mp cp tr par t "ts @ P"] Cons.prems(1) by fastforce
  show ?case
  proof (cases "ts = []")
    case True
    with 1 js Cons.prems(2) show ?thesis by auto
  next
    case False
    with Cons.IH [OF 1(2), of js'] Cons.prems(2) js obtain c' tr' where
      "join_rest S site js' ts (c, tr1) = Inr (c', tr')" "pending mp cp tr' (c' # P)" "length tr1 < length tr'" "tn_parent (last tr') = - 1"
      by auto
    with 1 js show ?thesis by auto
  qed
qed simp

lemma pending_union:
  assumes "pending mp cp tr (par # P)" and "\<forall>x \<in> set xs. x \<in> fst ` set mp"
  shows "\<exists>cp' tr'. rfold (union_one mp par) xs (cp, tr) = Inr (cp', tr') \<and> pending mp cp' tr' (par # P) \<and> length tr \<le> length tr'"
  using assms
proof (induction xs arbitrary: cp tr)
  case (Cons x xs)
  obtain idx cp1 tr1 where 1: "get_treeNode mp x (cp, tr) = Inr (idx, cp1, tr1)" "pending mp cp1 tr1 (idx # par # P)" "length tr \<le> length tr1"
    using pending_copy [OF Cons.prems(1), of x] Cons.prems(2) by auto
  obtain tr2 where 2: "add_child par idx tr1 = Inr tr2" "pending mp cp1 tr2 (par # P)" "length tr2 = length tr1"
    using pending_add_child [OF 1(2)] by auto
  with Cons.IH [OF 2(2)] Cons.prems(2) obtain cp' tr' where
    "rfold (union_one mp par) xs (cp1, tr2) = Inr (cp', tr')" "pending mp cp' tr' (par # P)" "length tr2 \<le> length tr'" by auto
  moreover have "union_one mp par x (cp, tr) = Inr (cp1, tr2)" using 1(1) 2(1) by (simp add: union_one_def)
  ultimately show ?case using 1(3) 2(3) by auto
qed simp

lemma pending_perm: "pending mp cp tr P \<Longrightarrow> mset P' = mset P \<Longrightarrow> pending mp cp tr P'"
  unfolding pending_def by (metis mset_eq_imp_distinct_iff set_mset_mset)

lemma pending_operand:
  assumes "pending mp cp tr (ids @ P)" and "\<forall>n \<in> set nums. (rel, n) \<in> fst ` set mp"
  shows "\<exists>idx cp' tr'. operand mp site (rel, nums) (ids, cp, tr) = Inr (ids @ [idx], cp', tr') \<and>
    pending mp cp' tr' ((ids @ [idx]) @ P) \<and> length tr \<le> length tr'"
proof (cases "length nums = 1")
  case True
  then have "(rel, nums ! 0) \<in> fst ` set mp" using assms(2) by simp
  from pending_copy [OF assms(1) this] obtain idx cp' tr' where
    "get_treeNode mp (rel, nums ! 0) (cp, tr) = Inr (idx, cp', tr')" "pending mp cp' tr' (idx # ids @ P)" "length tr \<le> length tr'" by auto
  moreover from this(2) have "pending mp cp' tr' ((ids @ [idx]) @ P)" by (rule pending_perm) simp
  ultimately show ?thesis using True by (auto simp: operand_def)
next
  case False
  let ?n = "treeNode_op ''Union'' site"
  have "pending mp cp (tr @ [?n]) (int (length tr) # ids @ P)"
    using assms(1) by (rule pending_push) (simp_all add: treeNode_op_def treeNode_frag_def)
  from pending_union [OF this, of "map (Pair rel) nums"] assms(2) obtain cp' tr' where
    "rfold (union_one mp (int (length tr))) (map (Pair rel) nums) (cp, tr @ [?n]) = Inr (cp', tr')"
    "pending mp cp' tr' (int (length tr) # ids @ P)" "length (tr @ [?n]) \<le> length tr'" by auto
  moreover from this(2) have "pending mp cp' tr' ((ids @ [int (length tr)]) @ P)" by (rule pending_perm) simp
  ultimately show ?thesis using False by (auto simp: operand_def)
qed

lemma pending_operands:
  assumes "pending mp cp tr (ids @ P)" and "\<forall>(rel, nums) \<in> set rps. \<forall>n \<in> set nums. (rel, n) \<in> fst ` set mp"
  shows "\<exists>new cp' tr'. rfold (operand mp site) rps (ids, cp, tr) = Inr (ids @ new, cp', tr') \<and> length new = length rps \<and>
    pending mp cp' tr' ((ids @ new) @ P) \<and> length tr \<le> length tr'"
  using assms
proof (induction rps arbitrary: ids cp tr)
  case Nil
  then show ?case by auto
next
  case (Cons rp rps)
  obtain rel nums where rp: "rp = (rel, nums)" by (cases rp)
  obtain idx cp1 tr1 where 1: "operand mp site rp (ids, cp, tr) = Inr (ids @ [idx], cp1, tr1)"
    "pending mp cp1 tr1 ((ids @ [idx]) @ P)" "length tr \<le> length tr1"
    using pending_operand [OF Cons.prems(1), of nums rel site] Cons.prems(2) rp by auto
  from Cons.IH [OF 1(2)] Cons.prems(2) obtain new cp' tr' where
    "rfold (operand mp site) rps (ids @ [idx], cp1, tr1) = Inr ((ids @ [idx]) @ new, cp', tr')" "length new = length rps"
    "pending mp cp' tr' (((ids @ [idx]) @ new) @ P)" "length tr1 \<le> length tr'" by auto
  with 1 show ?case by (intro exI [of _ "idx # new"]) auto
qed

section \<open>Joining the patterns\<close>

lemma length_relation: "joins \<noteq> [] \<Longrightarrow> length (relation joins) = length joins + 1"
  by (simp add: relation_def)

definition named_pattern :: "(frag \<times> int) list \<Rightarrow> joinCell list \<Rightarrow> pattern \<Rightarrow> bool" where
  "named_pattern mp joins p = (length p = length joins + 1 \<and>
     (\<forall>(rel, nums) \<in> set (zip (relation joins) p). \<forall>n \<in> set nums. (rel, n) \<in> fst ` set mp))"

text \<open>Between two patterns nothing waits for a join; the last node is always parentless.\<close>

definition closed_joins :: "(frag \<times> int) list \<Rightarrow> jstate \<Rightarrow> bool" where
  "closed_joins mp s = ((\<exists>P. pending mp (fst s) (snd s) P) \<and> (snd s \<noteq> [] \<longrightarrow> tn_parent (last (snd s)) = - 1))"

lemma pending_weaken: "pending mp cp tr (P @ Q) \<Longrightarrow> pending mp cp tr Q"
  by (auto simp: pending_def)

lemma join_pattern_total:
  assumes "\<exists>P. pending mp (fst s) (snd s) P" and "joins \<noteq> []" and "named_pattern mp joins p"
  shows "\<exists>s'. join_pattern S mp joins site p s = Inr s' \<and> (\<exists>P. pending mp (fst s') (snd s') P) \<and>
     snd s' \<noteq> [] \<and> tn_parent (last (snd s')) = - 1"
proof -
  obtain cp tr where s: "s = (cp, tr)" by (cases s)
  from assms(1) s obtain P where P: "pending mp cp tr ([] @ [])" using pending_weaken [of mp cp tr _ "[]"] by auto
  let ?z = "zip (relation joins) p"
  have l: "length ?z = length joins + 1" using assms(2,3) by (simp add: named_pattern_def length_relation)
  obtain new cp' tr' where 1: "rfold (operand mp site) ?z ([], cp, tr) = Inr (new, cp', tr')" "length new = length ?z"
    "pending mp cp' tr' (new @ [])"
    using pending_operands [OF P, of ?z site] assms(3) by (auto simp: named_pattern_def)
  from 1(2) l obtain t0 ts where n: "new = t0 # ts" "length joins = length ts" by (cases new) auto
  with assms(2) have "ts \<noteq> []" by auto
  from pending_rest [of mp cp' tr' t0 ts "[]", OF _ n(2) this] 1(3) n(1) obtain c tr'' where
    2: "join_rest S site joins ts (t0, tr') = Inr (c, tr'')" "pending mp cp' tr'' [c]" "length tr' < length tr''" "tn_parent (last tr'') = - 1"
    by fastforce
  then have "tr'' \<noteq> []" by auto
  moreover have "join_pattern S mp joins site p s = Inr (cp', tr'')"
    using 1(1) n(1) 2(1) s by (simp add: join_pattern_def)
  ultimately show ?thesis using 2 by auto
qed

lemma join_patterns_total:
  assumes "closed_joins mp s" and "joins \<noteq> []" and "\<forall>p \<in> set ps. named_pattern mp joins p"
  shows "\<exists>s'. rfold (join_pattern S mp joins site) ps s = Inr s' \<and> closed_joins mp s'"
  using assms
proof (induction ps arbitrary: s)
  case (Cons p ps)
  have "\<exists>P. pending mp (fst s) (snd s) P" "named_pattern mp joins p" using Cons.prems by (simp_all add: closed_joins_def)
  from join_pattern_total [OF this(1) Cons.prems(2) this(2)] obtain s1 where
    1: "join_pattern S mp joins site p s = Inr s1" "closed_joins mp s1" unfolding closed_joins_def by blast
  have "\<forall>p \<in> set ps. named_pattern mp joins p" using Cons.prems(3) by simp
  from Cons.IH [OF 1(2) Cons.prems(2) this] 1(1) show ?case by simp
qed simp

section \<open>Where the numbers of a pattern come from\<close>

definition column_from :: "frag list list \<Rightarrow> nat \<Rightarrow> int set" where
  "column_from JL j = {snd (x ! j) |x. x \<in> set JL}"

definition drawn_from :: "frag list list \<Rightarrow> nat \<Rightarrow> pattern \<Rightarrow> bool" where
  "drawn_from JL sz p = (length p = sz \<and> (\<forall>j < sz. set (p ! j) \<subseteq> column_from JL j))"

lemma absorb_drawn:
  assumes "drawn_from JL sz p" and "\<forall>(q, m) \<in> set rest. drawn_from JL sz q"
  shows "drawn_from JL sz (fst (absorb i sz p rest)) \<and> (\<forall>(q, m) \<in> set (snd (absorb i sz p rest)). drawn_from JL sz q)"
  using assms
proof (induction i sz p rest rule: absorb.induct)
  case (2 i sz p q m rest)
  have "drawn_from JL sz (p[i := p ! i @ q ! i])"
    using 2(3,4) by (cases "i < sz") (auto simp: drawn_from_def nth_list_update)
  with 2 show ?case by (auto simp: Let_def split: prod.splits)
qed simp

lemma pattern_pass_drawn:
  assumes "\<forall>(q, m) \<in> set rows. drawn_from JL sz q" and "q \<in> set (pattern_pass i sz rows)"
  shows "drawn_from JL sz q"
  using assms
proof (induction i sz rows rule: pattern_pass.induct)
  case (2 i sz p m rest)
  have "drawn_from JL sz (fst (absorb i sz p rest))" "\<forall>(q, m) \<in> set (snd (absorb i sz p rest)). drawn_from JL sz q"
    using absorb_drawn [of JL sz p rest i] 2(3) by auto
  with 2 show ?case by (cases m) auto
qed simp

lemma get_pattern_drawn:
  assumes "get_pattern JL sz = Inr ps" and "\<forall>x \<in> set JL. length x = sz" and "p \<in> set ps"
  shows "drawn_from JL sz p"
proof -
  have "rfold (pattern_step sz) (rev [0..<sz]) (map (map (\<lambda>f. [snd f])) JL) = Inr ps"
    using assms(1,2) by (simp add: get_pattern_def initial_patterns_eq)
  moreover have "\<forall>q \<in> set (map (map (\<lambda>f. [snd f])) JL). drawn_from JL sz q"
    using assms(2) by (auto simp: drawn_from_def column_from_def)
  moreover have "\<forall>q \<in> set v. drawn_from JL sz q"
    if u: "\<forall>q \<in> set u. drawn_from JL sz q" and v: "pattern_step sz i u = Inr v" for i u v
  proof -
    from v have v: "v = pattern_pass i sz (map (\<lambda>p. (p, False)) u)" by (simp add: pattern_step_def split: if_splits)
    from u have "\<forall>(q, m) \<in> set (map (\<lambda>p. (p, False)) u). drawn_from JL sz q" by auto
    with v pattern_pass_drawn show ?thesis by blast
  qed
  ultimately have "\<forall>q \<in> set ps. drawn_from JL sz q"
    by (rule rfold_invariant [where P = "\<lambda>ps. \<forall>q \<in> set ps. drawn_from JL sz q"])
  with assms(3) show ?thesis by blast
qed

text \<open>Join lists whose fragments follow the tables of the joins and have nodes give patterns that can be joined.\<close>

definition named_lists :: "(frag \<times> int) list \<Rightarrow> joinCell list \<Rightarrow> frag list list \<Rightarrow> bool" where
  "named_lists mp joins JL = (\<forall>x \<in> set JL. map fst x = relation joins \<and> set x \<subseteq> fst ` set mp)"

lemma named_lists_pattern:
  assumes "named_lists mp joins JL" and "joins \<noteq> []" and "get_pattern JL (length joins + 1) = Inr ps" and "p \<in> set ps"
  shows "named_pattern mp joins p"
proof -
  have len: "\<forall>x \<in> set JL. length x = length joins + 1"
    using assms(1,2) by (metis named_lists_def length_map length_relation)
  have d: "length p = length joins + 1" "\<And>j. j < length joins + 1 \<Longrightarrow> set (p ! j) \<subseteq> column_from JL j"
    using get_pattern_drawn [OF assms(3) len assms(4)] by (auto simp: drawn_from_def)
  have "(relation joins ! j, n) \<in> fst ` set mp" if j: "j < length joins + 1" and n: "n \<in> set (p ! j)" for j n
  proof -
    from d(2) [OF j] n obtain x where x: "x \<in> set JL" "n = snd (x ! j)" by (auto simp: column_from_def)
    with len j have "j < length x" by simp
    moreover from this x(1) assms(1) have "fst (x ! j) = relation joins ! j" by (metis named_lists_def nth_map)
    ultimately have "(relation joins ! j, n) \<in> set x" using x(2) by (metis nth_mem prod.collapse)
    with x(1) assms(1) show ?thesis by (auto simp: named_lists_def)
  qed
  with d(1) assms(2) show ?thesis by (auto simp: named_pattern_def set_zip length_relation)
qed

end
