(* ===== verification/Plan_Frags.thy ===== *)
theory Plan_Frags
  imports Plan_Tree
begin

text \<open>
  The loop over the tables in build_query_tree keeps its invariant: the nodes are a forest, every kept fragment has a
  parentless node of its own, and vertical fragments that take part together hang below one join node.
\<close>

section \<open>The fragment nodes\<close>

text \<open>
  The invariant of the loop over the tables: the nodes form a forest, \<open>mp\<close> maps fragments one to one to parentless nodes,
  and every fragment that survives pruning belongs to its table and has a node.
\<close>

definition mapped :: "treeNode list \<Rightarrow> (frag \<times> int) list \<Rightarrow> bool" where
  "mapped tr mp = (forest (shape_of tr) \<and> mp_inj mp \<and> (\<forall>x \<in> fst ` set mp. free tr (omap_get 0 mp x)) \<and>
     (tr \<noteq> [] \<longrightarrow> tn_parent (last tr) = - 1))"

definition kept :: "(frag \<times> int) list \<Rightarrow> (string \<times> Fragment list) list \<Rightarrow> bool" where
  "kept mp pr = (\<forall>t. \<forall>f \<in> set (omap_get [] pr t). fst (frag_fname f) = t \<and> frag_fname f \<in> fst ` set mp)"

definition frags_ok :: "build \<Rightarrow> bool" where
  "frags_ok b = (mapped (bd_tr b) (bd_mpTr b) \<and> kept (bd_mpTr b) (bd_pruning b))"

lemma free_last: "tr \<noteq> [] \<Longrightarrow> tn_parent (last tr) = - 1 \<Longrightarrow> free tr (int (length tr) - 1)"
proof -
  assume "tr \<noteq> []" and "tn_parent (last tr) = - 1"
  moreover from this have "nat (int (length tr) - 1) = length tr - 1" by (cases tr) auto
  ultimately show ?thesis by (simp add: free_def in_tree_def last_conv_nth)
qed

text \<open>Registering the last node, when no fragment is mapped to it yet.\<close>

lemma mapped_set:
  assumes "mapped tr mp" and "tr \<noteq> []" and "\<forall>x \<in> fst ` set mp. omap_get 0 mp x \<noteq> int (length tr) - 1"
  shows "mapped tr (omap_set f (int (length tr) - 1) mp)"
proof -
  let ?g = "omap_get 0 mp" and ?v = "int (length tr) - 1" and ?D = "fst ` set mp"
  have m: "forest (shape_of tr)" "inj_on ?g ?D" "\<forall>x \<in> ?D. free tr (?g x)" "tn_parent (last tr) = - 1"
    using assms(1,2) by (simp_all add: mapped_def mp_inj_def)
  have "?v \<notin> ?g ` ?D" using assms(3) by auto
  with m(2) have "inj_on (?g(f := ?v)) (insert f ?D)"
    by (auto simp: inj_on_insert intro: inj_on_fun_updI)
  moreover have "\<forall>x \<in> insert f ?D. free tr ((?g(f := ?v)) x)" using m(3) free_last [OF assms(2) m(4)] by simp
  ultimately show ?thesis unfolding mapped_def mp_inj_def keys_omap_set omap_get_set using m(1,4) by blast
qed

lemma mapped_push:
  assumes "mapped tr mp" and "tn_parent n = - 1" and "tn_child n = []"
  shows "mapped (tr @ [n]) mp \<and> (\<forall>x \<in> fst ` set mp. omap_get 0 mp x \<noteq> int (length (tr @ [n])) - 1)"
proof -
  have fr: "\<forall>x \<in> fst ` set mp. free tr (omap_get 0 mp x)" using assms(1) by (simp add: mapped_def)
  then have "\<forall>x \<in> fst ` set mp. free (tr @ [n]) (omap_get 0 mp x) \<and> omap_get 0 mp x \<noteq> int (length (tr @ [n])) - 1"
    by (metis free_append free_in_tree in_tree_def length_append_singleton of_nat_Suc add_diff_cancel_left' less_irrefl)
  moreover have "forest (shape_of (tr @ [n]))" using assms by (simp add: mapped_def forest_push)
  ultimately show ?thesis using assms by (simp add: mapped_def)
qed

lemma kept_push:
  assumes "kept mp pr" and "fst (frag_fname f) = t"
  shows "kept (omap_set (frag_fname f) i mp) (omap_set t (omap_get [] pr t @ [f]) pr)"
  using assms by (auto simp: kept_def keys_omap_set split: if_splits)

lemma enlist_sel:
  assumes "enlist t site sz f b = Inr b'"
  shows "bd_tr b' = bd_tr b" "bd_pruning b' = bd_pruning b" "bd_mpTr b' = omap_set f (int (length (bd_tr b)) - 1) (bd_mpTr b)"
  using assms by (auto simp: enlist_def split: if_splits)

lemma frags_ok_add:
  assumes "frags_ok b" and "tn_parent n = - 1" and "tn_child n = []" and "fst (frag_fname f) = t"
    and "enlist t site sz (frag_fname f) (push_frag t f (push_node n b)\<lparr>bd_relationSize := rs\<rparr>) = Inr b'"
  shows "frags_ok b'"
proof -
  note e = enlist_sel [OF assms(5)]
  have m: "mapped (bd_tr b @ [n]) (bd_mpTr b)" "\<forall>x \<in> fst ` set (bd_mpTr b). omap_get 0 (bd_mpTr b) x \<noteq> int (length (bd_tr b @ [n])) - 1"
    using mapped_push [of "bd_tr b" "bd_mpTr b" n] assms(1-3) unfolding frags_ok_def by blast+
  from mapped_set [OF m(1) _ m(2), of "frag_fname f"] have "mapped (bd_tr b') (bd_mpTr b')"
    using e by (simp add: push_frag_def push_node_def)
  moreover have "kept (bd_mpTr b') (bd_pruning b')"
    using e kept_push [of "bd_mpTr b" "bd_pruning b" f t] assms(1,4) by (simp add: frags_ok_def push_frag_def push_node_def)
  ultimately show ?thesis by (simp add: frags_ok_def)
qed

lemma hf_fragment_ok:
  assumes "frags_ok b" and "fst (frag_fname f) = mt_name t" and "hf_fragment q t f b = Inr b'"
  shows "frags_ok b'"
proof -
  from assms(3) obtain cs' cnt where c: "check_condition (frag_hf_condition f) (q_Predicate q) 0 = Inr (cs', cnt)"
    by (auto simp: hf_fragment_def)
  show ?thesis
  proof (cases "cs' = [] \<and> q_Predicate q \<noteq> []")
    case True
    with c assms show ?thesis by (simp add: hf_fragment_def)
  next
    case False
    with c assms(3) obtain rs conds where
      "enlist (mt_name t) (frag_site f) (frag_size f) (frag_fname f) (push_frag (mt_name t) f (push_node (hf_node q t f conds) b)\<lparr>bd_relationSize := rs\<rparr>) = Inr b'"
      by (auto simp: hf_fragment_def Let_def)
    from frags_ok_add [OF assms(1) _ _ assms(2) this] show ?thesis
      by (simp add: hf_node_def Let_def treeNode_frag_def)
  qed
qed

lemma hf_table_ok:
  assumes "frags_ok b" and "\<forall>f \<in> set (mt_frags t). fst (frag_fname f) = mt_name t" and "hf_table q t b = Inr b'"
  shows "frags_ok b'"
proof -
  let ?b = "b\<lparr>bd_relationSize := omap_set (mt_name t) 0 (bd_relationSize b)\<rparr>"
  have "rfold (hf_fragment q t) (mt_frags t) ?b = Inr b'" using assms(3) by (simp add: hf_table_def)
  moreover have "frags_ok ?b" using assms(1) by (simp add: frags_ok_def)
  ultimately show ?thesis
    by (rule rfold_invariant [where P = frags_ok]) (use assms(2) in \<open>blast intro: hf_fragment_ok\<close>)
qed

text \<open>The loop over the vertical fragments only appends nodes and fragments.\<close>

definition appended :: "string \<Rightarrow> build \<Rightarrow> nat \<times> build \<Rightarrow> bool" where
  "appended t b cb = (\<exists>ns fs. bd_tr (snd cb) = bd_tr b @ ns \<and> bd_mpTr (snd cb) = bd_mpTr b \<and>
     bd_pruning (snd cb) = (if fs = [] then bd_pruning b else omap_set t (omap_get [] (bd_pruning b) t @ fs) (bd_pruning b)) \<and>
     length ns = fst cb \<and> map tn_fname ns = map frag_fname fs \<and>
     (\<forall>n \<in> set ns. tn_parent n = - 1 \<and> tn_child n = []) \<and> (\<forall>f \<in> set fs. fst (frag_fname f) = t))"

lemma omap_set_twice [simp]: "omap_set k v (omap_set k w m) = omap_set k v m"
  by (induction m) auto

lemma vf_fragment_push:
  obtains P n where "vf_fragment q t f (c, b) = (if P then (c + 1, push_frag (mt_name t) f (push_node n b)) else (c, b))"
    and "tn_parent n = - 1" "tn_child n = []" "tn_fname n = frag_fname f"
proof -
  show thesis by (rule that, unfold vf_fragment_def Let_def prod.case, rule refl) (simp_all add: treeNode_frag_def)
qed

lemma vf_fragment_appended:
  assumes "appended (mt_name t) b cb" and "fst (frag_fname f) = mt_name t"
  shows "appended (mt_name t) b (vf_fragment q t f cb)"
proof -
  obtain c b1 where cb: "cb = (c, b1)" by (cases cb)
  from assms(1) cb obtain ns fs where a: "bd_tr b1 = bd_tr b @ ns" "bd_mpTr b1 = bd_mpTr b"
    "bd_pruning b1 = (if fs = [] then bd_pruning b else omap_set (mt_name t) (omap_get [] (bd_pruning b) (mt_name t) @ fs) (bd_pruning b))"
    "length ns = c" "map tn_fname ns = map frag_fname fs"
    "\<forall>n \<in> set ns. tn_parent n = - 1 \<and> tn_child n = []" "\<forall>f \<in> set fs. fst (frag_fname f) = mt_name t"
    by (auto simp: appended_def)
  obtain P n where n: "vf_fragment q t f cb = (if P then (c + 1, push_frag (mt_name t) f (push_node n b1)) else (c, b1))"
    "tn_parent n = - 1" "tn_child n = []" "tn_fname n = frag_fname f"
    unfolding cb by (rule vf_fragment_push)
  show ?thesis
  proof (cases P)
    case False
    with assms(1) cb n(1) show ?thesis by simp
  next
    case True
    have "omap_get [] (bd_pruning b1) (mt_name t) = omap_get [] (bd_pruning b) (mt_name t) @ fs" using a(3) by simp
    then have "bd_pruning (push_frag (mt_name t) f (push_node n b1)) =
        omap_set (mt_name t) (omap_get [] (bd_pruning b) (mt_name t) @ (fs @ [f])) (bd_pruning b)"
      using a(3) by (simp add: push_frag_def push_node_def)
    then show ?thesis unfolding n(1) appended_def using True a n assms(2)
      by (intro exI [of _ "ns @ [n]"] exI [of _ "fs @ [f]"]) (simp add: push_frag_def push_node_def)
  qed
qed

lemma vf_fragments_appended:
  assumes "\<forall>f \<in> set fs. fst (frag_fname f) = mt_name t" and "appended (mt_name t) b cb"
  shows "appended (mt_name t) b (fold (vf_fragment q t) fs cb)"
  using assms
proof (induction fs arbitrary: cb)
  case (Cons f fs)
  have "appended (mt_name t) b (vf_fragment q t f cb)" using Cons.prems by (simp add: vf_fragment_appended)
  with Cons show ?case by simp
qed simp

lemma forest_push_all:
  assumes "forest (shape_of tr)" and "\<forall>n \<in> set ns. tn_parent n = - 1 \<and> tn_child n = []"
  shows "forest (shape_of (tr @ ns))"
  using assms
proof (induction ns arbitrary: tr)
  case (Cons n ns)
  have "forest (shape_of (tr @ [n]))" using Cons.prems by (simp add: forest_push)
  moreover have "\<forall>n \<in> set ns. tn_parent n = - 1 \<and> tn_child n = []" using Cons.prems(2) by simp
  ultimately have "forest (shape_of ((tr @ [n]) @ ns))" by (rule Cons.IH)
  then show ?case unfolding append_assoc append_Cons append_Nil .
qed simp

lemma shape_adopt_pieces:
  assumes "length ps = length ns" and "map tn_child ps = map tn_child ns"
  shows "shape_of (tr @ map (\<lambda>n. n\<lparr>tn_parent := int (length tr + length ns)\<rparr>) ps @ [node\<lparr>tn_parent := - 1, tn_child := rev (map int [length tr..<length tr + length ns])\<rparr>])
    = adopt_all (rev [length tr..<length tr + length ns]) (shape_of (tr @ ns))" (is "shape_of ?L = ?R")
proof (rule nth_equalityI)
  show "length (shape_of ?L) = length ?R" using assms(1) by simp
  fix k assume "k < length (shape_of ?L)"
  then consider "k < length tr" | j where "k = length tr + j" "j < length ns" | "k = length tr + length ns"
  proof -
    from \<open>k < length (shape_of ?L)\<close> assms(1) have "k \<le> length tr + length ns" by simp
    then have "k < length tr \<or> (\<exists>j < length ns. k = length tr + j) \<or> k = length tr + length ns" by presburger
    with that show ?thesis by blast
  qed
  then show "shape_of ?L ! k = ?R ! k"
  proof cases
    case 1
    then show ?thesis by (simp add: nth_adopt_all nth_append)
  next
    case 2
    moreover have "tn_child (ps ! j) = tn_child (ns ! j)" using assms 2(2) by (metis nth_map)
    ultimately show ?thesis using assms(1) by (simp add: nth_adopt_all nth_append)
  next
    case 3
    then show ?thesis using assms(1) adopt_all_last [of "rev [length tr..<length tr + length ns]" "tr @ ns"]
      by (simp add: nth_append rev_map)
  qed
qed

lemma keep_key_sel [simp]: "tn_parent (keep_key k n) = tn_parent n" "tn_child (keep_key k n) = tn_child n"
  by (simp_all add: keep_key_def Let_def)

lemma mapped_pieces:
  fixes ns :: "treeNode list"
  assumes "mapped tr mp" and ns: "\<forall>n \<in> set ns. tn_parent n = - 1 \<and> tn_child n = []"
    and "length ps = length ns" and "map tn_child ps = map tn_child ns"
    and node: "tn_parent node = - 1" "tn_child node = rev (map int [length tr..<length tr + length ns])"
  shows "mapped (tr @ map (\<lambda>n. n\<lparr>tn_parent := int (length tr + length ns)\<rparr>) ps @ [node]) mp \<and>
    (\<forall>x \<in> fst ` set mp. omap_get 0 mp x \<noteq> int (length tr + length ns))"
proof -
  let ?L = "tr @ map (\<lambda>n. n\<lparr>tn_parent := int (length tr + length ns)\<rparr>) ps @ [node]"
  let ?ks = "rev [length tr..<length tr + length ns]"
  have "node\<lparr>tn_parent := - 1, tn_child := rev (map int [length tr..<length tr + length ns])\<rparr> = node" using node by (cases node) simp
  with shape_adopt_pieces [OF assms(3,4), of tr node] have s: "shape_of ?L = adopt_all ?ks (shape_of (tr @ ns))" by simp
  have m: "forest (shape_of tr)" "mp_inj mp" "\<forall>x \<in> fst ` set mp. free tr (omap_get 0 mp x)" using assms(1) by (simp_all add: mapped_def)
  have "\<forall>k \<in> set ?ks. orphan (shape_of (tr @ ns)) k"
    using ns by (auto simp: orphan_def nth_append)
  then have f: "forest (shape_of ?L)" unfolding s using forest_push_all [OF m(1) ns] by (intro forest_adopt_all) simp_all
  have "free ?L i \<and> i \<noteq> int (length tr + length ns)" if "free tr i" for i
    using that by (auto simp: free_def in_tree_def nth_append)
  with m(3) have "\<forall>x \<in> fst ` set mp. free ?L (omap_get 0 mp x) \<and> omap_get 0 mp x \<noteq> int (length tr + length ns)" by blast
  with f m(2) node(1) show ?thesis by (simp add: mapped_def)
qed

lemma vf_join_ok:
  assumes b: "frags_ok b" and a: "appended (mt_name t) b (cnt, b1)" and f: "fst (frag_fname frag0) = mt_name t"
    and j: "vf_join q t frag0 cnt b1 = Inr b'"
  shows "frags_ok b'"
proof -
  from a obtain ns fs where a: "bd_tr b1 = bd_tr b @ ns" "bd_mpTr b1 = bd_mpTr b"
    "bd_pruning b1 = (if fs = [] then bd_pruning b else omap_set (mt_name t) (omap_get [] (bd_pruning b) (mt_name t) @ fs) (bd_pruning b))"
    "length ns = cnt" "map tn_fname ns = map frag_fname fs" "\<forall>n \<in> set ns. tn_parent n = - 1 \<and> tn_child n = []"
    by (auto simp: appended_def)
  have fs: "length fs = cnt" using a(4,5) by (metis length_map)
  let ?key = "mt_name t @ ''.'' @ mt_key_column t"
  let ?ps = "map (keep_key ?key) ns"
  let ?ch = "rev (map int [length (bd_tr b)..<length (bd_tr b) + length ns])"
  have eq: "vf_join q t frag0 cnt b1 = (case largest_site (rev ?ps) of None \<Rightarrow> Inl UninitRead
     | Some site \<Rightarrow> enlist (mt_name t) 1 (frag_size frag0) (frag_fname frag0) (push_frag (mt_name t) frag0
      ((drop_frags cnt (mt_name t) b1)\<lparr>bd_tr := bd_tr b @ map (\<lambda>n. n\<lparr>tn_parent := int (length (bd_tr b) + length ns)\<rparr>) ?ps @
        [(vf_join_node q t frag0 site (rev ?ps))\<lparr>tn_child := ?ch\<rparr>]\<rparr>)))"
    unfolding vf_join_def Let_def a(1) a(4) [symmetric] by (simp cong: option.case_cong)
  from j eq obtain site where "largest_site (rev ?ps) = Some site" by (cases "largest_site (rev ?ps)") auto
  define node where "node = (vf_join_node q t frag0 site (rev ?ps))\<lparr>tn_child := ?ch\<rparr>"
  have nd: "tn_parent node = - 1" "tn_child node = ?ch" by (simp_all add: node_def vf_join_node_def Let_def treeNode_frag_def)
  have e: "enlist (mt_name t) 1 (frag_size frag0) (frag_fname frag0) (push_frag (mt_name t) frag0
      ((drop_frags cnt (mt_name t) b1)\<lparr>bd_tr := bd_tr b @ map (\<lambda>n. n\<lparr>tn_parent := int (length (bd_tr b) + length ns)\<rparr>) ?ps @ [node]\<rparr>)) = Inr b'"
    using j unfolding eq \<open>largest_site (rev ?ps) = Some site\<close> option.case node_def .
  let ?tr = "bd_tr b @ map (\<lambda>n. n\<lparr>tn_parent := int (length (bd_tr b) + length ns)\<rparr>) ?ps @ [node]"
  have len: "int (length ?tr) - 1 = int (length (bd_tr b) + length ns)" by simp
  have cm: "map tn_child ?ps = map tn_child ns" by simp
  have mb: "mapped (bd_tr b) (bd_mpTr b)" using b by (simp add: frags_ok_def)
  have m: "mapped ?tr (bd_mpTr b)" "\<forall>x \<in> fst ` set (bd_mpTr b). omap_get 0 (bd_mpTr b) x \<noteq> int (length ?tr) - 1"
    unfolding len using mapped_pieces [OF mb a(6) length_map cm nd] by blast+
  have s: "bd_tr b' = ?tr" "bd_mpTr b' = omap_set (frag_fname frag0) (int (length ?tr) - 1) (bd_mpTr b)"
    "bd_pruning b' = omap_set (mt_name t) (omap_get [] (bd_pruning b) (mt_name t) @ [frag0]) (bd_pruning b)"
    using enlist_sel [OF e] a(2,3) fs by (auto simp: push_frag_def drop_frags_def Let_def split: if_splits)
  have "mapped (bd_tr b') (bd_mpTr b')" unfolding s using mapped_set [OF m(1) _ m(2)] by simp
  moreover have "kept (bd_mpTr b') (bd_pruning b')" unfolding s(2,3) using b f by (intro kept_push) (simp_all add: frags_ok_def)
  ultimately show ?thesis by (simp add: frags_ok_def)
qed

lemma vf_single_ok:
  assumes b: "frags_ok b" and "appended (mt_name t) b (1, b1)"
    and e: "enlist (mt_name t) site sz (tn_fname (last (bd_tr b1))) b1 = Inr b'"
  shows "frags_ok b'"
proof -
  from assms(2) obtain ns fs where a: "bd_tr b1 = bd_tr b @ ns" "bd_mpTr b1 = bd_mpTr b"
    "bd_pruning b1 = (if fs = [] then bd_pruning b else omap_set (mt_name t) (omap_get [] (bd_pruning b) (mt_name t) @ fs) (bd_pruning b))"
    "length ns = 1" "map tn_fname ns = map frag_fname fs" "\<forall>n \<in> set ns. tn_parent n = - 1 \<and> tn_child n = []"
    "\<forall>f \<in> set fs. fst (frag_fname f) = mt_name t"
    by (auto simp: appended_def)
  from a(4) obtain n where n: "ns = [n]" by (auto simp: length_Suc_conv)
  with a(5) obtain f where f: "fs = [f]" "tn_fname n = frag_fname f" by (cases fs) auto
  let ?tr = "bd_tr b @ [n]"
  have s: "bd_tr b' = ?tr" "bd_mpTr b' = omap_set (frag_fname f) (int (length ?tr) - 1) (bd_mpTr b)"
    "bd_pruning b' = omap_set (mt_name t) (omap_get [] (bd_pruning b) (mt_name t) @ [f]) (bd_pruning b)"
    using enlist_sel [OF e] a(1-3) n f by simp_all
  have m: "mapped ?tr (bd_mpTr b)" "\<forall>x \<in> fst ` set (bd_mpTr b). omap_get 0 (bd_mpTr b) x \<noteq> int (length ?tr) - 1"
    using mapped_push [of "bd_tr b" "bd_mpTr b" n] b a(6) n unfolding frags_ok_def by auto
  have "mapped (bd_tr b') (bd_mpTr b')" unfolding s using mapped_set [OF m(1) _ m(2)] by simp
  moreover have "kept (bd_mpTr b') (bd_pruning b')" unfolding s(2,3) using b a(7) f by (intro kept_push) (simp_all add: frags_ok_def)
  ultimately show ?thesis by (simp add: frags_ok_def)
qed

lemma vf_table_ok:
  assumes b: "frags_ok b" and fs: "\<forall>f \<in> set (mt_frags t). fst (frag_fname f) = mt_name t" and r: "vf_table q t b = Inr b'"
  shows "frags_ok b'"
proof -
  from r obtain f0 where f0: "vat (mt_frags t) 0 = Inr f0" by (auto simp: vf_table_def)
  with fs have n0: "fst (frag_fname f0) = mt_name t" by (metis vat_eq_Inr nth_mem)
  let ?b = "b\<lparr>bd_relationSize := omap_set (mt_name t) (frag_size f0) (bd_relationSize b)\<rparr>"
  obtain cnt b1 where c: "fold (vf_fragment q t) (mt_frags t) (0, ?b) = (cnt, b1)" by (metis prod.exhaust)
  have "appended (mt_name t) ?b (0, ?b)" by (auto simp: appended_def)
  with c vf_fragments_appended [OF fs this, of q] have a: "appended (mt_name t) ?b (cnt, b1)" by simp
  have ok: "frags_ok ?b" using b by (simp add: frags_ok_def)
  consider "cnt > 1" | "cnt = 1" | "cnt = 0" by linarith
  then show ?thesis
  proof cases
    case 1
    with r c f0 have "vf_join q t f0 cnt b1 = Inr b'" by (simp add: vf_table_def Let_def)
    then show ?thesis by (rule vf_join_ok [OF ok a n0])
  next
    case 2
    with r c f0 have "enlist (mt_name t) (tn_site (last (bd_tr b1))) (tn_size (last (bd_tr b1))) (tn_fname (last (bd_tr b1))) b1 = Inr b'"
      by (simp add: vf_table_def Let_def)
    with a 2 show ?thesis by (auto intro: vf_single_ok [OF ok])
  next
    case 3
    with a have "bd_tr b1 = bd_tr b" "bd_mpTr b1 = bd_mpTr b" "bd_pruning b1 = bd_pruning b" by (auto simp: appended_def)
    then have ok1: "frags_ok b1" using b by (simp add: frags_ok_def)
    let ?n = "(treeNode_frag ''Fragment'' (frag_fname f0) (frag_size f0) 1 (frag_vf_column f0)
        (filter (\<lambda>x. cond_table x = mt_name t) (q_Predicate q)))\<lparr>tn_projection := [mt_key_column t]\<rparr>"
    have "enlist (mt_name t) 1 (frag_size f0) (frag_fname f0) ((push_frag (mt_name t) f0 (push_node ?n b1))\<lparr>bd_relationSize := bd_relationSize b1\<rparr>) = Inr b'"
      using r c f0 3 by (simp add: vf_table_def Let_def push_frag_def push_node_def)
    then show ?thesis by (rule frags_ok_add [OF ok1 _ _ n0, rotated 2]) (simp_all add: treeNode_frag_def)
  qed
qed

text \<open>Every fragment is named after its table.\<close>

definition named_frags :: "metadataTable list \<Rightarrow> bool" where
  "named_frags Ts = (\<forall>t \<in> set Ts. \<forall>f \<in> set (mt_frags t). fst (frag_fname f) = mt_name t)"

lemma build_frags_ok:
  assumes "named_frags Ts" and "rfold (add_table q froms) Ts build_new = Inr b"
  shows "frags_ok b"
  using assms(2)
proof (rule rfold_invariant [where P = frags_ok])
  show "frags_ok build_new" by (simp add: frags_ok_def build_new_def mapped_def kept_def mp_inj_def)
  fix t u v
  assume "t \<in> set Ts" "frags_ok u" "add_table q froms t u = Inr v"
  with assms(1) show "frags_ok v"
    by (auto simp: add_table_def named_frags_def split: if_splits intro: hf_table_ok vf_table_ok)
qed

end
