(* ===== verification/Client_Shell.thy ===== *)
theory Client_Shell
  imports Ddb_Prelude
begin

text \<open>
  The client (client/cli.cpp, cli.hpp, client.cpp): the shell with its two prompts as a state machine over the lines read, the
  loop as a partial function, and the requests the client sends. The client ends exactly when a line is exit.
\<close>

section \<open>The shell\<close>

datatype Prompt = Prompt_SQL | Prompt_CONF

text \<open>A command changes the state \<open>'c\<close> of the client; the commands of the shell itself are fixed by the constructor.\<close>

type_synonym 'c Fn = "string \<Rightarrow> 'c \<Rightarrow> 'c"

datatype shell_command = To_conf | To_sql | Exit_shell

record 'c Shell =
  sh_prompt :: Prompt
  sh_shell_cmd :: "(string \<times> shell_command) list"
  sh_conf_cmd :: "(string \<times> 'c Fn) list"
  sh_sql_cmd :: "'c Fn"

definition Shell_new :: "'c Fn \<Rightarrow> 'c Shell" where
  "Shell_new cmd = \<lparr>sh_prompt = Prompt_SQL,
     sh_shell_cmd = map_insert ''exit'' Exit_shell (map_insert ''sql'' To_sql (map_insert ''conf'' To_conf [])),
     sh_conf_cmd = [], sh_sql_cmd = cmd\<rparr>"

definition register_conf_cmd :: "string \<Rightarrow> 'c Fn \<Rightarrow> 'c Shell \<Rightarrow> 'c Shell" where
  "register_conf_cmd cmd_name fn sh = sh\<lparr>sh_conf_cmd := map_insert cmd_name fn (sh_conf_cmd sh)\<rparr>"

text \<open>A line of \<open>readline\<close>, which is null at the end of the input, without its leading blanks.\<close>

definition parse_input :: "string option \<Rightarrow> string" where
  "parse_input line_read = (case line_read of None \<Rightarrow> [] | Some line \<Rightarrow> dropWhile (\<lambda>c. c = CHR '' '') line)"

definition parse_cmd_name :: "string \<Rightarrow> string" where
  "parse_cmd_name s = takeWhile (\<lambda>c. c \<noteq> CHR '' '') s"

text \<open>
  One turn of the loop: the shell and the state of the client after it, and whether the process ends. Printing is an operation of
  the client state.
\<close>

definition shell_turn :: "'c Fn \<Rightarrow> string \<Rightarrow> 'c Shell \<times> 'c \<Rightarrow> bool \<times> 'c Shell \<times> 'c" where
  "shell_turn print line st = (case st of (sh, c) \<Rightarrow>
     if line = [] then (False, sh, c)
     else case map_of (sh_shell_cmd sh) line of
         Some To_conf \<Rightarrow> (False, sh\<lparr>sh_prompt := Prompt_CONF\<rparr>, c)
       | Some To_sql \<Rightarrow> (False, sh\<lparr>sh_prompt := Prompt_SQL\<rparr>, c)
       | Some Exit_shell \<Rightarrow> (True, sh, print ''Goodbye.'' c)
       | None \<Rightarrow>
           if sh_prompt sh = Prompt_SQL then (False, sh, sh_sql_cmd sh line c)
           else (case map_of (sh_conf_cmd sh) (parse_cmd_name line) of
               Some fn \<Rightarrow> (False, sh, fn line c)
             | None \<Rightarrow> (False, sh, print (''Command not found: '' @ line) c)))"

text \<open>The loop of \<open>run\<close>, on the lines that come in; it ends only with the process.\<close>

partial_function (option) run :: "'c Fn \<Rightarrow> (nat \<Rightarrow> string option) \<Rightarrow> nat \<Rightarrow> 'c Shell \<times> 'c \<Rightarrow> 'c option" where
  "run print lines k st = (case shell_turn print (parse_input (lines k)) st of (stop, st') \<Rightarrow>
     if stop then Some (snd st') else run print lines (Suc k) st')"

declare run.simps [code]

section \<open>The client\<close>

text \<open>The outcome of a remote call: an error text, or the two addresses, the message, the attachment and the latency as text.\<close>

datatype reply = Failed string | Received string string string string string

record client =
  cl_log_id :: int
  cl_sent :: "(string \<times> string \<times> int) list"
  cl_out :: "string list"

definition send_request :: "(string \<Rightarrow> string \<Rightarrow> reply) \<Rightarrow> string \<Rightarrow> string \<Rightarrow> int \<Rightarrow> client \<Rightarrow> string \<times> client" where
  "send_request stub msg_type msg log_id c =
     (case stub msg_type msg of
        Failed err \<Rightarrow> err
      | Received remote local text attached latency \<Rightarrow>
          ''Received response from '' @ remote @ '' to '' @ local @ '': '' @ text @ '' (attached='' @ attached @ '')'' @ '' latency='' @ latency @ ''us'',
      c\<lparr>cl_sent := cl_sent c @ [(msg_type, msg, log_id)]\<rparr>)"

definition print_line :: "client Fn" where
  "print_line s c = c\<lparr>cl_out := cl_out c @ [s]\<rparr>"

definition client_cmd :: "(string \<Rightarrow> string \<Rightarrow> reply) \<Rightarrow> string \<Rightarrow> string \<Rightarrow> client Fn" where
  "client_cmd stub msg_type name msg c =
     (let c = c\<lparr>cl_log_id := cl_log_id c + 1\<rparr>;
          (recv_msg, c) = send_request stub msg_type msg (cl_log_id c) c
      in print_line (''recv msg: '' @ recv_msg) (print_line (''execute '' @ name @ '': '' @ msg) c))"

definition client_shell :: "(string \<Rightarrow> string \<Rightarrow> reply) \<Rightarrow> client Shell" where
  "client_shell stub = register_conf_cmd ''partition'' (client_cmd stub ''conf'' ''conf'') (Shell_new (client_cmd stub ''sql'' ''sql''))"

text \<open>The program: nothing but an exit when the channel cannot be initialised.\<close>

definition client_main :: "bool \<Rightarrow> (string \<Rightarrow> string \<Rightarrow> reply) \<Rightarrow> (nat \<Rightarrow> string option) \<Rightarrow> client option" where
  "client_main channel_ok stub lines =
     (let c = \<lparr>cl_log_id = 0, cl_sent = [], cl_out = []\<rparr> in
      if channel_ok then run print_line lines 0 (client_shell stub, c) else Some c)"

section \<open>Properties\<close>

text \<open>The commands of the shell never change.\<close>

definition standard_shell :: "'c Shell \<Rightarrow> bool" where
  "standard_shell sh = (sh_shell_cmd sh = sh_shell_cmd (Shell_new (\<lambda>_ c. c) :: 'c Shell))"

interpretation conf_cmds: registry register_conf_cmd "\<lambda>sh. map_of (sh_conf_cmd sh)"
  by unfold_locales (simp add: register_conf_cmd_def map_of_map_insert)

text \<open>A name that is registered twice keeps its first command.\<close>

lemma registered_first:
  "map_of (sh_conf_cmd (fold (\<lambda>kv. register_conf_cmd (fst kv) (snd kv)) kvs (Shell_new cmd))) = map_of kvs"
  unfolding conf_cmds.lookup_puts by (simp add: Shell_new_def)

lemma standard_commands:
  "standard_shell sh \<Longrightarrow> map_of (sh_shell_cmd sh) line = (if line = ''exit'' then Some Exit_shell else
     if line = ''sql'' then Some To_sql else if line = ''conf'' then Some To_conf else None)"
  by (simp add: standard_shell_def Shell_new_def map_insert_def map_of_omap_set)

lemma turn_standard:
  assumes "standard_shell sh" and "shell_turn print line (sh, c) = (stop, sh', c')"
  shows "stop = (line = ''exit'')" and "standard_shell sh'"
  using assms standard_commands [OF assms(1), of line]
  by (auto simp: shell_turn_def standard_shell_def split: if_splits option.splits)

lemma run_exit:
  assumes "parse_input (lines (i + k)) = ''exit''" and "standard_shell sh"
  shows "\<exists>c'. run print lines i (sh, c) = Some c'"
  using assms
proof (induction k arbitrary: i sh c)
  case 0
  obtain stop sh' c' where t: "shell_turn print (parse_input (lines i)) (sh, c) = (stop, sh', c')" by (metis prod_cases3)
  with turn_standard(1) [OF 0(2) t] 0(1) show ?case by (subst run.simps) simp
next
  case (Suc k)
  obtain stop sh' c' where t: "shell_turn print (parse_input (lines i)) (sh, c) = (stop, sh', c')" by (metis prod_cases3)
  have "\<exists>d. run print lines (Suc i) (sh', c') = Some d" using Suc.IH [of "Suc i" sh' c'] Suc.prems turn_standard(2) [OF Suc.prems(2) t] by simp
  with t show ?case by (subst run.simps) auto
qed

lemma run_no_exit:
  assumes "run print lines i (sh, c) = Some d" and "standard_shell sh"
  shows "\<exists>k \<ge> i. parse_input (lines k) = ''exit''"
proof -
  have "standard_shell (fst st) \<longrightarrow> (\<exists>k \<ge> i. parse_input (lines k) = ''exit'')" if r: "run print lines i st = Some d" for st :: "'a Shell \<times> 'a"
  proof (rule run.raw_induct [of "\<lambda>print lines i st d. standard_shell (fst st) \<longrightarrow> (\<exists>k \<ge> i. parse_input (lines k) = ''exit'')", OF _ r])
    fix f :: "'a Fn \<Rightarrow> (nat \<Rightarrow> string option) \<Rightarrow> nat \<Rightarrow> 'a Shell \<times> 'a \<Rightarrow> 'a option" and print lines i and st :: "'a Shell \<times> 'a" and d
    assume IH: "\<And>print lines i st d. f print lines i st = Some d \<Longrightarrow> standard_shell (fst st) \<longrightarrow> (\<exists>k \<ge> i. parse_input (lines k) = ''exit'')"
      and step: "(case shell_turn print (parse_input (lines i)) st of (stop, st') \<Rightarrow> if stop then Some (snd st') else f print lines (Suc i) st') = Some d"
    obtain sh c where st: "st = (sh, c)" by (cases st)
    obtain stop sh' c' where t: "shell_turn print (parse_input (lines i)) (sh, c) = (stop, sh', c')" by (metis prod_cases3)
    show "standard_shell (fst st) \<longrightarrow> (\<exists>k \<ge> i. parse_input (lines k) = ''exit'')"
    proof
      assume s: "standard_shell (fst st)"
      show "\<exists>k \<ge> i. parse_input (lines k) = ''exit''"
      proof (cases stop)
        case True
        with turn_standard(1) [OF _ t] s st show ?thesis by auto
      next
        case False
        with step st t have "f print lines (Suc i) (sh', c') = Some d" by simp
        from IH [OF this] turn_standard(2) [OF _ t] s st show ?thesis by (auto intro: Suc_leD)
      qed
    qed
  qed
  with assms show ?thesis by auto
qed

lemma client_shell_standard: "standard_shell (client_shell stub)"
  by (simp add: standard_shell_def client_shell_def register_conf_cmd_def Shell_new_def)

text \<open>
  C40: the client ends exactly when a line says so. Once the channel is open, the client comes to an end if and only if some line of
  the input, without its leading blanks, is \<open>exit\<close>; at the end of an input without such a line it keeps reading.
\<close>

theorem client_ends_iff_exit:
  "(\<exists>c. client_main True stub lines = Some c) \<longleftrightarrow> (\<exists>k. parse_input (lines k) = ''exit'')"
  using run_exit [OF _ client_shell_standard, of lines 0] run_no_exit [OF _ client_shell_standard, of print_line lines 0]
  by (auto simp: client_main_def Let_def)

text \<open>A session: both kinds of message, with the numbers of the log.\<close>

definition session_lines :: "nat \<Rightarrow> string option" where
  "session_lines k = (let ls = [''select * from Book'', ''  conf'', ''partition Book'', ''drop'', ''sql'', '''', ''exit''] in
     if k < length ls then Some (ls ! k) else None)"

lemma session_sent:
  "map_option cl_sent (client_main True (\<lambda>ty msg. Failed ''down'') session_lines) =
     Some [(''sql'', ''select * from Book'', 1), (''conf'', ''partition Book'', 2)]"
  by code_simp

end
