(* ===== verification/Base64.thy ===== *)
theory Base64
  imports Ddb_Prelude
begin

text \<open>
  The Base64 coder of metadata/metadata.cpp (EncodeBase64 and DecodeBase64), with the bit operations on signed characters as
  the code has them, and the exact range of strings on which decoding undoes encoding.
\<close>

unbundle bit_operations_syntax

section \<open>The code\<close>

definition base64_key :: string where
  "base64_key = ''ABCDEFGHIJKLMNOPQRSTUVWXYZabcdefghijklmnopqrstuvwxyz0123456789+/''"

text \<open>A \<open>char\<close> is signed on the platform: its value as an \<open>int\<close>.\<close>

definition schar :: "char \<Rightarrow> int" where
  "schar c = (if of_char c < (128 :: int) then of_char c else of_char c - 256)"

text \<open>
  \<open>inputStr[i]\<close> is the terminating zero at the length; one position further is past the string, and the model
  reads an arbitrary character \<open>g\<close> there.
\<close>

definition str_at :: "char \<Rightarrow> string \<Rightarrow> nat \<Rightarrow> char" where
  "str_at g s i = (if i < length s then s ! i else if i = length s then CHR 0x00 else g)"

definition c_strlen :: "string \<Rightarrow> nat" where
  "c_strlen s = length (takeWhile (\<lambda>c. c \<noteq> CHR 0x00) s)"

definition key_at :: "int \<Rightarrow> char" where
  "key_at i = base64_key ! nat i"

definition CRLF :: string where
  "CRLF = [CHR 0x0D, CHR 0x0A]"

definition encode_group :: "string \<Rightarrow> int \<Rightarrow> string" where
  "encode_group temp LineLength =
     (let t0 = schar (temp ! 0); t1 = schar (temp ! 1); t2 = schar (temp ! 2); len = c_strlen temp;
          eol = (if LineLength \<ge> 76 then CRLF else [])
      in if len = 1 then [key_at (drop_bit 2 (t0 AND 0xFC)), key_at (push_bit 4 (t0 AND 0x3))] @ eol @ ''==''
         else if len = 2 then [key_at (drop_bit 2 (t0 AND 0xFC)), key_at (push_bit 4 (t0 AND 0x3) OR drop_bit 4 (t1 AND 0xF0)),
                               key_at (push_bit 2 (t1 AND 0x0F))] @ eol @ ''=''
         else if len = 3 then [key_at (drop_bit 2 (t0 AND 0xFC)), key_at (push_bit 4 (t0 AND 0x3) OR drop_bit 4 (t1 AND 0xF0)),
                               key_at (push_bit 2 (t1 AND 0xF) OR drop_bit 6 (t2 AND 0xC0)), key_at (t2 AND 0x3F)] @ eol
         else [])"

function encode_loop :: "char \<Rightarrow> string \<Rightarrow> nat \<Rightarrow> int \<Rightarrow> string" where
  "encode_loop g s i LineLength =
     (if i < length s
      then encode_group [str_at g s i, str_at g s (i + 1), str_at g s (i + 2), CHR 0x00] (LineLength + 4) @
           encode_loop g s (i + 3) (LineLength + 4)
      else [])"
  by pat_completeness auto
termination by (relation "measure (\<lambda>(g, s, i, l). length s - i)") auto

declare encode_loop.simps [simp del]

definition EncodeBase64 :: "char \<Rightarrow> string \<Rightarrow> string" where
  "EncodeBase64 g inputStr = encode_loop g inputStr 0 0"

text \<open>The position of a character in the key; \<open>asc[j]\<close> keeps its indeterminate value when there is none.\<close>

definition asc :: "char \<Rightarrow> int res" where
  "asc c = (case find (\<lambda>k. base64_key ! k = c) [0..<64] of Some k \<Rightarrow> Inr (int k) | None \<Rightarrow> Inl UninitRead)"

definition to_char :: "int \<Rightarrow> char" where
  "to_char i = char_of (i mod 256)"

definition decode_group :: "string \<Rightarrow> string res" where
  "decode_group temp =
     rbind (asc (temp ! 0)) (\<lambda>a0. rbind (asc (temp ! 1)) (\<lambda>a1.
       let c0 = to_char (push_bit 2 a0 OR drop_bit 6 (push_bit 2 a1)) in
       if temp ! 2 = CHR ''='' \<and> temp ! 3 = CHR ''='' then Inr [c0]
       else rbind (asc (temp ! 2)) (\<lambda>a2.
         let c1 = to_char (push_bit 4 a1 OR drop_bit 4 (push_bit 2 a2)) in
         if temp ! 3 = CHR ''='' then Inr [c0, c1]
         else rbind (asc (temp ! 3)) (\<lambda>a3.
           Inr [c0, c1, to_char (push_bit 6 a2 OR drop_bit 2 (push_bit 2 a3))]))))"

fun decode_loop :: "string \<Rightarrow> string res" where
  "decode_loop [] = Inr []"
| "decode_loop (a # b # c # d # s) = rbind (decode_group [a, b, c, d]) (\<lambda>x. rbind (decode_loop s) (\<lambda>y. Inr (x @ y)))"
| "decode_loop [a, b, c] = decode_group [a, b, c, CHR 0x00]"
| "decode_loop _ = Inl OutOfBounds"

definition DecodeBase64 :: "string \<Rightarrow> string res" where
  "DecodeBase64 inputStr = decode_loop inputStr"

section \<open>Groups of three characters\<close>

lemma push_or_add: "0 \<le> y \<Longrightarrow> y < 2 ^ n \<Longrightarrow> push_bit n x OR y = x * 2 ^ n + y" for x y :: int
proof -
  assume "0 \<le> y" and "y < 2 ^ n"
  then have "take_bit n y = y" by (simp add: take_bit_int_eq_self)
  then have "\<not> bit (push_bit n x) k \<or> \<not> bit y k" for k by (metis bit_push_bit_iff bit_take_bit_iff not_le)
  then have "push_bit n x + y = push_bit n x OR y" by (rule disjunctive_add)
  then show ?thesis by (simp add: push_bit_eq_mult)
qed

lemma mult_or_add:
  "0 \<le> y \<Longrightarrow> y < 16 \<Longrightarrow> x * 16 OR y = x * 16 + y" "0 \<le> y \<Longrightarrow> y < 4 \<Longrightarrow> x * 4 OR y = x * 4 + y" for x y :: int
  using push_or_add [of y 4 x] push_or_add [of y 2 x] by (simp_all add: push_bit_eq_mult)

lemma list_all_enum: "list_all P Enum.enum \<Longrightarrow> P (c :: char)"
  by (simp add: list_all_iff enum_UNIV)

lemma schar_bits:
  "drop_bit 2 (schar c AND 0xFC) = of_char c div 4" "schar c AND 0x3 = of_char c mod 4"
  "drop_bit 4 (schar c AND 0xF0) = of_char c div 16" "schar c AND 0xF = of_char c mod 16"
  "drop_bit 6 (schar c AND 0xC0) = of_char c div 64" "schar c AND 0x3F = of_char c mod 64"
  by (rule list_all_enum [of "\<lambda>c. drop_bit 2 (schar c AND 0xFC) = of_char c div 4"], code_simp,
      rule list_all_enum [of "\<lambda>c. schar c AND 0x3 = of_char c mod 4"], code_simp,
      rule list_all_enum [of "\<lambda>c. drop_bit 4 (schar c AND 0xF0) = of_char c div 16"], code_simp,
      rule list_all_enum [of "\<lambda>c. schar c AND 0xF = of_char c mod 16"], code_simp,
      rule list_all_enum [of "\<lambda>c. drop_bit 6 (schar c AND 0xC0) = of_char c div 64"], code_simp,
      rule list_all_enum [of "\<lambda>c. schar c AND 0x3F = of_char c mod 64"], code_simp)

lemma asc_key: "0 \<le> i \<Longrightarrow> i < 64 \<Longrightarrow> asc (key_at i) = Inr i"
proof -
  have "list_all (\<lambda>k. asc (base64_key ! k) = Inr (int k)) [0..<64]" by code_simp
  then have "\<And>k. k < 64 \<Longrightarrow> asc (base64_key ! k) = Inr (int k)" by (simp add: list_all_iff)
  from this [of "nat i"] show "0 \<le> i \<Longrightarrow> i < 64 \<Longrightarrow> ?thesis" by (simp add: key_at_def)
qed

lemma key_not_pad: "0 \<le> i \<Longrightarrow> i < 64 \<Longrightarrow> key_at i \<noteq> CHR ''=''"
proof
  assume "0 \<le> i" "i < 64" "key_at i = CHR ''=''"
  with asc_key have "asc (CHR ''='') = Inr i" by metis
  moreover have "asc (CHR ''='') = Inl UninitRead" by code_simp
  ultimately show False by simp
qed

lemma asc_eol: "asc (CHR 0x0D) = Inl UninitRead"
  by code_simp

text \<open>The four sextets of three bytes.\<close>

definition sextets :: "char \<Rightarrow> char \<Rightarrow> char \<Rightarrow> string" where
  "sextets a b c = [key_at (of_char a div 4), key_at (of_char a mod 4 * 16 + of_char b div 16),
     key_at (of_char b mod 16 * 4 + of_char c div 64), key_at (of_char c mod 64)]"

lemma of_char_range: "0 \<le> (of_char c :: int)" "of_char c < (256 :: int)"
  by (simp_all add: of_char_def)

lemma or_bytes:
  "of_char a mod 4 * 16 OR of_char b div 16 = of_char a mod 4 * 16 + of_char b div (16 :: int)"
  "of_char b mod 16 * 4 OR of_char c div 64 = of_char b mod 16 * 4 + of_char c div (64 :: int)"
proof -
  have "0 \<le> of_char b div (16 :: int)" "of_char b div 16 < (16 :: int)" "0 \<le> of_char c div (64 :: int)" "of_char c div 64 < (4 :: int)"
    using of_char_range [of b] of_char_range [of c] by linarith+
  then show "of_char a mod 4 * 16 OR of_char b div 16 = of_char a mod 4 * 16 + of_char b div (16 :: int)"
    "of_char b mod 16 * 4 OR of_char c div 64 = of_char b mod 16 * 4 + of_char c div (64 :: int)"
    by (simp_all add: mult_or_add)
qed

lemma encode_group_eq:
  assumes "a \<noteq> CHR 0x00"
  shows "b \<noteq> CHR 0x00 \<Longrightarrow> c \<noteq> CHR 0x00 \<Longrightarrow> encode_group [a, b, c, CHR 0x00] L = sextets a b c @ (if L \<ge> 76 then CRLF else [])"
    and "b \<noteq> CHR 0x00 \<Longrightarrow> encode_group [a, b, CHR 0x00, CHR 0x00] L = take 3 (sextets a b (CHR 0x00)) @ (if L \<ge> 76 then CRLF else []) @ ''=''"
    and "encode_group [a, CHR 0x00, g, CHR 0x00] L = take 2 (sextets a (CHR 0x00) (CHR 0x00)) @ (if L \<ge> 76 then CRLF else []) @ ''==''"
  unfolding encode_group_def Let_def schar_bits using assms of_char_range
  by (simp_all add: c_strlen_def sextets_def or_bytes push_bit_eq_mult)

lemma decode_bytes:
  fixes A B C :: int
  assumes "0 \<le> A" "A < 256" "0 \<le> B" "B < 256" "0 \<le> C" "C < 256"
  shows "(push_bit 2 (A div 4) OR drop_bit 6 (push_bit 2 (A mod 4 * 16 + B div 16))) mod 256 = A"
    and "(push_bit 4 (A mod 4 * 16 + B div 16) OR drop_bit 4 (push_bit 2 (B mod 16 * 4 + C div 64))) mod 256 = B"
    and "(push_bit 6 (B mod 16 * 4 + C div 64) OR drop_bit 2 (push_bit 2 (C mod 64))) mod 256 = C"
proof -
  have "drop_bit 6 (push_bit 2 (A mod 4 * 16 + B div 16)) = A mod 4"
    using assms by (simp add: drop_bit_eq_div push_bit_eq_mult)
  then show "(push_bit 2 (A div 4) OR drop_bit 6 (push_bit 2 (A mod 4 * 16 + B div 16))) mod 256 = A"
    using assms push_or_add [of "A mod 4" 2 "A div 4"] by simp
  have "drop_bit 4 (push_bit 2 (B mod 16 * 4 + C div 64)) = B mod 16"
    using assms by (simp add: drop_bit_eq_div push_bit_eq_mult)
  then show "(push_bit 4 (A mod 4 * 16 + B div 16) OR drop_bit 4 (push_bit 2 (B mod 16 * 4 + C div 64))) mod 256 = B"
    using assms push_or_add [of "B mod 16" 4 "A mod 4 * 16 + B div 16"] by (simp add: algebra_simps)
  have "drop_bit 2 (push_bit 2 (C mod 64)) = C mod 64"
    using assms by (simp add: drop_bit_eq_div push_bit_eq_mult)
  then show "(push_bit 6 (B mod 16 * 4 + C div 64) OR drop_bit 2 (push_bit 2 (C mod 64))) mod 256 = C"
    using assms push_or_add [of "C mod 64" 6 "B mod 16 * 4 + C div 64"] by (simp add: algebra_simps)
qed

lemma decode_sextets:
  "decode_group (sextets a b c) = Inr [a, b, c]"
  "decode_group (take 3 (sextets a b (CHR 0x00)) @ ''='') = Inr [a, b]"
  "decode_group (take 2 (sextets a (CHR 0x00) (CHR 0x00)) @ ''=='') = Inr [a]"
proof -
  have r: "0 \<le> (of_char x :: int)" "of_char x < (256 :: int)" for x by (rule of_char_range)+
  have i: "0 \<le> of_char x div (4 :: int)" "of_char x div 4 < (64 :: int)"
    "0 \<le> of_char x mod 4 * 16 + of_char y div (16 :: int)" "of_char x mod 4 * 16 + of_char y div 16 < (64 :: int)"
    "0 \<le> of_char x mod 16 * 4 + of_char y div (64 :: int)" "of_char x mod 16 * 4 + of_char y div 64 < (64 :: int)"
    "0 \<le> of_char x mod (64 :: int)" "of_char x mod 64 < (64 :: int)" for x y
    using r [of x] r [of y] by linarith+
  have t: "to_char (push_bit 2 (of_char a div 4) OR drop_bit 6 (push_bit 2 (of_char a mod 4 * 16 + of_char b div 16))) = a"
    "to_char (push_bit 4 (of_char a mod 4 * 16 + of_char b div 16) OR drop_bit 4 (push_bit 2 (of_char b mod 16 * 4 + of_char c div 64))) = b"
    "to_char (push_bit 6 (of_char b mod 16 * 4 + of_char c div 64) OR drop_bit 2 (push_bit 2 (of_char c mod 64))) = c" for a b c
    unfolding to_char_def by (simp_all only: decode_bytes [OF r r r] char_of_char)
  show "decode_group (sextets a b c) = Inr [a, b, c]"
    using i by (simp add: decode_group_def sextets_def asc_key key_not_pad t)
  show "decode_group (take 3 (sextets a b (CHR 0x00)) @ ''='') = Inr [a, b]"
    using i t(2) [of a b "CHR 0x00"] i(5) [of b "CHR 0x00"] i(6) [of b "CHR 0x00"] by (simp add: decode_group_def sextets_def asc_key key_not_pad t)
  show "decode_group (take 2 (sextets a (CHR 0x00) (CHR 0x00)) @ ''=='') = Inr [a]"
    using i t(1) [of a "CHR 0x00"] i(3) [of a "CHR 0x00"] i(4) [of a "CHR 0x00"] by (simp add: decode_group_def sextets_def asc_key key_not_pad t)
qed

section \<open>Whole strings\<close>

text \<open>The encoder by groups, on the list of characters.\<close>

fun enc3 :: "string \<Rightarrow> int \<Rightarrow> string" where
  "enc3 (a # b # c # s) L = encode_group [a, b, c, CHR 0x00] (L + 4) @ enc3 s (L + 4)"
| "enc3 [a, b] L = encode_group [a, b, CHR 0x00, CHR 0x00] (L + 4)"
| "enc3 [a] L = encode_group [a, CHR 0x00, CHR 0x00, CHR 0x00] (L + 4)"
| "enc3 [] L = []"

lemma str_at_drop: "i \<le> length s \<Longrightarrow> str_at g s (i + k) = str_at g (drop i s) k"
  by (auto simp: str_at_def)

text \<open>The character read past the end never reaches the result.\<close>

lemma encode_loop_enc3:
  assumes "CHR 0x00 \<notin> set t" and "drop i s = t"
  shows "encode_loop g s i L = enc3 t L"
proof (cases "i < length s")
  case False
  with assms(2) show ?thesis by (simp add: encode_loop.simps [of g s i] enc3.simps(4))
next
  case True
  then have l: "i \<le> length s" by simp
  show ?thesis using assms True l
  proof (induction t L arbitrary: i rule: enc3.induct)
    case (1 a b c t L)
    note at = str_at_drop [OF 1(5), of g 0] str_at_drop [OF 1(5), of g 1] str_at_drop [OF 1(5), of g 2]
    have d: "drop (i + 3) s = t" using 1(3) by (metis add.commute drop_drop drop_Suc_Cons drop0 numeral_3_eq_3)
    have "encode_loop g s (i + 3) (L + 4) = enc3 t (L + 4)"
    proof (cases "i + 3 < length s")
      case True
      with 1(2) d show ?thesis by (intro 1(1)) auto
    next
      case False
      with d have "t = []" by simp
      with False show ?thesis by (simp add: encode_loop.simps [of g s "i + 3"])
    qed
    with at 1(3,4) show ?case by (simp add: encode_loop.simps [of g s i] str_at_def)
  next
    case (2 a b L)
    note at = str_at_drop [OF 2(4), of g 0] str_at_drop [OF 2(4), of g 1] str_at_drop [OF 2(4), of g 2]
    have "length (drop i s) = 2" using 2(2) by simp
    then have "encode_loop g s (i + 3) (L + 4) = []" by (simp add: encode_loop.simps [of g s "i + 3"])
    with at 2(2,3) show ?case by (simp add: encode_loop.simps [of g s i] str_at_def)
  next
    case (3 a L)
    note at = str_at_drop [OF 3(4), of g 0] str_at_drop [OF 3(4), of g 1]
    have "length (drop i s) = 1" using 3(2) by simp
    then have "encode_loop g s (i + 3) (L + 4) = []" by (simp add: encode_loop.simps [of g s "i + 3"])
    moreover have "a \<noteq> CHR 0x00" using 3(1) by auto
    ultimately show ?case using at 3(2,3) by (simp add: encode_loop.simps [of g s i] encode_group_eq(3)) (simp add: str_at_def encode_group_eq(3))
  qed (simp)
qed

lemma decode_loop_group:
  "length x = 4 \<Longrightarrow> decode_loop (x @ t) = rbind (decode_group x) (\<lambda>y. rbind (decode_loop t) (\<lambda>z. Inr (y @ z)))"
  by (auto simp: length_Suc_conv numeral_eq_Suc)

lemma decode_loop_last: "length x = 4 \<Longrightarrow> decode_group x = Inr y \<Longrightarrow> decode_loop x = Inr y"
  using decode_loop_group [of x "[]"] by simp

lemma length_sextets [simp]: "length (sextets a b c) = 4"
  by (simp add: sextets_def)

lemma decode_enc3:
  assumes "CHR 0x00 \<notin> set s" and "L + 4 * int ((length s + 2) div 3) < 76"
  shows "decode_loop (enc3 s L) = Inr s"
  using assms
proof (induction s L rule: enc3.induct)
  case (1 a b c s L)
  have "(length (a # b # c # s) + 2) div 3 = Suc ((length s + 2) div 3)" by simp
  with 1(3) have L: "L + 4 + 4 * int ((length s + 2) div 3) < 76" by simp
  then have "\<not> 76 \<le> L + 4" by linarith
  with 1(2) have "enc3 (a # b # c # s) L = sextets a b c @ enc3 s (L + 4)" by (auto simp: encode_group_eq(1))
  moreover have "decode_loop (enc3 s (L + 4)) = Inr s" using 1(1,2) L by simp
  ultimately show ?case by (simp add: decode_loop_group decode_sextets(1))
next
  case (2 a b L)
  then have "enc3 [a, b] L = (take 3 (sextets a b (CHR 0x00)) @ ''='')" by (auto simp: encode_group_eq(2))
  moreover have "decode_loop (take 3 (sextets a b (CHR 0x00)) @ ''='') = Inr [a, b]"
    by (rule decode_loop_last) (simp_all only: decode_sextets(2), simp)
  ultimately show ?case by metis
next
  case (3 a L)
  then have "enc3 [a] L = (take 2 (sextets a (CHR 0x00) (CHR 0x00)) @ ''=='')" by (auto simp: encode_group_eq(3))
  moreover have "decode_loop (take 2 (sextets a (CHR 0x00) (CHR 0x00)) @ ''=='') = Inr [a]"
    by (rule decode_loop_last) (simp_all only: decode_sextets(3), simp)
  ultimately show ?case by metis
qed simp

lemma decode_eol_stuck: "\<exists>e. decode_loop (CRLF @ t) = Inl e"
proof -
  consider "t = []" | c where "t = [c]" | c d u where "t = c # d # u" by (metis list.exhaust)
  then show ?thesis by cases (auto simp: CRLF_def decode_group_def asc_eol)
qed

lemma decode_long_line:
  assumes "CHR 0x00 \<notin> set s" and "s \<noteq> []" and "L \<ge> 72"
  shows "\<exists>e. decode_loop (enc3 s L) = Inl e"
  using assms
proof (cases "(s, L)" rule: enc3.cases)
  case (1 a b c t L')
  with assms have "enc3 s L = sextets a b c @ (CRLF @ enc3 t (L + 4))" by (auto simp: encode_group_eq(1))
  moreover obtain e where "decode_loop (CRLF @ enc3 t (L + 4)) = Inl e" using decode_eol_stuck by blast
  ultimately show ?thesis by (simp add: decode_loop_group decode_sextets(1))
next
  case (2 a b L')
  with assms have e: "enc3 s L = (take 3 (sextets a b (CHR 0x00)) @ [CHR 0x0D]) @ [CHR 0x0A, CHR ''='']"
    by (auto simp: encode_group_eq(2) CRLF_def)
  have "\<exists>e. decode_group (take 3 (sextets a b (CHR 0x00)) @ [CHR 0x0D]) = Inl e"
    by (cases "asc (sextets a b (CHR 0x00) ! 0)"; cases "asc (sextets a b (CHR 0x00) ! 1)"; cases "asc (sextets a b (CHR 0x00) ! 2)")
      (auto simp: decode_group_def asc_eol sextets_def)
  then show ?thesis unfolding e by (subst decode_loop_group) auto
next
  case (3 a L')
  with assms have e: "enc3 s L = (take 2 (sextets a (CHR 0x00) (CHR 0x00)) @ CRLF) @ ''==''"
    by (auto simp: encode_group_eq(3))
  have "\<exists>e. decode_group (take 2 (sextets a (CHR 0x00) (CHR 0x00)) @ CRLF) = Inl e"
    by (cases "asc (sextets a (CHR 0x00) (CHR 0x00) ! 0)"; cases "asc (sextets a (CHR 0x00) (CHR 0x00) ! 1)")
      (auto simp: decode_group_def asc_eol sextets_def CRLF_def)
  then show ?thesis unfolding e by (subst decode_loop_group) (auto simp: CRLF_def)
qed simp

lemma decode_too_long:
  assumes "CHR 0x00 \<notin> set s" and "int (length s) > 3 * ((72 - L) div 4)" and "0 \<le> L" and "L \<le> 72" and "L mod 4 = 0"
  shows "\<exists>e. decode_loop (enc3 s L) = Inl e"
  using assms
proof (induction s L rule: enc3.induct)
  case (1 a b c s L)
  show ?case
  proof (cases "L = 72")
    case True
    with 1(2) show ?thesis by (intro decode_long_line) auto
  next
    case False
    with 1(4-6) have L: "L \<le> 68" "0 \<le> L + 4" "L + 4 \<le> 72" "(L + 4) mod 4 = 0" by presburger+
    have "(72 - (L + 4)) div 4 = (72 - L) div 4 - 1" by presburger
    with 1(3) have "int (length s) > 3 * ((72 - (L + 4)) div 4)" by simp
    with 1(1,2) L obtain e where "decode_loop (enc3 s (L + 4)) = Inl e" by auto
    moreover have "enc3 (a # b # c # s) L = sextets a b c @ enc3 s (L + 4)" using 1(2) L by (auto simp: encode_group_eq(1))
    ultimately show ?thesis by (simp add: decode_loop_group decode_sextets(1))
  qed
next
  case (2 a b L)
  then have "L = 72" by simp presburger
  with 2(1) show ?case by (intro decode_long_line) auto
next
  case (3 a L)
  then have "L = 72" by simp presburger
  with 3(1) show ?case by (intro decode_long_line) auto
qed auto

section \<open>Properties\<close>

text \<open>
  C8: decoding undoes encoding exactly for strings of at most 54 characters. The line length is never reset, so from the
  nineteenth group on every group is followed by a line break, which the decoder cannot read: longer strings make it read
  an indeterminate value or past the end. The strings are C strings, without a zero character; what the encoder
  reads past the end of its argument, \<open>g\<close>, has no influence.
\<close>

theorem base64_roundtrip_exact:
  assumes "CHR 0x00 \<notin> set s"
  shows "if length s \<le> 54 then DecodeBase64 (EncodeBase64 g s) = Inr s else \<exists>e. DecodeBase64 (EncodeBase64 g s) = Inl e"
proof -
  have e: "EncodeBase64 g s = enc3 s 0" using assms by (simp add: EncodeBase64_def encode_loop_enc3)
  have "decode_loop (enc3 s 0) = Inr s" if "length s \<le> 54"
  proof -
    from that have "(length s + 2) div 3 \<le> 18" by simp
    with assms show ?thesis by (intro decode_enc3) auto
  qed
  moreover have "\<exists>e. decode_loop (enc3 s 0) = Inl e" if "\<not> length s \<le> 54"
    using that assms by (intro decode_too_long) auto
  ultimately show ?thesis by (simp add: e DecodeBase64_def)
qed

theorem base64_roundtrip_exact_witness:
  "CHR 0x00 \<notin> set ''Publisher.id,Publisher.name'' \<and>
   DecodeBase64 (EncodeBase64 (CHR ''x'') ''Publisher.id,Publisher.name'') = Inr ''Publisher.id,Publisher.name''"
  using base64_roundtrip_exact [of "''Publisher.id,Publisher.name''" "CHR ''x''"] by simp

end
