(* ===== verification/Etcd_Store.thy ===== *)
theory Etcd_Store
  imports Base64 Catalog
begin

text \<open>
  The metadata store of metadata/metadata.cpp: the comma lists, the JSON of a request, reading an answer, etcd_opt with its fixed
  buffers, putTables and getTables. The JSON and HTTP libraries are parameters. The lemmas give the exact capacity of the
  buffers, the round trip of the lists, and what getTables makes of the data putTables writes.
\<close>

section \<open>The code\<close>

text \<open>\<open>getline\<close> with a separator: a last empty piece is not returned.\<close>

function getline_list :: "char \<Rightarrow> string \<Rightarrow> string list" where
  "getline_list c [] = []"
| "getline_list c (x # xs) =
     takeWhile (\<lambda>d. d \<noteq> c) (x # xs) # getline_list c (drop 1 (dropWhile (\<lambda>d. d \<noteq> c) (x # xs)))"
  by pat_completeness auto
termination
proof (relation "measure (\<lambda>(c, s). length s)")
  fix c x and xs :: string
  have "length (dropWhile (\<lambda>d. d \<noteq> c) (x # xs)) \<le> length (x # xs)" by (rule length_dropWhile_le)
  then show "((c, drop 1 (dropWhile (\<lambda>d. d \<noteq> c) (x # xs))), c, x # xs) \<in> measure (\<lambda>(c, s). length s)"
    by (simp del: dropWhile.simps)
qed simp

definition string2list :: "string \<Rightarrow> string list" where
  "string2list inputStr = getline_list (CHR '','') inputStr"

text \<open>A double quote, and a quoted string.\<close>

definition dq :: string where
  "dq = [CHR 0x22]"

definition quoted :: "string \<Rightarrow> string" where
  "quoted s = dq @ s @ dq"

definition string2json :: "char \<Rightarrow> string \<Rightarrow> string \<Rightarrow> string" where
  "string2json g key val =
     (if val \<noteq> []
      then ''{'' @ quoted ''key'' @ '': '' @ quoted (EncodeBase64 g key) @ '', '' @ quoted ''value'' @ '': '' @ quoted (EncodeBase64 g val) @ ''}''
      else ''{'' @ quoted ''key'' @ '':'' @ quoted (EncodeBase64 g key) @ ''}'')"

text \<open>The JSON library, outside the sources: its reader, its writer and access to a member.\<close>

record 'j json_lib =
  json_parse :: "string \<Rightarrow> 'j option"
  json_write :: "'j \<Rightarrow> string"
  json_member :: "'j \<Rightarrow> string \<Rightarrow> 'j"

text \<open>The length argument \<open>n - k\<close> of \<open>substr\<close>, unsigned: below zero it wraps to a length past any string.\<close>

definition len_minus :: "nat \<Rightarrow> nat \<Rightarrow> nat option" where
  "len_minus n k = (if k \<le> n then Some (n - k) else None)"

definition json2string :: "'j json_lib \<Rightarrow> string \<Rightarrow> string res" where
  "json2string J inputStr = (case json_parse J inputStr of
       None \<Rightarrow> Inr []
     | Some root \<Rightarrow>
         let nodeStr = json_write J (json_member J root ''kvs'') in
         rbind (substr nodeStr 1 (len_minus (length nodeStr) 2)) (\<lambda>body.
         case json_parse J body of
           None \<Rightarrow> Inr []
         | Some node \<Rightarrow>
             let cur = json_write J (json_member J node ''value'') in
             rbind (substr cur 1 (len_minus (length cur) 3)) DecodeBase64))"

text \<open>\<open>strncat\<close> into a buffer of \<open>cap\<close> characters, and \<open>strcpy\<close> into one: both stop at a zero and write one.\<close>

definition c_string :: "string \<Rightarrow> string" where
  "c_string s = takeWhile (\<lambda>c. c \<noteq> CHR 0x00) s"

definition write_data :: "nat \<Rightarrow> string \<Rightarrow> string \<Rightarrow> string res" where
  "write_data cap buffer stream =
     (if length stream + length (c_string buffer) < cap then Inr (stream @ c_string buffer) else Inl BufferOverflow)"

definition copy_data :: "nat \<Rightarrow> string \<Rightarrow> string res" where
  "copy_data cap s = (if length (c_string s) < cap then Inr (c_string s) else Inl BufferOverflow)"

text \<open>
  The HTTP library and the service behind it, outside the sources: whether the two initialisations succeed, and what posting
  a body to an address answers, in the pieces the write callback gets, and does to the store.
\<close>

record 's http =
  curl_init :: bool
  easy_init :: bool
  perform :: "string \<Rightarrow> string \<Rightarrow> 's \<Rightarrow> string list \<times> 's"

definition etcd_opt :: "'s http \<Rightarrow> string \<Rightarrow> string \<Rightarrow> 's \<Rightarrow> (string \<times> 's) res" where
  "etcd_opt H data op s =
     (let url = ''http://127.0.0.1:2379/v3/kv/'' in
      if op \<noteq> ''PUT'' \<and> op \<noteq> ''GET'' then Inr ([], s)
      else if \<not> curl_init H then Inr ([], s)
      else if \<not> easy_init H then Inr ([], s)
      else rbind (copy_data 1024 data) (\<lambda>szJsonData.
        let (chunks, s') = perform H (url @ (if op = ''PUT'' then ''put'' else ''range'')) szJsonData s in
        rbind (rfold (write_data 5000) chunks []) (\<lambda>result. Inr (result, s'))))"

text \<open>What \<open>putTables\<close> stores, in its order.\<close>

definition table_puts :: "(string \<times> string) list" where
  "table_puts =
    [(''/table'', ''Publisher,customer,book,order''),
     (''/table/Publisher/attr'', ''Publisher.id,Publisher.name,Publisher.nation''),
     (''/table/Publisher/attr/Publisher.id'', ''int''),
     (''/table/Publisher/attr/Publisher.name'', ''string''),
     (''/table/Publisher/attr/Publisher.nation'', ''string''),
     (''/table/Publisher/key'', ''Publisher.id''),
     (''/table/Publisher/schema'', ''hf''),
     (''/table/Publisher/fragment_num'', ''4''),
     (''/table/Publisher/fragment/1/pos'', ''1''),
     (''/table/Publisher/fragment/2/pos'', ''2''),
     (''/table/Publisher/fragment/3/pos'', ''3''),
     (''/table/Publisher/fragment/4/pos'', ''4''),
     (''/table/Publisher/fragment/1/conditions'', ''Publisher.id<104000,Publisher.nation=PRC''),
     (''/table/Publisher/fragment/2/conditions'', ''Publisher.id<104000,Publisher.nation=USA''),
     (''/table/Publisher/fragment/3/conditions'', ''Publisher.id>=104000,Publisher.nation=PRC''),
     (''/table/Publisher/fragment/4/conditions'', ''Publisher.id>=104000,Publisher.nation=USA'')]"

definition etcd_put :: "'s http \<Rightarrow> char \<Rightarrow> string \<times> string \<Rightarrow> 's \<Rightarrow> 's res" where
  "etcd_put H g kv s = rbind (etcd_opt H (string2json g (fst kv) (snd kv)) ''PUT'' s) (\<lambda>(_, s). Inr s)"

definition putTables :: "'s http \<Rightarrow> char \<Rightarrow> 's \<Rightarrow> 's res" where
  "putTables H g s = rfold (etcd_put H g) table_puts s"

text \<open>A read, \<open>json2string(etcd_opt(string2json(key, \"\"), \"GET\"))\<close>; reading leaves the store as it is.\<close>

definition etcd_read :: "'j json_lib \<Rightarrow> 's http \<Rightarrow> char \<Rightarrow> 's \<Rightarrow> string \<Rightarrow> string res" where
  "etcd_read J H g s key = rbind (etcd_opt H (string2json g key []) ''GET'' s) (\<lambda>(r, _). json2string J r)"

definition c_isspace :: "char \<Rightarrow> bool" where
  "c_isspace c = (c = CHR '' '' \<or> 9 \<le> (of_char c :: int) \<and> of_char c \<le> (13 :: int))"

text \<open>\<open>atoi\<close>: leading blanks, a sign, then digits.\<close>

fun digits_value :: "int \<Rightarrow> string \<Rightarrow> int" where
  "digits_value n [] = n"
| "digits_value n (c # s) = (if 48 \<le> (of_char c :: int) \<and> of_char c \<le> (57 :: int) then digits_value (10 * n + of_char c - 48) s else n)"

definition atoi :: "string \<Rightarrow> int" where
  "atoi s = (case dropWhile c_isspace s of
       [] \<Rightarrow> 0
     | c # t \<Rightarrow> if c = CHR ''-'' then - digits_value 0 t else if c = CHR ''+'' then digits_value 0 t else digits_value 0 (c # t))"

definition read_fragment :: "(string \<Rightarrow> string res) \<Rightarrow> string \<Rightarrow> string \<Rightarrow> nat \<Rightarrow> Fragment res" where
  "read_fragment rd x type i =
     (let url = ''/table/'' @ x @ ''/fragment/'' @ to_string (int i) @ ''/'' in
      rbind (rd (url @ ''pos'')) (\<lambda>pos.
      let fr = Fragment_new (x, 1) (atoi pos) type 0 in
      if type = ''hf''
      then rbind (rd (url @ ''conditions'')) (\<lambda>cons.
        Inr (fr\<lparr>frag_hf_condition := map Condition_parse (string2list cons)\<rparr>))
      else rbind (rd (url @ ''columns'')) (\<lambda>cols. Inr (fr\<lparr>frag_vf_column := string2list cols\<rparr>))))"

definition read_table :: "(string \<Rightarrow> string res) \<Rightarrow> string \<Rightarrow> metadataTable res" where
  "read_table rd x =
     rbind (rd (''/table/'' @ x @ ''/key'')) (\<lambda>key.
     rbind (rd (''/table/'' @ x @ ''/schema'')) (\<lambda>type.
     rbind (rd (''/table/'' @ x @ ''/attr'')) (\<lambda>attrs.
     rbind (rd (''/table/'' @ x @ ''/fragment_num'')) (\<lambda>num.
     rbind (rmap (read_fragment rd x type) [1..<Suc (nat (atoi num))]) (\<lambda>frags.
       Inr ((metadataTable_new x type key)\<lparr>mt_attrs := string2list attrs, mt_frags := frags\<rparr>))))))"

text \<open>The loop over the tables breaks at the second one.\<close>

definition getTables :: "(string \<Rightarrow> string res) \<Rightarrow> metadataTable list res" where
  "getTables rd = rbind (rd ''/table'') (\<lambda>tab. rmap (read_table rd) (take 1 (string2list tab)))"

section \<open>Lemmas\<close>

lemma getline_list_nonempty:
  "s \<noteq> [] \<Longrightarrow> getline_list c s = takeWhile (\<lambda>d. d \<noteq> c) s # getline_list c (drop 1 (dropWhile (\<lambda>d. d \<noteq> c) s))"
  by (cases s) (simp_all del: takeWhile.simps dropWhile.simps)

lemma while_no_char:
  "c \<notin> set x \<Longrightarrow> takeWhile (\<lambda>d. d \<noteq> c) x = x" "c \<notin> set x \<Longrightarrow> dropWhile (\<lambda>d. d \<noteq> c) x = []"
  "c \<notin> set x \<Longrightarrow> takeWhile (\<lambda>d. d \<noteq> c) (x @ c # s) = x" "c \<notin> set x \<Longrightarrow> dropWhile (\<lambda>d. d \<noteq> c) (x @ c # s) = c # s"
  by (induction x) auto

lemma getline_list_last: "c \<notin> set x \<Longrightarrow> x \<noteq> [] \<Longrightarrow> getline_list c x = [x]"
  by (simp add: getline_list_nonempty while_no_char)

lemma getline_list_step: "c \<notin> set x \<Longrightarrow> getline_list c (x @ c # s) = x # getline_list c s"
  by (subst getline_list_nonempty) (simp_all add: while_no_char)

lemma getline_list_join:
  assumes "\<forall>x \<in> set xs. c \<notin> set x" and "xs = [] \<or> last xs \<noteq> []"
  shows "getline_list c (join_with [c] xs) = xs"
  using assms
proof (induction "[c]" xs rule: join_with.induct)
  case (2 x)
  then show ?case by (simp add: getline_list_last)
next
  case (3 x y ys)
  then show ?case by (simp add: getline_list_step)
qed simp

lemma write_chunks:
  assumes "length st < cap"
  shows "rfold (write_data cap) chunks st =
    (if length st + sum_list (map (length o c_string) chunks) < cap then Inr (st @ concat (map c_string chunks)) else Inl BufferOverflow)"
  using assms
proof (induction chunks arbitrary: st)
  case (Cons x xs)
  show ?case
  proof (cases "length st + length (c_string x) < cap")
    case True
    then have "length (st @ c_string x) < cap" by simp
    from Cons.IH [OF this] True show ?thesis by (simp add: write_data_def add.assoc)
  next
    case False
    then show ?thesis by (simp add: write_data_def)
  qed
qed simp

section \<open>Properties\<close>

text \<open>
  \<open>string2list\<close> undoes joining with commas, for pieces without a comma the last of which is not empty.
\<close>

lemma string2list_roundtrip:
  assumes "\<forall>x \<in> set xs. CHR '','' \<notin> set x" and "xs = [] \<or> last xs \<noteq> []"
  shows "string2list (join_with '','' xs) = xs"
  unfolding string2list_def using getline_list_join [OF assms] .

lemma string2list_roundtrip_witness:
  "string2list ''Publisher.id,Publisher.name'' = [''Publisher.id'', ''Publisher.name'']"
  using string2list_roundtrip [of "[''Publisher.id'', ''Publisher.name'']"] by simp

text \<open>
  C31: the two fixed buffers of \<open>etcd_opt\<close> hold exactly when the request, up to its first zero character, has at most 1023
  characters and the pieces of the answer together at most 4999. Then the answer is their concatenation; otherwise the call
  writes past a buffer.
\<close>

theorem etcd_opt_buffers:
  assumes "op = ''PUT'' \<or> op = ''GET''" and "curl_init H" and "easy_init H"
    and "perform H (''http://127.0.0.1:2379/v3/kv/'' @ (if op = ''PUT'' then ''put'' else ''range'')) (c_string data) s = (chunks, s')"
  shows "etcd_opt H data op s =
    (if length (c_string data) \<le> 1023 \<and> sum_list (map (length o c_string) chunks) \<le> 4999
     then Inr (concat (map c_string chunks), s') else Inl BufferOverflow)"
  using assms write_chunks [of "[]" 5000 chunks] by (auto simp: etcd_opt_def copy_data_def Let_def)

definition echo_http :: "unit http" where
  "echo_http = \<lparr>curl_init = True, easy_init = True, perform = (\<lambda>url body s. ([body, body], s))\<rparr>"

theorem etcd_opt_buffers_witness:
  "etcd_opt echo_http ''abc'' ''GET'' () = Inr (''abcabc'', ()) \<and>
   etcd_opt echo_http (replicate 1024 (CHR ''a'')) ''GET'' () = Inl BufferOverflow"
proof -
  have p: "perform echo_http (''http://127.0.0.1:2379/v3/kv/'' @ (if ''GET'' = ''PUT'' then ''put'' else ''range'')) (c_string d) () = ([c_string d, c_string d], ())" for d
    by (simp add: echo_http_def)
  have c: "c_string ''abc'' = ''abc''" "c_string (replicate 1024 (CHR ''a'')) = replicate 1024 (CHR ''a'')"
    by (simp_all add: c_string_def takeWhile_eq_all_conv [THEN iffD2])
  have i: "curl_init echo_http" "easy_init echo_http" by (simp_all add: echo_http_def)
  have "''GET'' = ''PUT'' \<or> ''GET'' = ''GET''" by simp
  from etcd_opt_buffers [OF this i p, of "''abc''"] etcd_opt_buffers [OF this i p, of "replicate 1024 (CHR ''a'')"]
  show ?thesis by (simp add: c)
qed

text \<open>
  C32: reading the catalog back from the store. When reads answer what \<open>putTables\<close> wrote, \<open>getTables\<close> returns a single
  table although four names are stored. Its fragments have the sites and conditions of the catalog the planner uses, but all
  of them carry the number 1, and the key is the qualified column.
\<close>

theorem getTables_reads_publisher:
  assumes "\<forall>(k, v) \<in> set table_puts. rd k = Inr v"
  shows "\<exists>t. getTables rd = Inr [t] \<and> mt_name t = ''Publisher'' \<and> mt_type t = mt_type Publisher_table \<and>
    mt_attrs t = mt_attrs Publisher_table \<and>
    map frag_site (mt_frags t) = map frag_site (mt_frags Publisher_table) \<and>
    map frag_hf_condition (mt_frags t) = map frag_hf_condition (mt_frags Publisher_table) \<and>
    map frag_fname (mt_frags t) = replicate 4 (''Publisher'', 1) \<and> mt_key_column t = ''Publisher.id''"
proof -
  have rd: "rd k = Inr v" if "map_of table_puts k = Some v" for k v
    using assms map_of_SomeD [OF that] by auto
  have n: "to_string 1 = ''1''" "to_string 2 = ''2''" "to_string 3 = ''3''" "to_string 4 = ''4''"
    by (simp_all add: to_string_def nat_to_string_small digit_char_def)
  have l: "string2list ''Publisher,customer,book,order'' = [''Publisher'', ''customer'', ''book'', ''order'']"
    "string2list ''Publisher.id,Publisher.name,Publisher.nation'' = [''Publisher.id'', ''Publisher.name'', ''Publisher.nation'']"
    "string2list ''Publisher.id<104000,Publisher.nation=PRC'' = [''Publisher.id<104000'', ''Publisher.nation=PRC'']"
    "string2list ''Publisher.id<104000,Publisher.nation=USA'' = [''Publisher.id<104000'', ''Publisher.nation=USA'']"
    "string2list ''Publisher.id>=104000,Publisher.nation=PRC'' = [''Publisher.id>=104000'', ''Publisher.nation=PRC'']"
    "string2list ''Publisher.id>=104000,Publisher.nation=USA'' = [''Publisher.id>=104000'', ''Publisher.nation=USA'']"
    by code_simp+
  have at: "atoi ''1'' = 1" "atoi ''2'' = 2" "atoi ''3'' = 3" "atoi ''4'' = 4" by code_simp+
  have top: "rd ''/table'' = Inr ''Publisher,customer,book,order''" "rd ''/table/Publisher/key'' = Inr ''Publisher.id''"
    "rd ''/table/Publisher/schema'' = Inr ''hf''" "rd ''/table/Publisher/attr'' = Inr ''Publisher.id,Publisher.name,Publisher.nation''"
    "rd ''/table/Publisher/fragment_num'' = Inr ''4''"
    by (rule rd, code_simp)+
  have fr: "rd ''/table/Publisher/fragment/1/pos'' = Inr ''1''" "rd ''/table/Publisher/fragment/2/pos'' = Inr ''2''"
    "rd ''/table/Publisher/fragment/3/pos'' = Inr ''3''" "rd ''/table/Publisher/fragment/4/pos'' = Inr ''4''"
    "rd ''/table/Publisher/fragment/1/conditions'' = Inr ''Publisher.id<104000,Publisher.nation=PRC''"
    "rd ''/table/Publisher/fragment/2/conditions'' = Inr ''Publisher.id<104000,Publisher.nation=USA''"
    "rd ''/table/Publisher/fragment/3/conditions'' = Inr ''Publisher.id>=104000,Publisher.nation=PRC''"
    "rd ''/table/Publisher/fragment/4/conditions'' = Inr ''Publisher.id>=104000,Publisher.nation=USA''"
    by (rule rd, code_simp)+
  have u: "[1..<Suc (nat 4)] = [1, 2, 3, 4]" by (simp add: upt_rec)
  have f: "read_fragment rd ''Publisher'' ''hf'' 1 = Inr ((Fragment_new (''Publisher'', 1) 1 ''hf'' 0)\<lparr>frag_hf_condition := map Condition_parse [''Publisher.id<104000'', ''Publisher.nation=PRC'']\<rparr>)"
    "read_fragment rd ''Publisher'' ''hf'' 2 = Inr ((Fragment_new (''Publisher'', 1) 2 ''hf'' 0)\<lparr>frag_hf_condition := map Condition_parse [''Publisher.id<104000'', ''Publisher.nation=USA'']\<rparr>)"
    "read_fragment rd ''Publisher'' ''hf'' 3 = Inr ((Fragment_new (''Publisher'', 1) 3 ''hf'' 0)\<lparr>frag_hf_condition := map Condition_parse [''Publisher.id>=104000'', ''Publisher.nation=PRC'']\<rparr>)"
    "read_fragment rd ''Publisher'' ''hf'' 4 = Inr ((Fragment_new (''Publisher'', 1) 4 ''hf'' 0)\<lparr>frag_hf_condition := map Condition_parse [''Publisher.id>=104000'', ''Publisher.nation=USA'']\<rparr>)"
    by (simp_all add: read_fragment_def Let_def n fr at l)
  let ?F = "\<lambda>i cs'. (Fragment_new (''Publisher'', 1) i ''hf'' 0)\<lparr>frag_hf_condition := map Condition_parse cs'\<rparr>"
  let ?C = "[[''Publisher.id<104000'', ''Publisher.nation=PRC''], [''Publisher.id<104000'', ''Publisher.nation=USA''],
      [''Publisher.id>=104000'', ''Publisher.nation=PRC''], [''Publisher.id>=104000'', ''Publisher.nation=USA'']]"
  define fs where "fs = [?F 1 (?C ! 0), ?F 2 (?C ! 1), ?F 3 (?C ! 2), ?F 4 (?C ! 3)]"
  have fs: "rmap (read_fragment rd ''Publisher'' ''hf'') [1..<Suc (nat (atoi ''4''))] = Inr fs"
    unfolding at u fs_def by (simp only: rmap.simps f rbind_simps) simp
  have s1: "map frag_site fs = [1, 2, 3, 4]" unfolding fs_def by (simp add: Fragment_new_def)
  have s2: "map frag_fname fs = replicate 4 (''Publisher'', 1)" unfolding fs_def by (simp add: Fragment_new_def numeral_eq_Suc)
  have s3: "map frag_hf_condition fs = map (map Condition_parse) ?C" unfolding fs_def by (simp add: Fragment_new_def)
  have t: "read_table rd ''Publisher'' = Inr \<lparr>mt_name = ''Publisher'', mt_type = ''hf'', mt_key_column = ''Publisher.id'', mt_frags = fs,
      mt_attrs = [''Publisher.id'', ''Publisher.name'', ''Publisher.nation'']\<rparr>"
    unfolding read_table_def using fs by (simp add: top l metadataTable_new_def del: upt_Suc)
  have c: "map frag_site (mt_frags Publisher_table) = [1, 2, 3, 4]" "map frag_hf_condition (mt_frags Publisher_table) = map (map Condition_parse) ?C"
    "mt_type Publisher_table = ''hf''" "mt_attrs Publisher_table = [''Publisher.id'', ''Publisher.name'', ''Publisher.nation'']"
    by (simp_all add: Publisher_table_def hf_frag_def metadataTable_new_def Fragment_new_def)
  have "getTables rd = Inr [\<lparr>mt_name = ''Publisher'', mt_type = ''hf'', mt_key_column = ''Publisher.id'', mt_frags = fs,
      mt_attrs = [''Publisher.id'', ''Publisher.name'', ''Publisher.nation'']\<rparr>]"
    unfolding getTables_def top by (simp add: l t)
  with s1 s2 s3 c show ?thesis by simp
qed

theorem getTables_reads_publisher_witness:
  "\<exists>t. getTables (\<lambda>k. case map_of table_puts k of None \<Rightarrow> (Inr [] :: string res) | Some v \<Rightarrow> Inr v) = Inr [t] \<and> length (mt_frags t) = 4"
proof -
  let ?rd = "\<lambda>k. case map_of table_puts k of None \<Rightarrow> (Inr [] :: string res) | Some v \<Rightarrow> Inr v"
  have "\<forall>(k, v) \<in> set table_puts. ?rd k = Inr v" by code_simp
  from getTables_reads_publisher [OF this] obtain t where "getTables ?rd = Inr [t]" "map frag_fname (mt_frags t) = replicate 4 (''Publisher'', 1)"
    by blast
  moreover from this(2) have "length (mt_frags t) = 4" by (metis length_map length_replicate)
  ultimately show ?thesis by blast
qed

end
