(* ===== verification/Plan_Store.thy ===== *)
theory Plan_Store
  imports Etcd_Store
begin

text \<open>
  The execution plan in the store (db.cpp): AugPlanNode, AugmentedPlan, etcd_get, etcd_set, save_plan_to_etcd and
  get_plan_from_etcd. The key-value service is a parameter with the laws etcd_service; on it, and for texts the Base64 coder
  carries, the two access functions are update and lookup, which settles what of a saved plan can be read back.
\<close>

section \<open>The code\<close>

record AugPlanNode =
  ap_node_id :: int
  ap_parent_id :: int
  ap_execute_site :: string
  ap_sql :: string
  ap_savesql :: string
  ap_is_finished :: int

record AugmentedPlan =
  pl_node_num :: int
  pl_augplannodes :: "AugPlanNode list"

text \<open>
  The store as the server sees it: the JSON and HTTP libraries of \<open>Etcd_Store\<close> and the character read past a string. The names
  \<open>json_to_string\<close> and \<open>string_to_json\<close> of db.cpp are the functions of metadata.cpp.
\<close>

record ('j, 's) etcd =
  et_json :: "'j json_lib"
  et_http :: "'s http"
  et_stray :: char

definition etcd_get :: "('j, 's) etcd \<Rightarrow> string \<Rightarrow> 's \<Rightarrow> (string \<times> 's) res" where
  "etcd_get E key s = rbind (etcd_opt (et_http E) (string2json (et_stray E) key []) ''GET'' s)
     (\<lambda>(r, s). rbind (json2string (et_json E) r) (\<lambda>v. Inr (v, s)))"

definition etcd_set :: "('j, 's) etcd \<Rightarrow> string \<Rightarrow> string \<Rightarrow> 's \<Rightarrow> (string \<times> 's) res" where
  "etcd_set E key val s = rbind (etcd_opt (et_http E) (string2json (et_stray E) key val) ''PUT'' s)
     (\<lambda>(r, s). rbind (json2string (et_json E) r) (\<lambda>v. Inr (v, s)))"

text \<open>The calls whose result is dropped.\<close>

definition put_pair :: "('j, 's) etcd \<Rightarrow> string \<times> string \<Rightarrow> 's \<Rightarrow> 's res" where
  "put_pair E kv s = rbind (etcd_set E (fst kv) (snd kv) s) (\<lambda>(_, s). Inr s)"

definition node_fields :: "AugPlanNode \<Rightarrow> (string \<times> string) list" where
  "node_fields n =
    [(''parent_id'', to_string (ap_parent_id n)),
     (''execute_site'', ap_execute_site n),
     (''sql'', ap_sql n),
     (''savesql'', ap_savesql n),
     (''is_finished'', to_string (ap_is_finished n))]"

definition node_pairs :: "nat \<Rightarrow> AugPlanNode \<Rightarrow> (string \<times> string) list" where
  "node_pairs i n = map (\<lambda>(name, val). (to_string (int i) @ name, val)) (node_fields n)"

definition save_plan_writes :: "('j, 's) etcd \<Rightarrow> AugmentedPlan \<Rightarrow> 's \<Rightarrow> 's res" where
  "save_plan_writes E plan s =
     rbind (put_pair E (''node_num'', to_string (pl_node_num plan)) s) (\<lambda>s.
     rfold (\<lambda>i s. rbind (vat (pl_augplannodes plan) i) (\<lambda>n. rfold (put_pair E) (node_pairs i n) s)) [0..<nat (pl_node_num plan)] s)"

text \<open>The function promises a string and has no \<open>return\<close>.\<close>

definition save_plan_to_etcd :: "('j, 's) etcd \<Rightarrow> AugmentedPlan \<Rightarrow> 's \<Rightarrow> (string \<times> 's) res" where
  "save_plan_to_etcd E plan s = rbind (save_plan_writes E plan s) (\<lambda>_. Inl MissingReturn)"

definition is_dec :: "char \<Rightarrow> bool" where
  "is_dec c = (48 \<le> (of_char c :: int) \<and> of_char c \<le> (57 :: int))"

definition stoi :: "string \<Rightarrow> int res" where
  "stoi s =
     (let t = dropWhile c_isspace s;
          sgn = (t \<noteq> [] \<and> hd t = CHR ''-'');
          u = (if t \<noteq> [] \<and> (hd t = CHR ''-'' \<or> hd t = CHR ''+'') then tl t else t);
          v = (if sgn then - digits_value 0 u else digits_value 0 u)
      in if u = [] \<or> \<not> is_dec (hd u) then Inl InvalidArgument
         else if - (2 ^ 31) \<le> v \<and> v < 2 ^ 31 then Inr v else Inl OutOfRange)"

text \<open>A node as the loop reads it; nothing sets its site.\<close>

definition load_node :: "('j, 's) etcd \<Rightarrow> nat \<Rightarrow> 's \<Rightarrow> (AugPlanNode \<times> 's) res" where
  "load_node E i s =
     rbind (etcd_get E (to_string (int i) @ ''sql'') s) (\<lambda>(sql, s).
     rbind (etcd_get E (to_string (int i) @ ''save_sql'') s) (\<lambda>(savesql, s).
     rbind (etcd_get E (to_string (int i) @ ''is_finished'') s) (\<lambda>(f, s). rbind (stoi f) (\<lambda>f.
     rbind (etcd_get E (to_string (int i) @ ''parent_id'') s) (\<lambda>(p, s). rbind (stoi p) (\<lambda>p.
       Inr (\<lparr>ap_node_id = int i, ap_parent_id = p, ap_execute_site = [], ap_sql = sql, ap_savesql = savesql, ap_is_finished = f\<rparr>, s)))))))"

definition load_plan :: "('j, 's) etcd \<Rightarrow> 's \<Rightarrow> (AugmentedPlan \<times> 's) res" where
  "load_plan E s =
     rbind (etcd_get E ''plan_num'' s) (\<lambda>(v, s). rbind (stoi v) (\<lambda>num.
     rfold (\<lambda>i (plan, s). rbind (load_node E i s) (\<lambda>(n, s). Inr (plan\<lparr>pl_augplannodes := pl_augplannodes plan @ [n]\<rparr>, s)))
       [0..<nat num] (\<lparr>pl_node_num = num, pl_augplannodes = []\<rparr>, s)))"

text \<open>The plan is read and not returned.\<close>

definition get_plan_from_etcd :: "('j, 's) etcd \<Rightarrow> 's \<Rightarrow> (AugmentedPlan \<times> 's) res" where
  "get_plan_from_etcd E s = rbind (load_plan E s) (\<lambda>_. Inl MissingReturn)"

section \<open>Numbers as text\<close>

lemma digits_value_snoc:
  assumes "\<forall>c \<in> set s. is_dec c" and "is_dec d"
  shows "digits_value n (s @ [d]) = 10 * digits_value n s + of_char d - 48"
  using assms by (induction s arbitrary: n) (auto simp: is_dec_def)

lemma nat_to_string_is_dec: "\<forall>c \<in> set (nat_to_string n). is_dec c"
  using nat_to_string_digits by (auto simp: is_dec_def)

lemma digits_value_nat: "digits_value 0 (nat_to_string n) = int n"
proof (induction n rule: nat_to_string_induct)
  case (small n)
  then show ?case by (simp add: nat_to_string_small digit_char_code_int)
next
  case (big n)
  have d: "is_dec (digit_char (n mod 10))" by (simp add: is_dec_def digit_char_code_int)
  have "digits_value 0 (nat_to_string n) = 10 * int (n div 10) + of_char (digit_char (n mod 10)) - 48"
    using big by (simp add: nat_to_string_big digits_value_snoc [OF nat_to_string_is_dec d])
  moreover have "10 * int (n div 10) + int (n mod 10) = int n" by (metis of_nat_add of_nat_mult of_nat_numeral mult_div_mod_eq)
  ultimately show ?case by (simp add: digit_char_code_int)
qed

lemma stoi_to_string:
  assumes "- (2 ^ 31) \<le> i" and "i < 2 ^ 31"
  shows "stoi (to_string i) = Inr i"
proof -
  have sp: "\<not> c_isspace c \<and> c \<noteq> CHR ''-'' \<and> c \<noteq> CHR ''+''" if "is_dec c" for c
    using that by (auto simp: is_dec_def c_isspace_def)
  have h: "is_dec (hd (nat_to_string n))" for n using nat_to_string_is_dec [of n] by (cases "nat_to_string n") auto
  have dw: "dropWhile c_isspace (nat_to_string n) = nat_to_string n" for n
    using sp [OF h [of n]] by (cases "nat_to_string n") auto
  show ?thesis
  proof (cases "i < 0")
    case True
    have "to_string i = CHR ''-'' # nat_to_string (nat (- i))" using True by (simp add: to_string_def)
    moreover have "\<not> c_isspace (CHR ''-'')" by code_simp
    ultimately show ?thesis using True assms h [of "nat (- i)"] by (simp add: stoi_def Let_def digits_value_nat)
  next
    case False
    then have "to_string i = nat_to_string (nat i)" by (simp add: to_string_def)
    with False assms h [of "nat i"] sp [OF h [of "nat i"]] show ?thesis by (simp add: stoi_def Let_def dw digits_value_nat)
  qed
qed

lemma stoi_Nil: "stoi [] = Inl InvalidArgument"
  by (simp add: stoi_def)

section \<open>The store behind the code\<close>

text \<open>Text the coder carries: at most 54 characters, none of them zero.\<close>

definition fits :: "string \<Rightarrow> bool" where
  "fits s = (length s \<le> 54 \<and> CHR 0x00 \<notin> set s)"

definition nl :: string where
  "nl = [CHR 0x0A]"

text \<open>
  What the JSON library makes of the answers of the service: an answer without key-value pairs, whose member \<open>kvs\<close> is null, and
  an answer with one pair that holds a value in Base64. The reader stops after the first value, so the bracket left behind by
  \<open>substr\<close> does not matter.
\<close>

definition answer_none :: "'j json_lib \<Rightarrow> string \<Rightarrow> bool" where
  "answer_none J ans = (\<exists>root. json_parse J ans = Some root \<and> json_write J (json_member J root ''kvs'') = ''null'' @ nl \<and>
     json_parse J ''ull'' = None)"

definition answer_value :: "'j json_lib \<Rightarrow> char \<Rightarrow> string \<Rightarrow> string \<Rightarrow> bool" where
  "answer_value J g v ans = (\<exists>root kvs node. json_parse J ans = Some root \<and>
     json_write J (json_member J root ''kvs'') = ''['' @ kvs @ '']'' @ nl \<and> json_parse J (kvs @ '']'') = Some node \<and>
     json_write J (json_member J node ''value'') = quoted (EncodeBase64 g v) @ nl)"

definition answer_size_ok :: "string list \<Rightarrow> bool" where
  "answer_size_ok chunks = (length (concat chunks) \<le> 4999 \<and> CHR 0x00 \<notin> set (concat chunks))"

text \<open>A key-value service: \<open>look\<close> is the value it holds for a key.\<close>

definition etcd_service :: "('j, 's) etcd \<Rightarrow> ('s \<Rightarrow> string \<Rightarrow> string option) \<Rightarrow> bool" where
  "etcd_service E look = (curl_init (et_http E) \<and> easy_init (et_http E) \<and>
     (\<forall>k v s. fits k \<longrightarrow> fits v \<longrightarrow> v \<noteq> [] \<longrightarrow> (\<exists>chunks s'.
        perform (et_http E) ''http://127.0.0.1:2379/v3/kv/put'' (string2json (et_stray E) k v) s = (chunks, s') \<and>
        answer_size_ok chunks \<and> answer_none (et_json E) (concat chunks) \<and> look s' = (look s)(k \<mapsto> v))) \<and>
     (\<forall>k s. fits k \<longrightarrow> (\<forall>v. look s k = Some v \<longrightarrow> fits v \<and> v \<noteq> []) \<longrightarrow> (\<exists>chunks.
        perform (et_http E) ''http://127.0.0.1:2379/v3/kv/range'' (string2json (et_stray E) k []) s = (chunks, s) \<and>
        answer_size_ok chunks \<and>
        (case look s k of None \<Rightarrow> answer_none (et_json E) (concat chunks)
         | Some v \<Rightarrow> answer_value (et_json E) (et_stray E) v (concat chunks)))))"

lemma key_at_char: "0 \<le> i \<Longrightarrow> i < 64 \<Longrightarrow> key_at i \<in> set base64_key"
  unfolding key_at_def by (rule nth_mem) (simp add: base64_key_def)

lemma sextets_chars: "set (sextets a b c) \<subseteq> set base64_key"
proof -
  have "0 \<le> of_char x div (4 :: int)" "of_char x div 4 < (64 :: int)"
    "0 \<le> of_char x mod 4 * 16 + of_char y div (16 :: int)" "of_char x mod 4 * 16 + of_char y div 16 < (64 :: int)"
    "0 \<le> of_char x mod 16 * 4 + of_char y div (64 :: int)" "of_char x mod 16 * 4 + of_char y div 64 < (64 :: int)"
    "0 \<le> of_char x mod (64 :: int)" "of_char x mod 64 < (64 :: int)" for x y
    using of_char_range [of x] of_char_range [of y] by linarith+
  then show ?thesis by (auto simp: sextets_def intro!: key_at_char)
qed

definition code_chars :: "char set" where
  "code_chars = set base64_key \<union> set CRLF \<union> {CHR ''=''}"

lemma enc3_shape:
  assumes "CHR 0x00 \<notin> set s"
  shows "set (enc3 s L) \<subseteq> code_chars \<and> length (enc3 s L) \<le> 6 * length s"
  using assms
proof (induction s L rule: enc3.induct)
  case (1 a b c s L)
  then show ?case using sextets_chars [of a b c] by (auto simp: encode_group_eq(1) code_chars_def CRLF_def)
next
  case (2 a b L)
  then show ?case using sextets_chars [of a b "CHR 0x00"] set_take_subset [of 3 "sextets a b (CHR 0x00)"]
    by (auto simp: encode_group_eq(2) code_chars_def CRLF_def)
next
  case (3 a L)
  then show ?case using sextets_chars [of a "CHR 0x00" "CHR 0x00"] set_take_subset [of 2 "sextets a (CHR 0x00) (CHR 0x00)"]
    by (auto simp: encode_group_eq(3) code_chars_def CRLF_def)
qed simp

lemma Encode_shape:
  assumes "fits s"
  shows "set (EncodeBase64 g s) \<subseteq> code_chars" and "length (EncodeBase64 g s) \<le> 324"
  using assms enc3_shape [of s 0] encode_loop_enc3 [of s 0 s g 0] by (auto simp: EncodeBase64_def fits_def)

lemma Decode_Encode: "fits s \<Longrightarrow> DecodeBase64 (EncodeBase64 g s) = Inr s"
proof -
  assume "fits s"
  then have "CHR 0x00 \<notin> set s" and "(length s + 2) div 3 < 19" by (auto simp: fits_def)
  with encode_loop_enc3 [of s 0 s g 0] decode_enc3 [of s 0] show ?thesis by (simp add: EncodeBase64_def DecodeBase64_def)
qed

lemma c_string_id: "CHR 0x00 \<notin> set s \<Longrightarrow> c_string s = s"
  by (simp add: c_string_def takeWhile_eq_all_conv) metis

lemma request_ok:
  assumes "fits k" and "fits v"
  shows "c_string (string2json g k v) = string2json g k v" and "length (string2json g k v) < 1024"
proof -
  have "CHR 0x00 \<notin> code_chars" by (simp add: code_chars_def CRLF_def base64_key_def)
  then have "CHR 0x00 \<notin> set (string2json g k v)"
    using Encode_shape(1) [OF assms(1), of g] Encode_shape(1) [OF assms(2), of g] by (auto simp: string2json_def quoted_def dq_def)
  then show "c_string (string2json g k v) = string2json g k v" by (rule c_string_id)
  show "length (string2json g k v) < 1024"
    using Encode_shape(2) [OF assms(1), of g] Encode_shape(2) [OF assms(2), of g] by (simp add: string2json_def quoted_def dq_def)
qed

lemma chunks_ok:
  assumes "answer_size_ok chunks"
  shows "rfold (write_data 5000) chunks [] = Inr (concat chunks)"
proof -
  have "map c_string chunks = chunks" using assms by (induction chunks) (auto simp: answer_size_ok_def c_string_id)
  moreover from this have "map (length o c_string) chunks = map length chunks" by (metis map_map)
  moreover from assms have "sum_list (map length chunks) < 5000" by (simp add: answer_size_ok_def length_concat)
  ultimately show ?thesis using write_chunks [of "[]" 5000 chunks] by (simp only: list.size) simp
qed

lemma json2string_none: "answer_none J ans \<Longrightarrow> json2string J ans = Inr []"
  by (auto simp: answer_none_def json2string_def nl_def len_minus_def substr_def numeral_eq_Suc)

lemma json2string_value:
  assumes "answer_value J g v ans" and "fits v"
  shows "json2string J ans = Inr v"
proof -
  from assms(1) obtain root kvs node where "json_parse J ans = Some root"
    "json_write J (json_member J root ''kvs'') = ''['' @ kvs @ '']'' @ nl" "json_parse J (kvs @ '']'') = Some node"
    "json_write J (json_member J node ''value'') = quoted (EncodeBase64 g v) @ nl" unfolding answer_value_def by blast
  then show ?thesis using Decode_Encode [OF assms(2), of g]
    by (simp add: json2string_def nl_def len_minus_def substr_def quoted_def dq_def)
qed

text \<open>On such a service the two functions of db.cpp are lookup and update, for text that fits.\<close>

lemma etcd_set_service:
  assumes "etcd_service E look" and "fits k" and "fits v" and "v \<noteq> []"
  obtains s' where "etcd_set E k v s = Inr ([], s')" and "look s' = (look s)(k \<mapsto> v)"
proof -
  from assms obtain chunks s' where
    "perform (et_http E) ''http://127.0.0.1:2379/v3/kv/put'' (string2json (et_stray E) k v) s = (chunks, s')"
    "answer_size_ok chunks" "answer_none (et_json E) (concat chunks)" "look s' = (look s)(k \<mapsto> v)"
    unfolding etcd_service_def by metis
  moreover from assms have "curl_init (et_http E)" "easy_init (et_http E)" by (simp_all add: etcd_service_def)
  ultimately show thesis using that request_ok [OF assms(2,3), of "et_stray E"]
    by (simp add: etcd_set_def etcd_opt_def copy_data_def chunks_ok json2string_none)
qed

lemma etcd_get_service:
  assumes "etcd_service E look" and "fits k" and "\<forall>v. look s k = Some v \<longrightarrow> fits v \<and> v \<noteq> []"
  shows "etcd_get E k s = Inr (case look s k of None \<Rightarrow> [] | Some v \<Rightarrow> v, s)"
proof -
  from assms obtain chunks where p:
    "perform (et_http E) ''http://127.0.0.1:2379/v3/kv/range'' (string2json (et_stray E) k []) s = (chunks, s)"
    "answer_size_ok chunks" and a: "case look s k of None \<Rightarrow> answer_none (et_json E) (concat chunks)
         | Some v \<Rightarrow> answer_value (et_json E) (et_stray E) v (concat chunks)"
    unfolding etcd_service_def by metis
  have "json2string (et_json E) (concat chunks) = Inr (case look s k of None \<Rightarrow> [] | Some v \<Rightarrow> v)"
    using a assms(3) by (auto simp: json2string_none intro: json2string_value split: option.splits)
  moreover have "fits []" by (simp add: fits_def)
  moreover from assms have "curl_init (et_http E)" "easy_init (et_http E)" by (simp_all add: etcd_service_def)
  ultimately show ?thesis using p request_ok [OF assms(2), of "[]" "et_stray E"]
    by (simp add: etcd_get_def etcd_opt_def copy_data_def chunks_ok)
qed

section \<open>Saving a plan\<close>

definition plan_pairs :: "AugPlanNode list \<Rightarrow> (string \<times> string) list" where
  "plan_pairs ns = concat (map (\<lambda>i. node_pairs i (ns ! i)) [0..<length ns])"

definition int32 :: "int \<Rightarrow> bool" where
  "int32 i = (- (2 ^ 31) \<le> i \<and> i < 2 ^ 31)"

text \<open>A plan whose texts the store can carry.\<close>

definition node_fits :: "AugPlanNode \<Rightarrow> bool" where
  "node_fits n = (int32 (ap_parent_id n) \<and> int32 (ap_is_finished n) \<and>
     fits (ap_execute_site n) \<and> ap_execute_site n \<noteq> [] \<and> fits (ap_sql n) \<and> ap_sql n \<noteq> [] \<and> fits (ap_savesql n) \<and> ap_savesql n \<noteq> [])"

definition plan_fits :: "AugmentedPlan \<Rightarrow> bool" where
  "plan_fits plan = (pl_node_num plan = int (length (pl_augplannodes plan)) \<and> int32 (pl_node_num plan) \<and>
     list_all node_fits (pl_augplannodes plan))"

lemma length_nat_to_string: "n < 10 ^ Suc k \<Longrightarrow> length (nat_to_string n) \<le> Suc k"
proof (induction k arbitrary: n)
  case 0
  then show ?case by (simp add: nat_to_string_small)
next
  case (Suc k)
  show ?case
  proof (cases "n < 10")
    case False
    have "n div 10 < 10 ^ Suc k" using Suc.prems by (simp add: less_mult_imp_div_less)
    with Suc.IH False show ?thesis by (simp add: nat_to_string_big)
  qed (simp add: nat_to_string_small)
qed

lemma to_string_short:
  assumes "int32 i"
  shows "length (to_string i) \<le> 11" and "CHR 0x00 \<notin> set (to_string i)" and "to_string i \<noteq> []"
proof -
  have l: "length (nat_to_string n) \<le> 10" if "n < 10 ^ 10" for n using length_nat_to_string [of n 9] that by simp
  have "nat (- i) < 10 ^ 10" "nat i < 10 ^ 10" using assms by (auto simp: int32_def)
  with l show "length (to_string i) \<le> 11" by (fastforce simp: to_string_def)
  have "CHR 0x00 \<notin> set (nat_to_string n)" for n using nat_to_string_digits [of "CHR 0x00" n] by auto
  then show "CHR 0x00 \<notin> set (to_string i)" by (simp add: to_string_def)
  show "to_string i \<noteq> []" by (simp add: to_string_def)
qed

lemma to_string_fits: "int32 i \<Longrightarrow> fits (to_string i)"
  using to_string_short [of i] by (simp add: fits_def)

lemma key_fits: "int32 i \<Longrightarrow> length a \<le> 43 \<Longrightarrow> CHR 0x00 \<notin> set a \<Longrightarrow> fits (to_string i @ a)"
  using to_string_short [of i] by (simp add: fits_def)

lemma key_number:
  assumes "a = [] \<or> \<not> is_dec (hd a)"
  shows "takeWhile is_dec (to_string (int i) @ a) = to_string (int i)"
proof -
  have "takeWhile is_dec (nat_to_string i @ a) = nat_to_string i @ takeWhile is_dec a"
    by (rule takeWhile_append2) (use nat_to_string_is_dec in blast)
  with assms show ?thesis by (cases a) (auto simp: to_string_def)
qed

lemma key_eq:
  assumes "a = [] \<or> \<not> is_dec (hd a)" and "b = [] \<or> \<not> is_dec (hd b)" and "to_string (int i) @ a = to_string (int j) @ b"
  shows "i = j" and "a = b"
proof -
  from assms key_number have e: "to_string (int i) = to_string (int j)" by metis
  then have "digits_value 0 (nat_to_string i) = digits_value 0 (nat_to_string j)" by (simp add: to_string_def)
  then show "i = j" by (simp add: digits_value_nat)
  from e assms(3) show "a = b" by simp
qed

lemma save_loop:
  assumes "\<forall>i \<in> set is'. i < length ns"
  shows "rfold (\<lambda>i s. rbind (vat ns i) (\<lambda>n. rfold (put_pair E) (node_pairs i n) s)) is' s =
    rfold (put_pair E) (concat (map (\<lambda>i. node_pairs i (ns ! i)) is')) s"
  using assms
proof (induction is' arbitrary: s)
  case (Cons i is')
  then show ?case by (cases "rfold (put_pair E) (node_pairs i (ns ! i)) s") (simp_all add: rfold_append)
qed simp

lemma put_pairs:
  assumes "etcd_service E look" and "\<forall>(k, v) \<in> set kvs. fits k \<and> fits v \<and> v \<noteq> []"
  shows "\<exists>s'. rfold (put_pair E) kvs s = Inr s' \<and> look s' = look s ++ map_of (rev kvs)"
  using assms(2)
proof (induction kvs arbitrary: s)
  case (Cons kv kvs)
  obtain k v where kv: "kv = (k, v)" by (cases kv)
  with Cons.prems have f: "fits k" "fits v" "v \<noteq> []" and r: "\<forall>(k, v) \<in> set kvs. fits k \<and> fits v \<and> v \<noteq> []" by auto
  obtain s1 where 1: "etcd_set E k v s = Inr ([], s1)" "look s1 = (look s)(k \<mapsto> v)" by (rule etcd_set_service [OF assms(1) f, of s])
  from Cons.IH [OF r, of s1] obtain s2 where "rfold (put_pair E) kvs s1 = Inr s2" "look s2 = look s1 ++ map_of (rev kvs)" by blast
  moreover have "look s1 ++ map_of (rev kvs) = look s ++ map_of (rev (kv # kvs))"
    unfolding 1(2) kv by (rule ext) (simp add: map_add_def split: option.split)
  moreover have "put_pair E kv s = Inr s1" using 1(1) kv by (simp add: put_pair_def)
  ultimately show ?case by simp
qed simp

lemma map_of_rev_unique:
  assumes "(k, v) \<in> set kvs" and "\<And>v'. (k, v') \<in> set kvs \<Longrightarrow> v' = v"
  shows "map_of (rev kvs) k = Some v"
proof -
  obtain v' where "map_of (rev kvs) k = Some v'" using weak_map_of_SomeI [of k v "rev kvs"] assms(1) by auto
  with assms(2) map_of_SomeD [of "rev kvs" k v'] show ?thesis by auto
qed

lemma plan_pairs_iff:
  "(k, v) \<in> set (plan_pairs ns) \<longleftrightarrow> (\<exists>i < length ns. (k, v) \<in> set (node_pairs i (ns ! i)))"
  by (auto simp: plan_pairs_def)

lemma field_name: "(a, v) \<in> set (node_fields n) \<Longrightarrow> \<not> is_dec (hd a) \<and> length a \<le> 12 \<and> CHR 0x00 \<notin> set a"
  by (auto simp: node_fields_def is_dec_def)

lemma node_pairs_key:
  assumes "\<not> is_dec (hd a)"
  shows "(to_string (int i) @ a, v) \<in> set (node_pairs j n) \<longleftrightarrow> i = j \<and> (a, v) \<in> set (node_fields n)"
proof
  assume "(to_string (int i) @ a, v) \<in> set (node_pairs j n)"
  then obtain a' where a': "(a', v) \<in> set (node_fields n)" "to_string (int i) @ a = to_string (int j) @ a'" by (auto simp: node_pairs_def)
  with field_name [OF a'(1)] key_eq [of a a' i j] assms show "i = j \<and> (a, v) \<in> set (node_fields n)" by blast
next
  assume "i = j \<and> (a, v) \<in> set (node_fields n)"
  then show "(to_string (int i) @ a, v) \<in> set (node_pairs j n)" by (force simp: node_pairs_def)
qed

lemma plan_pairs_key:
  assumes "\<not> is_dec (hd a)" and "i < length ns"
  shows "(to_string (int i) @ a, v) \<in> set (plan_pairs ns) \<longleftrightarrow> (a, v) \<in> set (node_fields (ns ! i))"
  using assms by (auto simp: plan_pairs_iff node_pairs_key)

lemma plan_pairs_other:
  assumes "a \<noteq> []" and "\<not> is_dec (hd a)"
  shows "(a, v) \<notin> set (plan_pairs ns)"
proof
  assume "(a, v) \<in> set (plan_pairs ns)"
  then obtain i a' where "a = to_string (int i) @ a'" by (auto simp: plan_pairs_iff node_pairs_def)
  with assms(2) nat_to_string_is_dec [of i] show False by (cases "nat_to_string i") (auto simp: to_string_def)
qed

lemma node_fields_functional: "(a, v) \<in> set (node_fields n) \<Longrightarrow> (a, v') \<in> set (node_fields n) \<Longrightarrow> v' = v"
  by (auto simp: node_fields_def)

text \<open>What the store holds after a plan is written.\<close>

lemma save_plan_look:
  assumes E: "etcd_service E look" and p: "plan_fits plan"
  shows "\<exists>s'. save_plan_writes E plan s = Inr s' \<and>
    (\<forall>i < length (pl_augplannodes plan). \<forall>(a, v) \<in> set (node_fields (pl_augplannodes plan ! i)). look s' (to_string (int i) @ a) = Some v) \<and>
    look s' ''node_num'' = Some (to_string (pl_node_num plan)) \<and>
    (\<forall>i < length (pl_augplannodes plan). look s' (to_string (int i) @ ''save_sql'') = look s (to_string (int i) @ ''save_sql'')) \<and>
    look s' ''plan_num'' = look s ''plan_num''"
proof -
  let ?ns = "pl_augplannodes plan" and ?h = "(''node_num'', to_string (pl_node_num plan))"
  let ?kvs = "?h # plan_pairs ?ns"
  from p have n: "nat (pl_node_num plan) = length ?ns" and i32: "int32 (pl_node_num plan)" "\<And>i. i < length ?ns \<Longrightarrow> int32 (int i)"
    and nf: "\<And>i. i < length ?ns \<Longrightarrow> node_fits (?ns ! i)"
    by (auto simp: plan_fits_def int32_def list_all_length)
  have ff: "fits v \<and> v \<noteq> []" if "i < length ?ns" "(a, v) \<in> set (node_fields (?ns ! i))" for i a v
    using nf [OF that(1)] that(2) to_string_fits to_string_short(3) by (auto simp: node_fields_def node_fits_def)
  have "\<forall>(k, v) \<in> set ?kvs. fits k \<and> fits v \<and> v \<noteq> []"
  proof clarify
    fix k v assume "(k, v) \<in> set ?kvs"
    then consider "(k, v) = ?h" | i a where "i < length ?ns" "(a, v) \<in> set (node_fields (?ns ! i))" "k = to_string (int i) @ a"
      by (auto simp: plan_pairs_iff node_pairs_def)
    then show "fits k \<and> fits v \<and> v \<noteq> []"
    proof cases
      case 1
      then show ?thesis using to_string_fits [OF i32(1)] to_string_short(3) [OF i32(1)] by (simp add: fits_def)
    next
      case 2
      then show ?thesis using ff field_name [OF 2(2)] key_fits [OF i32(2), of i a] by simp
    qed
  qed
  from put_pairs [OF E this] obtain s' where s': "rfold (put_pair E) ?kvs s = Inr s'" "look s' = look s ++ map_of (rev ?kvs)" by blast
  then have "save_plan_writes E plan s = Inr s'"
    using save_loop [of "[0..<length ?ns]" ?ns E] by (simp add: save_plan_writes_def n plan_pairs_def)
  moreover have "look s' (to_string (int i) @ a) = Some v" if "i < length ?ns" "(a, v) \<in> set (node_fields (?ns ! i))" for i a v
  proof -
    have d: "\<not> is_dec (hd a)" using field_name [OF that(2)] by simp
    have "to_string (int i) @ a \<noteq> ''node_num''"
      using nat_to_string_is_dec [of i] by (cases "nat_to_string i") (auto simp: to_string_def is_dec_def)
    then have "map_of (rev ?kvs) (to_string (int i) @ a) = Some v"
      using that d by (intro map_of_rev_unique) (auto simp: plan_pairs_key intro: node_fields_functional)
    with s'(2) show ?thesis by (simp add: map_add_def)
  qed
  moreover have "map_of (rev ?kvs) ''node_num'' = Some (to_string (pl_node_num plan))"
    by (rule map_of_rev_unique) (auto simp: plan_pairs_other is_dec_def)
  moreover have "map_of (rev ?kvs) (to_string (int i) @ ''save_sql'') = None" if "i < length ?ns" for i
  proof -
    have "to_string (int i) @ ''save_sql'' \<noteq> ''node_num''"
      using nat_to_string_is_dec [of i] by (cases "nat_to_string i") (auto simp: to_string_def is_dec_def)
    moreover have "(to_string (int i) @ ''save_sql'', v) \<notin> set (plan_pairs ?ns)" for v
      using plan_pairs_key [of "''save_sql''" i ?ns v] that by (simp add: is_dec_def node_fields_def)
    ultimately show ?thesis by (auto simp: map_of_eq_None_iff)
  qed
  moreover have "map_of (rev ?kvs) ''plan_num'' = None"
    using plan_pairs_other [of "''plan_num''"] by (auto simp: map_of_eq_None_iff is_dec_def)
  ultimately show ?thesis using s'(2) by (auto simp: map_add_def split: option.splits)
qed

section \<open>Properties\<close>

text \<open>
  C34: a plan that is saved cannot be loaded, and what can be read of it. On a store that works, and for texts it can carry,
  saving succeeds; every node can be read back with its statement, its parent and its state, but its site is lost and the column
  list is looked for under a key that was never written. The number of nodes is read from another key than the one it
  was written to, so that loading stops at the conversion of the empty string.
\<close>

theorem saved_plan_not_loadable:
  assumes "etcd_service E look" and "plan_fits plan"
    and "look s ''plan_num'' = None" and "\<forall>i < length (pl_augplannodes plan). look s (to_string (int i) @ ''save_sql'') = None"
  shows "\<exists>s'. save_plan_writes E plan s = Inr s' \<and> load_plan E s' = Inl InvalidArgument \<and>
    (\<forall>i < length (pl_augplannodes plan). load_node E i s' =
      Inr ((pl_augplannodes plan ! i)\<lparr>ap_node_id := int i, ap_execute_site := [], ap_savesql := []\<rparr>, s'))"
proof -
  let ?ns = "pl_augplannodes plan"
  from save_plan_look [OF assms(1,2), of s] assms(3,4) obtain s' where w: "save_plan_writes E plan s = Inr s'"
    and l: "\<And>i a v. i < length ?ns \<Longrightarrow> (a, v) \<in> set (node_fields (?ns ! i)) \<Longrightarrow> look s' (to_string (int i) @ a) = Some v"
    and z: "\<And>i. i < length ?ns \<Longrightarrow> look s' (to_string (int i) @ ''save_sql'') = None" "look s' ''plan_num'' = None" by fastforce
  have "etcd_get E ''plan_num'' s' = Inr ([], s')"
    using etcd_get_service [OF assms(1), of "''plan_num''" s'] z(2) by (simp add: fits_def)
  then have "load_plan E s' = Inl InvalidArgument" by (simp add: load_plan_def stoi_Nil)
  moreover have "load_node E i s' = Inr ((?ns ! i)\<lparr>ap_node_id := int i, ap_execute_site := [], ap_savesql := []\<rparr>, s')"
    if i: "i < length ?ns" for i
  proof -
    let ?n = "?ns ! i"
    from assms(2) i have n: "node_fits ?n" and i32: "int32 (int i)" by (auto simp: plan_fits_def int32_def list_all_length)
    have g: "etcd_get E (to_string (int i) @ a) s' = Inr (v, s')" if "(a, v) \<in> set (node_fields ?n)" "fits v" "v \<noteq> []" for a v
      using etcd_get_service [OF assms(1) key_fits [OF i32, of a], of s'] l [OF i that(1)] that field_name [OF that(1)] by simp
    have "etcd_get E (to_string (int i) @ ''save_sql'') s' = Inr ([], s')"
      using etcd_get_service [OF assms(1) key_fits [OF i32, of "''save_sql''"], of s'] z(1) [OF i] by simp
    moreover have "etcd_get E (to_string (int i) @ ''sql'') s' = Inr (ap_sql ?n, s')"
      "etcd_get E (to_string (int i) @ ''is_finished'') s' = Inr (to_string (ap_is_finished ?n), s')"
      "etcd_get E (to_string (int i) @ ''parent_id'') s' = Inr (to_string (ap_parent_id ?n), s')"
      using n by (auto intro!: g simp: node_fields_def node_fits_def to_string_fits to_string_short(3))
    moreover have "stoi (to_string (ap_is_finished ?n)) = Inr (ap_is_finished ?n)" "stoi (to_string (ap_parent_id ?n)) = Inr (ap_parent_id ?n)"
      using n by (auto intro!: stoi_to_string simp: node_fits_def int32_def)
    ultimately show ?thesis by (simp add: load_node_def)
  qed
  ultimately show ?thesis using w by blast
qed

text \<open>A service kept in a function, with a JSON library that knows its answers.\<close>

definition memo_decode :: "string \<Rightarrow> string" where
  "memo_decode x = (case DecodeBase64 x of Inr v \<Rightarrow> v | Inl _ \<Rightarrow> [])"

definition memo_http :: "(string \<Rightarrow> string option) http" where
  "memo_http = \<lparr>curl_init = True, easy_init = True, perform = (\<lambda>url body m.
     let p = getline_list (CHR 0x22) body; k = memo_decode (p ! 3) in
     if url = ''http://127.0.0.1:2379/v3/kv/put'' then ([''-''], m(k \<mapsto> memo_decode (p ! 7)))
     else (case m k of None \<Rightarrow> ([''-''], m) | Some v \<Rightarrow> ([CHR ''#'' # EncodeBase64 (CHR 0x00) v], m)))\<rparr>"

definition memo_json :: "string json_lib" where
  "memo_json = \<lparr>json_parse = (\<lambda>s. if s = ''ull'' then None else Some s),
     json_write = (\<lambda>j. if hd j = CHR ''K'' then (if tl j = ''-'' then ''null'' @ nl else ''['' @ tl j @ '']'' @ nl)
        else quoted (butlast (tl (tl j))) @ nl),
     json_member = (\<lambda>j m. (if m = ''kvs'' then CHR ''K'' else CHR ''V'') # j)\<rparr>"

definition memo_etcd :: "(string, string \<Rightarrow> string option) etcd" where
  "memo_etcd = \<lparr>et_json = memo_json, et_http = memo_http, et_stray = CHR 0x00\<rparr>"

lemma request_pieces:
  assumes "fits k" and "fits v"
  shows "getline_list (CHR 0x22) (string2json g k v) ! 3 = EncodeBase64 g k"
    and "v \<noteq> [] \<Longrightarrow> getline_list (CHR 0x22) (string2json g k v) ! 7 = EncodeBase64 g v"
proof -
  have q: "CHR 0x22 \<notin> code_chars" by (simp add: code_chars_def CRLF_def base64_key_def)
  then have kv: "CHR 0x22 \<notin> set (EncodeBase64 g k)" "CHR 0x22 \<notin> set (EncodeBase64 g v)"
    using Encode_shape(1) [OF assms(1), of g] Encode_shape(1) [OF assms(2), of g] by auto
  let ?a = "[''{'', ''key'', '': '', EncodeBase64 g k, '', '', ''value'', '': '', EncodeBase64 g v, ''}'']"
  let ?b = "[''{'', ''key'', '':'', EncodeBase64 g k, ''}'']"
  have "string2json g k v = join_with [CHR 0x22] (if v \<noteq> [] then ?a else ?b)" by (simp add: string2json_def quoted_def dq_def)
  moreover have "getline_list (CHR 0x22) (join_with [CHR 0x22] ?a) = ?a" "getline_list (CHR 0x22) (join_with [CHR 0x22] ?b) = ?b"
    using kv by (intro getline_list_join; simp)+
  ultimately show "getline_list (CHR 0x22) (string2json g k v) ! 3 = EncodeBase64 g k"
    and "v \<noteq> [] \<Longrightarrow> getline_list (CHR 0x22) (string2json g k v) ! 7 = EncodeBase64 g v" by (simp_all del: join_with.simps)
qed

lemma memo_decode_encode: "fits s \<Longrightarrow> memo_decode (EncodeBase64 g s) = s"
  by (simp add: memo_decode_def Decode_Encode)

lemma memo_value:
  assumes "fits v"
  shows "answer_size_ok [CHR ''#'' # EncodeBase64 g v]" and "answer_value memo_json g v (CHR ''#'' # EncodeBase64 g v)"
proof -
  have "CHR 0x00 \<notin> code_chars" by (simp add: code_chars_def CRLF_def base64_key_def)
  then show "answer_size_ok [CHR ''#'' # EncodeBase64 g v]" using Encode_shape [OF assms, of g] by (auto simp: answer_size_ok_def)
  show "answer_value memo_json g v (CHR ''#'' # EncodeBase64 g v)"
    unfolding answer_value_def by (intro exI [of _ "CHR ''#'' # EncodeBase64 g v"] exI [of _ "CHR ''#'' # EncodeBase64 g v @ '']''"])
      (simp add: memo_json_def)
qed

lemma memo_none: "answer_size_ok [''-'']" "answer_none memo_json ''-''"
  by (simp_all add: answer_size_ok_def answer_none_def memo_json_def)

lemma memo_service: "etcd_service memo_etcd (\<lambda>m. m)"
proof -
  have n: "fits []" by (simp add: fits_def)
  show ?thesis
    unfolding etcd_service_def
    using memo_none memo_value request_pieces request_pieces(1) [OF _ n] memo_decode_encode
    by (auto simp: memo_etcd_def memo_http_def Let_def split: option.splits)
qed

definition sample_plan :: AugmentedPlan where
  "sample_plan = \<lparr>pl_node_num = 1, pl_augplannodes = [\<lparr>ap_node_id = 0, ap_parent_id = - 1, ap_execute_site = ''ddb0'',
     ap_sql = ''select * from Publisher'', ap_savesql = ''(id int,)'', ap_is_finished = 0\<rparr>]\<rparr>"

theorem saved_plan_not_loadable_witness:
  "\<exists>s'. save_plan_writes memo_etcd sample_plan (\<lambda>_. None) = Inr s' \<and> load_plan memo_etcd s' = Inl InvalidArgument"
proof -
  have "plan_fits sample_plan" by code_simp
  from saved_plan_not_loadable [OF memo_service this, of "\<lambda>_. None"] show ?thesis by auto
qed

end
