(* ===== verification/Plan_Builder.thy ===== *)
theory Plan_Builder
  imports Plan_Root Plan_Store
begin

text \<open>
  From a query tree to an execution plan (db.cpp): find_node_to_build, transfer_to_AugNode and the loop of
  build_augmented_plan, as a partial function since the loop may not end. The lemmas give the links and the statements of the
  nodes it makes, and that the loop never makes a plan with a node.
\<close>

section \<open>The code\<close>

text \<open>The texts are read as follows: \<open>node_to_execute\<close> in \<open>find_node_to_build\<close> is its result \<open>node_to_build\<close>, \<open>tr[i].select\<close> and
  \<open>tr[i].selection\<close> are the selection of the node, \<open>save_sql\<close> is the member \<open>savesql\<close>, and \<open>size\<close> without a call is the size.\<close>

definition vat_int :: "'a list \<Rightarrow> int \<Rightarrow> 'a res" where
  "vat_int xs i = (if i < 0 then Inl OutOfBounds else vat xs (nat i))"

text \<open>The loop over the children of a node; a node without children is never added.\<close>

fun children_built :: "int list \<Rightarrow> int list \<Rightarrow> bool res" where
  "children_built already_built [] = Inr False"
| "children_built already_built [c] = rbind (vat_int already_built c) (\<lambda>b. Inr (b \<noteq> 0))"
| "children_built already_built (c # d # ch) = rbind (vat_int already_built c) (\<lambda>b.
     if b = 0 then Inr False else children_built already_built (d # ch))"

definition build_candidate :: "int list \<Rightarrow> Tree \<Rightarrow> nat \<Rightarrow> nat list \<Rightarrow> nat list res" where
  "build_candidate already_built t i node_to_build = rbind (vat (tree_tr t) i) (\<lambda>n.
     rbind (children_built already_built (tn_child n)) (\<lambda>b. Inr (if b then node_to_build @ [i] else node_to_build)))"

definition find_node_to_build :: "int list \<Rightarrow> Tree \<Rightarrow> nat list res" where
  "find_node_to_build already_built t = rfold (build_candidate already_built t) [0..<length (tree_tr t)] []"

text \<open>A pointer into a string literal, moved by a number: the rest of the literal, up to its terminating zero.\<close>

definition literal_plus :: "string \<Rightarrow> int \<Rightarrow> string res" where
  "literal_plus lit k = (if 0 \<le> k \<and> k \<le> int (length lit) then Inr (drop (nat k) lit) else Inl OutOfBounds)"

text \<open>
  \<open>Condition::getStr\<close> and \<open>string::split\<close> do not exist; they are the arguments \<open>cstr\<close> and \<open>split\<close>. The statement of a join
  node adds a number to a string, which has no meaning; it is the argument \<open>join_sql\<close>.
\<close>

record sql_texts =
  tx_cstr :: "Condition \<Rightarrow> string"
  tx_split :: "string \<Rightarrow> string \<Rightarrow> string list"
  tx_join_sql :: "Tree \<Rightarrow> nat \<Rightarrow> string"

definition save_column :: "sql_texts \<Rightarrow> ('j, 's) etcd \<Rightarrow> string \<Rightarrow> string \<times> 's \<Rightarrow> (string \<times> 's) res" where
  "save_column X E attr acc = rbind (vat (tx_split X attr ''.'') 1) (\<lambda>attr_name.
     rbind (etcd_get E attr (snd acc)) (\<lambda>(attr_type, s). Inr (fst acc @ attr_name @ '' '' @ attr_type @ '','', s)))"

definition save_columns :: "sql_texts \<Rightarrow> ('j, 's) etcd \<Rightarrow> treeNode \<Rightarrow> 's \<Rightarrow> (string \<times> 's) res" where
  "save_columns X E n s =
     (let all_attr = (if tn_projection n \<noteq> [] then tn_projection n else tn_attr n) in
      rbind (rfold (save_column X E) all_attr (''('', s)) (\<lambda>(save_sql, s). Inr (save_sql @ '')'', s)))"

definition fragment_sql :: "sql_texts \<Rightarrow> treeNode \<Rightarrow> string" where
  "fragment_sql X n =
     (let select_what = (if tn_projection n \<noteq> [] then join_with '','' (tn_projection n) else ''*'');
          from_what = fst (tn_fname n)
      in if tn_select n \<noteq> []
         then ''select '' @ select_what @ '' from '' @ from_what @ '' where '' @ join_with '' and '' (map (tx_cstr X) (tn_select n))
         else ''select '' @ select_what @ '' from '' @ from_what)"

definition union_sql :: "treeNode \<Rightarrow> string res" where
  "union_sql n = rbind (rmap (literal_plus ''select * from '') (tn_child n)) (\<lambda>xs. Inr (join_with '' union all '' xs))"

definition transfer_to_AugNode ::
  "sql_texts \<Rightarrow> ('j, 's) etcd \<Rightarrow> (int \<times> string) list \<Rightarrow> Tree \<Rightarrow> nat \<Rightarrow> AugmentedPlan \<Rightarrow> 's \<Rightarrow> (AugPlanNode \<times> 's) res" where
  "transfer_to_AugNode X E name_map t i plan s = rbind (vat (tree_tr t) i) (\<lambda>n.
     let node = \<lparr>ap_node_id = int i, ap_parent_id = tn_parent n, ap_execute_site = omap_get [] name_map (tn_site n),
                 ap_sql = [], ap_savesql = [], ap_is_finished = 0\<rparr>
     in if tn_type n = ''Fragment''
        then rbind (save_columns X E n s) (\<lambda>(save_sql, s). Inr (node\<lparr>ap_sql := fragment_sql X n, ap_savesql := save_sql\<rparr>, s))
        else if tn_type n = ''Join''
        then rbind (save_columns X E n s) (\<lambda>(save_sql, s). Inr (node\<lparr>ap_sql := tx_join_sql X t i, ap_savesql := save_sql\<rparr>, s))
        else if tn_type n = ''Union''
        then rbind (union_sql n) (\<lambda>node_sql.
          rbind (vat (tn_child n) 0) (\<lambda>c. rbind (vat_int (pl_augplannodes plan) c) (\<lambda>m.
            Inr (node\<lparr>ap_sql := node_sql, ap_savesql := ap_savesql m\<rparr>, s))))
        else Inr (node, s))"

definition build_node ::
  "sql_texts \<Rightarrow> ('j, 's) etcd \<Rightarrow> (int \<times> string) list \<Rightarrow> Tree \<Rightarrow> nat \<Rightarrow> AugmentedPlan \<times> int list \<times> 's \<Rightarrow> (AugmentedPlan \<times> int list \<times> 's) res" where
  "build_node X E name_map t i st = (case st of (plan, already_built, s) \<Rightarrow>
     rbind (transfer_to_AugNode X E name_map t i plan s) (\<lambda>(node, s).
       Inr (plan\<lparr>pl_augplannodes := pl_augplannodes plan @ [node]\<rparr>, already_built @ [int i], s)))"

partial_function (option) build_loop ::
  "sql_texts \<Rightarrow> ('j, 's) etcd \<Rightarrow> (int \<times> string) list \<Rightarrow> Tree \<Rightarrow> AugmentedPlan \<times> int list \<times> 's \<Rightarrow> (AugmentedPlan \<times> 's) res option" where
  "build_loop X E name_map t st = (case st of (plan, already_built, s) \<Rightarrow>
     if int (length already_built) < pl_node_num plan
     then (case rbind (find_node_to_build already_built t) (\<lambda>xs. rfold (build_node X E name_map t) xs st) of
             Inl e \<Rightarrow> Some (Inl e)
           | Inr st' \<Rightarrow> build_loop X E name_map t st')
     else Some (Inr (plan, s)))"

text \<open>Nothing is ever put into \<open>name_map\<close>.\<close>

definition build_augmented_plan :: "sql_texts \<Rightarrow> ('j, 's) etcd \<Rightarrow> Tree \<Rightarrow> 's \<Rightarrow> (AugmentedPlan \<times> 's) res option" where
  "build_augmented_plan X E t s = build_loop X E [] t (\<lparr>pl_node_num = int (length (tree_tr t)), pl_augplannodes = []\<rparr>, [], s)"

section \<open>Lemmas\<close>

lemma children_built_none: "children_built [] ch = (if ch = [] then Inr False else Inl OutOfBounds)"
  by (cases ch rule: remdups_adj.cases) (simp_all add: vat_int_def vat_def)

lemma find_first:
  "find_node_to_build [] t = (if list_all (\<lambda>n. tn_child n = []) (tree_tr t) then Inr [] else Inl OutOfBounds)"
proof -
  have "rfold (build_candidate [] t) is' acc =
      (if list_all (\<lambda>i. tn_child (tree_tr t ! i) = []) is' then Inr acc else Inl OutOfBounds)"
    if "\<forall>i \<in> set is'. i < length (tree_tr t)" for is' acc
    using that by (induction is' arbitrary: acc) (auto simp: build_candidate_def children_built_none)
  then show ?thesis unfolding find_node_to_build_def by (auto simp: list_all_length list_all_iff)
qed

definition idle :: "Tree \<Rightarrow> AugmentedPlan \<times> int list \<times> 's \<Rightarrow> bool" where
  "idle t st = (list_all (\<lambda>n. tn_child n = []) (tree_tr t) \<and> fst (snd st) = [] \<and> 0 < pl_node_num (fst st))"

lemma build_loop_idle:
  assumes "list_all (\<lambda>n. tn_child n = []) (tree_tr t)" and "0 < pl_node_num plan"
  shows "build_loop X E nm t (plan, [], s) = None"
proof -
  have "\<not> idle t (plan, [], s)" if y: "build_loop X E nm t (plan, [], s) = Some y" for y
  proof (rule build_loop.raw_induct [of "\<lambda>X E nm t st y. \<not> idle t st", OF _ y])
    fix f X E nm t st y
    assume IH: "\<And>X E nm t st y. f X E nm t st = Some y \<Longrightarrow> \<not> idle t st"
      and step: "(case st of (plan, already_built, s) \<Rightarrow>
         if int (length already_built) < pl_node_num plan
         then (case rbind (find_node_to_build already_built t) (\<lambda>xs. rfold (build_node X E nm t) xs st) of
                 Inl e \<Rightarrow> Some (Inl e) | Inr st' \<Rightarrow> f X E nm t st')
         else Some (Inr (plan, s))) = Some y"
    show "\<not> idle t st"
    proof
      assume i: "idle t st"
      with step have "f X E nm t st = Some y" by (cases st) (auto simp: find_first idle_def)
      from IH [OF this] i show False by blast
    qed
  qed
  with assms show ?thesis by (cases "build_loop X E nm t (plan, [], s)") (auto simp: idle_def)
qed

text \<open>The node built for a tree node has its number and its parent, so that a full build gives a plan of the tree.\<close>

lemma transfer_links:
  assumes "transfer_to_AugNode X E nm t i plan s = Inr (n, s')"
  shows "i < length (tree_tr t) \<and> ap_node_id n = int i \<and> ap_parent_id n = tn_parent (tree_tr t ! i) \<and> ap_is_finished n = 0 \<and>
    ap_execute_site n = omap_get [] nm (tn_site (tree_tr t ! i))"
  using assms by (auto simp: transfer_to_AugNode_def Let_def split: if_splits)

lemma union_sql_text:
  "union_sql n = (if list_all (\<lambda>c. 0 \<le> c \<and> c \<le> 14) (tn_child n)
     then Inr (join_with '' union all '' (map (\<lambda>c. drop (nat c) ''select * from '') (tn_child n))) else Inl OutOfBounds)"
proof -
  have "rmap (literal_plus ''select * from '') ch = (if list_all (\<lambda>c. 0 \<le> c \<and> c \<le> 14) ch
     then Inr (map (\<lambda>c. drop (nat c) ''select * from '') ch) else Inl OutOfBounds)" for ch
    by (induction ch) (auto simp: literal_plus_def)
  then show ?thesis by (simp add: union_sql_def)
qed

text \<open>
  C35: \<open>build_augmented_plan\<close> never returns a plan with a node. For a tree without nodes the plan is empty. When no node has
  children no node is ever added and the loop does not end; otherwise the first look for a node to build reads
  past the end of the empty list of built nodes.
\<close>

theorem build_augmented_plan_stuck:
  "build_augmented_plan X E t s =
    (if tree_tr t = [] then Some (Inr (\<lparr>pl_node_num = 0, pl_augplannodes = []\<rparr>, s))
     else if list_all (\<lambda>n. tn_child n = []) (tree_tr t) then None else Some (Inl OutOfBounds))"
proof (cases "tree_tr t = [] \<or> \<not> list_all (\<lambda>n. tn_child n = []) (tree_tr t)")
  case True
  then show ?thesis unfolding build_augmented_plan_def by (subst build_loop.simps) (auto simp: find_first)
next
  case False
  then show ?thesis unfolding build_augmented_plan_def by (simp add: build_loop_idle)
qed

end
