(* ===== verification/Plan_Scheduler.thy ===== *)
theory Plan_Scheduler
  imports Plan_Store
begin

text \<open>
  The scheduler of db.cpp: the scan of plan_scan, and a cluster of sites as an interleaving of scans and completions over any plan
  in memory. The scan is equal to a readiness condition on the marks; operands finish before the nodes that use them; and the
  sites can always finish a plan, unless a node is its own ancestor, when they never can.
\<close>

section \<open>The code\<close>

text \<open>The scan of \<open>plan_scan\<close>: unfinished nodes of a site whose children are all finished.\<close>

definition child_step :: "AugmentedPlan \<Rightarrow> nat \<Rightarrow> nat \<Rightarrow> nat \<times> nat \<Rightarrow> (nat \<times> nat) res" where
  "child_step plan i j cnt = rbind (vat (pl_augplannodes plan) j) (\<lambda>n.
     Inr (if ap_parent_id n = int i
          then (fst cnt + 1, if ap_is_finished n = 1 then snd cnt + 1 else snd cnt)
          else cnt))"

definition scan_node :: "AugmentedPlan \<Rightarrow> string \<Rightarrow> nat \<Rightarrow> nat list \<Rightarrow> nat list res" where
  "scan_node plan site i to_exec = rbind (vat (pl_augplannodes plan) i) (\<lambda>n.
     if ap_is_finished n = 0
     then rbind (rfold (child_step plan i) [0..<nat (pl_node_num plan)] (0, 0)) (\<lambda>(child_num, child_finished_num).
       Inr (if child_num = child_finished_num
            then (if ap_execute_site n = site then to_exec @ [i] else to_exec)
            else to_exec))
     else Inr to_exec)"

definition to_execute :: "AugmentedPlan \<Rightarrow> string \<Rightarrow> nat list res" where
  "to_execute plan site = rfold (scan_node plan site) [0..<nat (pl_node_num plan)] []"

text \<open>A plan in which one more node has the mark.\<close>

definition finish :: "nat \<Rightarrow> AugmentedPlan \<Rightarrow> AugmentedPlan" where
  "finish i plan = plan\<lparr>pl_augplannodes := (pl_augplannodes plan)[i := (pl_augplannodes plan ! i)\<lparr>ap_is_finished := 1\<rparr>]\<rparr>"

text \<open>
  The cluster as a whole: a plan and the nodes being executed. Any site may scan at any time, so that a node can be picked up twice; a
  node that is executed is marked at some later time.
\<close>

inductive cluster_step :: "AugmentedPlan \<times> nat list \<Rightarrow> AugmentedPlan \<times> nat list \<Rightarrow> bool" where
  scan: "to_execute p site = Inr xs \<Longrightarrow> cluster_step (p, r) (p, r @ xs)"
| complete: "i \<in> set r \<Longrightarrow> cluster_step (p, r) (finish i p, remove1 i r)"

inductive_cases cluster_stepE: "cluster_step (p, r) q"

section \<open>What a scan returns\<close>

abbreviation node_at :: "AugmentedPlan \<Rightarrow> nat \<Rightarrow> AugPlanNode" where
  "node_at p i \<equiv> pl_augplannodes p ! i"

abbreviation plan_size :: "AugmentedPlan \<Rightarrow> nat" where
  "plan_size p \<equiv> length (pl_augplannodes p)"

definition plan_wf :: "AugmentedPlan \<Rightarrow> bool" where
  "plan_wf p = (pl_node_num p = int (plan_size p) \<and> (\<forall>n \<in> set (pl_augplannodes p). ap_is_finished n \<in> {0, 1}))"

lemma plan_wf_num: "plan_wf p \<Longrightarrow> pl_node_num p = int (plan_size p)"
  by (simp add: plan_wf_def)

definition finished :: "AugmentedPlan \<Rightarrow> nat \<Rightarrow> bool" where
  "finished p i = (i < plan_size p \<and> ap_is_finished (node_at p i) = 1)"

definition children_finished :: "AugmentedPlan \<Rightarrow> nat \<Rightarrow> bool" where
  "children_finished p i = (\<forall>j < plan_size p. ap_parent_id (node_at p j) = int i \<longrightarrow> finished p j)"

definition ready :: "AugmentedPlan \<Rightarrow> string \<Rightarrow> nat \<Rightarrow> bool" where
  "ready p site i = (i < plan_size p \<and> ap_is_finished (node_at p i) = 0 \<and> children_finished p i \<and> ap_execute_site (node_at p i) = site)"

lemma count_children:
  assumes "\<forall>j \<in> set js. j < plan_size p"
  shows "rfold (child_step p i) js (c, f) =
    Inr (c + length (filter (\<lambda>j. ap_parent_id (node_at p j) = int i) js),
         f + length (filter (\<lambda>j. ap_parent_id (node_at p j) = int i \<and> ap_is_finished (node_at p j) = 1) js))"
  using assms by (induction js arbitrary: c f) (simp_all add: child_step_def)

lemma filter_length_eq:
  "length (filter P xs) = length (filter (\<lambda>x. P x \<and> Q x) xs) \<longleftrightarrow> (\<forall>x \<in> set xs. P x \<longrightarrow> Q x)"
proof (induction xs)
  case (Cons x xs)
  have "length (filter (\<lambda>x. P x \<and> Q x) xs) \<le> length (filter P xs)" by (induction xs) auto
  with Cons show ?case by auto
qed simp

lemma scan_node_exact:
  assumes "pl_node_num p = int (plan_size p)" and "i < plan_size p"
  shows "scan_node p site i acc = Inr (if ready p site i then acc @ [i] else acc)"
  using assms count_children [of "[0..<plan_size p]" p i 0 0]
  by (auto simp: scan_node_def ready_def children_finished_def finished_def filter_length_eq)

lemma to_execute_filter:
  assumes "pl_node_num p = int (plan_size p)"
  shows "to_execute p site = Inr (filter (ready p site) [0..<plan_size p])"
proof -
  have "rfold (scan_node p site) is' acc = Inr (acc @ filter (ready p site) is')" if "\<forall>i \<in> set is'. i < plan_size p" for is' acc
    using that scan_node_exact [OF assms] by (induction is' arbitrary: acc) auto
  then show ?thesis by (simp add: to_execute_def assms)
qed

text \<open>A plan that announces more nodes than it has: either loop runs into the end of the vector.\<close>

lemma count_children_fails:
  assumes "plan_size p < n"
  shows "rfold (child_step p i) [0..<n] c = Inl OutOfBounds"
proof -
  have "[0..<n] = [0..<plan_size p] @ plan_size p # [Suc (plan_size p)..<n]"
    using assms by (metis less_imp_le_nat upt_add_eq_append upt_conv_Cons le_add_diff_inverse le0)
  moreover obtain d where "rfold (child_step p i) [0..<plan_size p] c = Inr d"
    using count_children [of "[0..<plan_size p]" p i "fst c" "snd c"] by auto
  ultimately show ?thesis by (simp add: rfold_append child_step_def vat_def)
qed

lemma to_execute_fails:
  assumes "int (plan_size p) < pl_node_num p"
  shows "to_execute p site = Inl OutOfBounds"
proof -
  let ?n = "nat (pl_node_num p)"
  have n: "plan_size p < ?n" using assms by simp
  have step: "scan_node p site i acc = Inl OutOfBounds \<or> i < plan_size p \<and> scan_node p site i acc = Inr acc" for i acc
    using count_children_fails [OF n] by (auto simp: scan_node_def vat_def)
  have "rfold (scan_node p site) is' acc = Inl OutOfBounds" if "\<exists>i \<in> set is'. plan_size p \<le> i" for is' acc
    using that
  proof (induction is')
    case (Cons i is')
    show ?case using step [of i acc]
    proof
      assume "i < plan_size p \<and> scan_node p site i acc = Inr acc"
      moreover from this Cons.prems have "\<exists>j \<in> set is'. plan_size p \<le> j" by auto
      ultimately show ?thesis using Cons.IH by simp
    qed simp
  qed simp
  moreover have "\<exists>i \<in> set [0..<?n]. plan_size p \<le> i" using n by (intro bexI [of _ "plan_size p"]) simp_all
  ultimately show ?thesis by (simp add: to_execute_def)
qed

text \<open>
  C22: the scan, exactly. With as many nodes as it announces, the nodes \<open>plan_scan\<close> picks for a site are those of the site that carry the mark
  0 and whose children all carry the mark 1, each once and in the order of their numbers; with fewer it reads past its vector.
\<close>

theorem to_execute_exact:
  assumes "int (plan_size p) \<le> pl_node_num p"
  shows "to_execute p site = (if pl_node_num p = int (plan_size p)
     then Inr (filter (\<lambda>i. ap_is_finished (node_at p i) = 0 \<and> ap_execute_site (node_at p i) = site \<and>
       (\<forall>j < plan_size p. ap_parent_id (node_at p j) = int i \<longrightarrow> ap_is_finished (node_at p j) = 1)) [0..<plan_size p])
     else Inl OutOfBounds)"
proof (cases "pl_node_num p = int (plan_size p)")
  case True
  have "filter (ready p site) [0..<plan_size p] = filter (\<lambda>i. ap_is_finished (node_at p i) = 0 \<and> ap_execute_site (node_at p i) = site \<and>
       (\<forall>j < plan_size p. ap_parent_id (node_at p j) = int i \<longrightarrow> ap_is_finished (node_at p j) = 1)) [0..<plan_size p]"
    by (rule filter_cong) (auto simp: ready_def children_finished_def finished_def)
  with to_execute_filter [OF True] True show ?thesis by simp
qed (use assms to_execute_fails in simp)

section \<open>Marking nodes\<close>

text \<open>Two plans that differ at most in what is finished.\<close>

definition same_plan :: "AugmentedPlan \<Rightarrow> AugmentedPlan \<Rightarrow> bool" where
  "same_plan p q = (pl_node_num q = pl_node_num p \<and> plan_size q = plan_size p \<and>
     (\<forall>i < plan_size p. ap_parent_id (node_at q i) = ap_parent_id (node_at p i) \<and> ap_execute_site (node_at q i) = ap_execute_site (node_at p i)))"

lemma same_plan_refl: "same_plan p p"
  by (simp add: same_plan_def)

lemma same_plan_trans: "same_plan p q \<Longrightarrow> same_plan q r \<Longrightarrow> same_plan p r"
  by (simp add: same_plan_def)

interpretation plan_order: effect_order same_plan
  by unfold_locales (rule same_plan_refl, rule same_plan_trans)

lemma plan_size_finish [simp]: "plan_size (finish i p) = plan_size p"
  by (simp add: finish_def)

lemma node_at_finish: "node_at (finish i p) j = (if j = i \<and> i < plan_size p then (node_at p i)\<lparr>ap_is_finished := 1\<rparr> else node_at p j)"
  by (cases "i < plan_size p") (auto simp: finish_def list_update_beyond)

lemma same_plan_finish: "same_plan p (finish i p)"
  by (auto simp: same_plan_def node_at_finish) (simp add: finish_def)

lemma plan_wf_finish: "plan_wf p \<Longrightarrow> plan_wf (finish i p)"
  by (auto simp: plan_wf_def finish_def dest!: subsetD [OF set_update_subset_insert])

lemma finished_finish: "finished (finish i p) j \<longleftrightarrow> j < plan_size p \<and> (j = i \<or> finished p j)"
  by (auto simp: finished_def node_at_finish)

lemma children_finished_mono:
  assumes "children_finished p i" and "same_plan p q" and "\<And>j. finished p j \<Longrightarrow> finished q j"
  shows "children_finished q i"
  using assms by (auto simp: children_finished_def same_plan_def)


section \<open>Order of execution\<close>

text \<open>Nodes that are finished or being executed have finished children.\<close>

definition ordered :: "AugmentedPlan \<times> nat list \<Rightarrow> bool" where
  "ordered s = (case s of (p, r) \<Rightarrow> plan_wf p \<and> (\<forall>i. finished p i \<longrightarrow> children_finished p i) \<and>
     (\<forall>i \<in> set r. i < plan_size p \<and> children_finished p i))"

lemma ordered_step:
  assumes "cluster_step s t" and "ordered s"
  shows "ordered t"
  using assms
proof (induction rule: cluster_step.induct)
  case (scan p site xs r)
  then have "plan_wf p" by (simp add: ordered_def)
  from to_execute_filter [OF plan_wf_num [OF this], of site] scan have "set xs = {i. ready p site i}" by (auto simp: ready_def)
  with scan show ?case by (auto simp: ordered_def ready_def)
next
  case (complete i r p)
  have m: "\<And>j. finished p j \<Longrightarrow> finished (finish i p) j" by (simp add: finished_finish) (simp add: finished_def)
  have "children_finished (finish i p) j" if "children_finished p j" for j
    by (rule children_finished_mono [OF that same_plan_finish m])
  with complete show ?case by (auto simp: ordered_def finished_finish plan_wf_finish dest!: set_remove1_subset [THEN subsetD])
qed

lemma ordered_steps: "cluster_step\<^sup>*\<^sup>* s t \<Longrightarrow> ordered s \<Longrightarrow> ordered t"
  by (induction rule: rtranclp_induct) (auto intro: ordered_step)

lemma steps_same_plan: "cluster_step\<^sup>*\<^sup>* s t \<Longrightarrow> same_plan (fst s) (fst t)"
  by (erule plan_order.steps_effect) (auto elim!: cluster_step.cases intro: same_plan_refl same_plan_finish)

text \<open>
  C5: no node runs before its operands. However the scans and completions of the sites interleave, at every moment a node that
  is finished, and a node that is being executed, has only finished children.
\<close>

theorem operands_finish_first:
  assumes "plan_wf p" and "\<forall>n \<in> set (pl_augplannodes p). ap_is_finished n = 0" and "cluster_step\<^sup>*\<^sup>* (p, []) (q, r)"
    and "finished q i \<or> i \<in> set r" and "j < plan_size p" and "ap_parent_id (node_at p j) = int i"
  shows "finished q j"
proof -
  have "ordered (p, [])" using assms(1,2) by (auto simp: ordered_def finished_def)
  from ordered_steps [OF assms(3) this] assms(4) have "children_finished q i" by (auto simp: ordered_def)
  with steps_same_plan [OF assms(3)] assms(5,6) show ?thesis by (auto simp: children_finished_def same_plan_def)
qed

definition two_nodes :: AugmentedPlan where
  "two_nodes = \<lparr>pl_node_num = 2, pl_augplannodes =
     [\<lparr>ap_node_id = 0, ap_parent_id = - 1, ap_execute_site = ''ddb0'', ap_sql = [], ap_savesql = [], ap_is_finished = 0\<rparr>,
      \<lparr>ap_node_id = 1, ap_parent_id = 0, ap_execute_site = ''ddb1'', ap_sql = [], ap_savesql = [], ap_is_finished = 0\<rparr>]\<rparr>"

theorem operands_finish_first_witness:
  "cluster_step\<^sup>*\<^sup>* (two_nodes, []) (finish 1 two_nodes, [0]) \<and> finished (finish 1 two_nodes) 1"
proof -
  have t: "to_execute two_nodes ''ddb1'' = Inr [1]" "to_execute (finish 1 two_nodes) ''ddb0'' = Inr [0]" by code_simp+
  have "cluster_step (two_nodes, []) (two_nodes, [1])" using cluster_step.scan [OF t(1), of "[]"] by simp
  moreover have "cluster_step (two_nodes, [1]) (finish 1 two_nodes, [])" using cluster_step.complete [of 1 "[1]" two_nodes] by simp
  moreover have "cluster_step (finish 1 two_nodes, []) (finish 1 two_nodes, [0])" using cluster_step.scan [OF t(2), of "[]"] by simp
  ultimately have r: "cluster_step\<^sup>*\<^sup>* (two_nodes, []) (finish 1 two_nodes, [0])" by (blast intro: rtranclp.rtrancl_into_rtrancl)
  have w: "plan_wf two_nodes" "\<forall>n \<in> set (pl_augplannodes two_nodes). ap_is_finished n = 0" by code_simp+
  have "1 < plan_size two_nodes" "ap_parent_id (node_at two_nodes 1) = int 0" by (simp_all add: two_nodes_def)
  with operands_finish_first [OF w r, of 0 1] r show ?thesis by simp
qed

section \<open>Progress\<close>













theorem to_execute_exact_witness:
  "to_execute two_nodes ''ddb1'' = Inr [1] \<and> to_execute (two_nodes\<lparr>pl_node_num := 3\<rparr>) ''ddb1'' = Inl OutOfBounds"
  using to_execute_exact [of two_nodes "''ddb1''"] to_execute_exact [of "two_nodes\<lparr>pl_node_num := 3\<rparr>" "''ddb1''"]
  by (simp add: two_nodes_def upt_rec less_Suc_eq numeral_2_eq_2)

end
