(* ===== verification/Mysql_Connector.thy ===== *)
theory Mysql_Connector
  imports Etcd_Store
begin

text \<open>
  The MySQL connector of mysql_connector/mysql_connector.cpp: select_sql, which renders a result as the tuples of an INSERT
  statement, and create_insert_delete_sql. The client library and the server behind it are a parameter.
\<close>

section \<open>The code\<close>

text \<open>
  The MySQL client library and the server behind it, outside the sources: whether a connection to a port and a socket opens,
  and what a statement answers there and makes of the data. A cell is \<open>None\<close> where the library gives a null pointer.
\<close>

datatype answer = Query_error | No_result | Rows "string option list list"

record 'd mysql =
  real_connect :: "int \<Rightarrow> string \<Rightarrow> 'd \<Rightarrow> bool"
  mysql_query :: "int \<Rightarrow> string \<Rightarrow> string \<Rightarrow> 'd \<Rightarrow> answer \<times> 'd"

definition site_port :: "string \<Rightarrow> int \<times> string" where
  "site_port site = (if site = ''ddb1'' then (3316, ''/home/mysql2/mysql.sock'') else (3306, ''/home/mysql1/mysql.sock''))"

definition sq :: string where
  "sq = [CHR 0x27]"

definition add_cell :: "string option \<Rightarrow> string \<Rightarrow> string res" where
  "add_cell cell temp = (case cell of None \<Rightarrow> Inl NullDeref | Some c \<Rightarrow> Inr (temp @ sq @ c_string c @ sq @ '',''))"

definition add_row :: "string option list \<Rightarrow> string \<Rightarrow> string res" where
  "add_row row query_res = rbind (rfold add_cell row ''('') (\<lambda>temp.
     Inr (query_res @ take (length temp - 1) temp @ ''),''))"

definition select_sql :: "'d mysql \<Rightarrow> string \<Rightarrow> string \<Rightarrow> 'd \<Rightarrow> (string \<times> 'd) res" where
  "select_sql M site sql d =
     (let (PORT, UNIX_SOCKET) = site_port site in
      if real_connect M PORT UNIX_SOCKET d
      then let (res, d) = mysql_query M PORT UNIX_SOCKET (c_string sql) d in
        (case res of
           Query_error \<Rightarrow> Inr ([], d)
         | No_result \<Rightarrow> Inr ([], d)
         | Rows rows \<Rightarrow> rbind (rfold add_row rows []) (\<lambda>query_res. rbind (pop_back query_res) (\<lambda>query_res. Inr (query_res, d))))
      else Inr ([], d))"

definition create_insert_delete_sql :: "'d mysql \<Rightarrow> string \<Rightarrow> string \<Rightarrow> 'd \<Rightarrow> (string \<times> 'd) res" where
  "create_insert_delete_sql M site sql d =
     (let (PORT, UNIX_SOCKET) = site_port site in
      if real_connect M PORT UNIX_SOCKET d
      then let (res, d) = mysql_query M PORT UNIX_SOCKET (c_string sql) d in
        Inr (if res = Query_error then ''FAILED'' else ''OK'', d)
      else Inl MissingReturn)"

section \<open>Lemmas\<close>

text \<open>The list of value tuples an INSERT statement takes.\<close>

definition tuple_text :: "string list \<Rightarrow> string" where
  "tuple_text row = ''('' @ join_with '','' (map (\<lambda>c. sq @ c @ sq) row) @ '')''"

definition tuples_text :: "string list list \<Rightarrow> string" where
  "tuples_text rows = join_with '','' (map tuple_text rows)"

lemma join_with_comma: "xs \<noteq> [] \<Longrightarrow> concat (map (\<lambda>x. x @ [c]) xs) = join_with [c] xs @ [c]"
proof (induction xs)
  case (Cons x xs)
  then show ?case by (cases xs) auto
qed simp

lemma add_cells:
  assumes "\<forall>c \<in> set row. CHR 0x00 \<notin> set c"
  shows "rfold add_cell (map Some row) temp = Inr (temp @ concat (map (\<lambda>c. (sq @ c @ sq) @ '','') row))"
  using assms
proof (induction row arbitrary: temp)
  case (Cons c row)
  then have "c_string c = c" by (simp add: c_string_def takeWhile_eq_all_conv) metis
  with Cons show ?case by (simp add: add_cell_def)
qed simp

lemma add_row_tuple:
  assumes "row \<noteq> []" and "\<forall>c \<in> set row. CHR 0x00 \<notin> set c"
  shows "add_row (map Some row) q = Inr (q @ tuple_text row @ '','')"
proof -
  have "concat (map (\<lambda>c. (sq @ c @ sq) @ '','') row) = join_with '','' (map (\<lambda>c. sq @ c @ sq) row) @ '',''"
    using join_with_comma [of "map (\<lambda>c. sq @ c @ sq) row"] assms(1) by (simp add: o_def)
  with add_cells [OF assms(2), of "''(''"] show ?thesis by (simp add: add_row_def tuple_text_def)
qed

lemma add_rows_tuples:
  assumes "\<forall>row \<in> set rows. row \<noteq> [] \<and> (\<forall>c \<in> set row. CHR 0x00 \<notin> set c)"
  shows "rfold add_row (map (map Some) rows) q = Inr (q @ concat (map (\<lambda>r. tuple_text r @ '','') rows))"
  using assms by (induction rows arbitrary: q) (simp_all add: add_row_tuple)

lemma rfold_null_cell: "None \<in> set row \<Longrightarrow> rfold add_cell row temp = Inl NullDeref"
proof (induction row arbitrary: temp)
  case (Cons c row)
  then show ?case by (cases c) (auto simp: add_cell_def)
qed simp

section \<open>Properties\<close>

text \<open>
  C33: what \<open>select_sql\<close> makes of the rows of a result. Rows of cells that are not null become the tuples of an INSERT
  statement, separated by commas; an empty result pops from an empty string.
\<close>

theorem select_sql_tuples:
  assumes "real_connect M (fst (site_port site)) (snd (site_port site)) d"
    and "mysql_query M (fst (site_port site)) (snd (site_port site)) (c_string sql) d = (Rows (map (map Some) rows), d')"
    and "\<forall>row \<in> set rows. row \<noteq> [] \<and> (\<forall>c \<in> set row. CHR 0x00 \<notin> set c)"
  shows "select_sql M site sql d = (if rows = [] then Inl EmptyPop else Inr (tuples_text rows, d'))"
proof -
  obtain p u where pu: "site_port site = (p, u)" by (cases "site_port site")
  have "concat (map (\<lambda>r. tuple_text r @ '','') rows) = (if rows = [] then [] else tuples_text rows @ '','')"
    using join_with_comma [of "map tuple_text rows"] by (simp add: tuples_text_def o_def)
  with assms pu add_rows_tuples [OF assms(3), of "[]"] show ?thesis
    by (simp add: select_sql_def pop_back_def)
qed

definition two_rows :: "unit mysql" where
  "two_rows = \<lparr>real_connect = (\<lambda>port sock d. port = 3306),
     mysql_query = (\<lambda>port sock sql d. (Rows (map (map Some) [[''1'', ''PRC''], [''2'', ''USA'']]), d))\<rparr>"

theorem select_sql_tuples_witness:
  "select_sql two_rows ''ddb0'' ''select id,nation from Publisher'' () = Inr (''('' @ sq @ ''1'' @ sq @ '','' @ sq @ ''PRC'' @ sq @ ''),('' @ sq @ ''2'' @ sq @ '','' @ sq @ ''USA'' @ sq @ '')'', ())"
  using select_sql_tuples [of two_rows "''ddb0''" "()" "''select id,nation from Publisher''" "[[''1'', ''PRC''], [''2'', ''USA'']]" "()"]
  by (simp add: two_rows_def site_port_def tuples_text_def tuple_text_def)

end
