(* ===== verification/Cluster_Service.thy ===== *)
theory Cluster_Service
  imports Plan_Builder Plan_Scheduler Mysql_Connector
begin

text \<open>
  The server (db.cpp, cluster_manager.cpp): the site table, data_push, data_receive, plan_scan, sql_execute, get_result and
  deal_with_msg, as functions of a site's store, database and outgoing events. The RPC, JSON and database libraries are
  parameters. The lemmas show that messages between sites are well typed, which messages a server answers, that the
  mark a site sets in the store is the step of the scheduler, and what pushing a node does in each case.
\<close>

section \<open>Sites\<close>

text \<open>
  The sites of the cluster. A client of a site is its address; the configuration file, parsed by the JSON library, is the list of
  the names and addresses in it, and whether a channel can be initialised is an argument. The constructor ends the process
  where a channel cannot, which is \<open>None\<close>.
\<close>

record SiteManager =
  sm_site_dict :: "(string \<times> string) list"
  sm_sites :: "string list"
  sm_local_site_name :: string

definition add_site :: "string \<times> string \<Rightarrow> SiteManager \<Rightarrow> SiteManager" where
  "add_site cfg m = m\<lparr>sm_site_dict := map_insert (fst cfg) (snd cfg) (sm_site_dict m), sm_sites := sm_sites m @ [snd cfg]\<rparr>"

fun add_sites :: "(string \<Rightarrow> bool) \<Rightarrow> (string \<times> string) list \<Rightarrow> SiteManager \<Rightarrow> SiteManager option" where
  "add_sites channel_init [] m = Some m"
| "add_sites channel_init (cfg # cfgs) m = (if channel_init (snd cfg) then add_sites channel_init cfgs (add_site cfg m) else None)"

definition SiteManager_new :: "(string \<Rightarrow> bool) \<Rightarrow> (string \<times> string) list \<Rightarrow> string \<Rightarrow> SiteManager option" where
  "SiteManager_new channel_init cluster_config local_site_name =
     add_sites channel_init cluster_config \<lparr>sm_site_dict = [], sm_sites = [], sm_local_site_name = local_site_name\<rparr>"

interpretation site_table: registry "\<lambda>name addr. add_site (name, addr)" "\<lambda>m. map_of (sm_site_dict m)"
  by unfold_locales (simp add: add_site_def map_of_map_insert)

lemma add_sites_fold: "add_sites ci cfgs m = (if list_all (\<lambda>c. ci (snd c)) cfgs then Some (fold add_site cfgs m) else None)"
  by (induction cfgs arbitrary: m) simp_all

text \<open>The site table is the configuration, the first entry of a name counting.\<close>

lemma site_lookup:
  assumes "SiteManager_new ci cfgs name = Some m"
  shows "map_of (sm_site_dict m) = map_of cfgs"
proof -
  from assms have "m = fold add_site cfgs \<lparr>sm_site_dict = [], sm_sites = [], sm_local_site_name = name\<rparr>"
    by (simp add: SiteManager_new_def add_sites_fold split: if_splits)
  then show ?thesis using site_table.lookup_puts [of cfgs "\<lparr>sm_site_dict = [], sm_sites = [], sm_local_site_name = name\<rparr>"] by simp
qed

section \<open>What a site does\<close>

text \<open>Messages to other sites, scans in a process of their own, and files written and removed.\<close>

datatype event = Request string string string | Fork_scan | Write_file string string | Remove_file string

record ('s, 'd) world =
  w_store :: 's
  w_db :: 'd
  w_events :: "event list"

text \<open>The libraries: the store, the database, and the answer or error text of a remote call.\<close>

record ('j, 's, 'd) server =
  sv_etcd :: "('j, 's) etcd"
  sv_mysql :: "'d mysql"
  sv_call :: "string \<Rightarrow> string \<Rightarrow> string \<Rightarrow> string"

definition store_put :: "('j, 's, 'd) server \<Rightarrow> string \<Rightarrow> string \<Rightarrow> ('s, 'd) world \<Rightarrow> ('s, 'd) world res" where
  "store_put V key val w = rbind (etcd_set (sv_etcd V) key val (w_store w)) (\<lambda>(_, s). Inr (w\<lparr>w_store := s\<rparr>))"

definition db_run :: "('j, 's, 'd) server \<Rightarrow> string \<Rightarrow> string \<Rightarrow> ('s, 'd) world \<Rightarrow> ('s, 'd) world res" where
  "db_run V site sql w = rbind (create_insert_delete_sql (sv_mysql V) site sql (w_db w)) (\<lambda>(_, d). Inr (w\<lparr>w_db := d\<rparr>))"

definition emit :: "event \<Rightarrow> ('s, 'd) world \<Rightarrow> ('s, 'd) world" where
  "emit e w = w\<lparr>w_events := w_events w @ [e]\<rparr>"

text \<open>A site that is not in the dictionary: \<open>find\<close> returns the end, which is dereferenced.\<close>

definition send_site_message ::
  "('j, 's, 'd) server \<Rightarrow> SiteManager \<Rightarrow> string \<Rightarrow> string \<Rightarrow> string \<Rightarrow> ('s, 'd) world \<Rightarrow> (string \<times> ('s, 'd) world) res" where
  "send_site_message V m site_name msg_type msg w = (case map_of (sm_site_dict m) site_name of
       None \<Rightarrow> Inl OutOfBounds
     | Some addr \<Rightarrow> Inr (sv_call V addr msg_type msg, emit (Request addr msg_type msg) w))"

record tm =
  tm_year :: int
  tm_mon :: int
  tm_mday :: int
  tm_hour :: int
  tm_min :: int
  tm_sec :: int

definition result_file :: "tm \<Rightarrow> string" where
  "result_file ltm = to_string (1900 + tm_year ltm) @ to_string (1 + tm_mon ltm) @ to_string (tm_mday ltm) @
     to_string (tm_hour ltm) @ to_string (tm_min ltm) @ to_string (tm_sec ltm) @ ''.txt''"

text \<open>\<open>msg.substr(msg.find(\",\") + 1)\<close>\<close>

definition payload :: "string \<Rightarrow> string res" where
  "payload msg = substr msg (pos_plus (str_find msg '','') 1) None"

text \<open>The result of a node becomes a table, where it was computed and where its parent is executed.\<close>

definition push_local :: "('j, 's, 'd) server \<Rightarrow> SiteManager \<Rightarrow> AugmentedPlan \<Rightarrow> int \<Rightarrow> string \<Rightarrow> ('s, 'd) world \<Rightarrow> ('s, 'd) world res" where
  "push_local V m plan node_id datamsg w =
     rbind (vat_int (pl_augplannodes plan) node_id) (\<lambda>n.
     let create_sql = ''create table node'' @ to_string node_id @ ap_savesql n in
     rbind (payload datamsg) (\<lambda>data.
     let save_sql = ''insert into '' @ to_string node_id @ '' values '' @ data in
     rbind (db_run V (sm_local_site_name m) create_sql w) (\<lambda>w.
     rbind (db_run V (sm_local_site_name m) save_sql w) (\<lambda>w.
     rbind (store_put V (to_string node_id @ ''is_finished'') ''1'' w) (\<lambda>w. Inr (emit Fork_scan w))))))"

definition receive_table :: "('j, 's, 'd) server \<Rightarrow> SiteManager \<Rightarrow> AugmentedPlan \<Rightarrow> int \<Rightarrow> string \<Rightarrow> ('s, 'd) world \<Rightarrow> ('s, 'd) world res" where
  "receive_table V m plan node_id data w =
     rbind (vat_int (pl_augplannodes plan) node_id) (\<lambda>n.
     let create_sql = ''create table node'' @ to_string node_id @ ap_savesql n;
         save_sql = ''insert into '' @ to_string node_id @ '' values '' @ data in
     rbind (db_run V (sm_local_site_name m) create_sql w) (\<lambda>w.
     rbind (db_run V (sm_local_site_name m) save_sql w) (\<lambda>w.
     rbind (store_put V (to_string node_id @ ''is_finished'') ''1'' w) (\<lambda>w. Inr (emit Fork_scan w)))))"

definition delete_data :: "('j, 's, 'd) server \<Rightarrow> int \<Rightarrow> string \<Rightarrow> ('s, 'd) world \<Rightarrow> ('s, 'd) world res" where
  "delete_data V node_id local_site_name w = db_run V local_site_name (''delete from  '' @ to_string node_id) w"

definition delete_child :: "('j, 's, 'd) server \<Rightarrow> SiteManager \<Rightarrow> AugmentedPlan \<Rightarrow> int \<Rightarrow> nat \<Rightarrow> ('s, 'd) world \<Rightarrow> ('s, 'd) world res" where
  "delete_child V m plan node_id i w = rbind (vat (pl_augplannodes plan) i) (\<lambda>n.
     if ap_parent_id n = node_id then delete_data V (int i) (sm_local_site_name m) w else Inr w)"

text \<open>The result of the root is a file, that of another node goes to the site of its parent.\<close>

definition deliver ::
  "('j, 's, 'd) server \<Rightarrow> tm \<Rightarrow> int \<Rightarrow> string \<Rightarrow> SiteManager \<Rightarrow> string \<Rightarrow> AugmentedPlan \<Rightarrow> bool \<Rightarrow> ('s, 'd) world \<Rightarrow> ('s, 'd) world res" where
  "deliver V ltm node_id datamsg m target_site_name plan is_root w =
     (if is_root
      then rbind (payload datamsg) (\<lambda>body.
        rbind (store_put V ''result'' (result_file ltm) (emit (Write_file (result_file ltm) body) w)) (\<lambda>w.
        rbind (store_put V (to_string node_id @ ''is_finished'') ''1'' w) (store_put V ''is_finished'' ''1'')))
      else if target_site_name = sm_local_site_name m
      then push_local V m plan node_id datamsg w
      else rbind (send_site_message V m target_site_name ''data_push'' datamsg w) (\<lambda>(_, w). Inr w))"

text \<open>The value returned at the end is a variable of an inner block; the callers drop it.\<close>

definition data_push ::
  "('j, 's, 'd) server \<Rightarrow> tm \<Rightarrow> int \<Rightarrow> string \<Rightarrow> SiteManager \<Rightarrow> string \<Rightarrow> AugmentedPlan \<Rightarrow> bool \<Rightarrow> ('s, 'd) world \<Rightarrow> ('s, 'd) world res" where
  "data_push V ltm node_id sql m target_site_name plan is_root w =
     rbind (select_sql (sv_mysql V) (sm_local_site_name m) sql (w_db w)) (\<lambda>(data, d).
     rbind (deliver V ltm node_id (to_string node_id @ '','' @ data) m target_site_name plan is_root (w\<lparr>w_db := d\<rparr>))
       (rfold (delete_child V m plan node_id) [0..<nat (pl_node_num plan)]))"

definition data_receive :: "('j, 's, 'd) server \<Rightarrow> SiteManager \<Rightarrow> string \<Rightarrow> ('s, 'd) world \<Rightarrow> (string \<times> ('s, 'd) world) res" where
  "data_receive V m msg w = rbind (get_plan_from_etcd (sv_etcd V) (w_store w)) (\<lambda>(plan, s).
     rbind (stoi (prefix_upto msg (str_find msg '',''))) (\<lambda>node_id.
     rbind (payload msg) (\<lambda>data.
     rbind (receive_table V m plan node_id data (w\<lparr>w_store := s\<rparr>)) (\<lambda>w. Inr (''ok'', w)))))"

text \<open>A node goes to the site of its parent; \<open>now\<close> is the local time at which a node is pushed.\<close>

definition push_ready :: "('j, 's, 'd) server \<Rightarrow> (nat \<Rightarrow> tm) \<Rightarrow> SiteManager \<Rightarrow> AugmentedPlan \<Rightarrow> nat \<Rightarrow> ('s, 'd) world \<Rightarrow> ('s, 'd) world res" where
  "push_ready V now m plan i w = rbind (vat (pl_augplannodes plan) i) (\<lambda>n.
     if ap_parent_id n = - 1
     then data_push V (now i) (int i) (ap_sql n) m (sm_local_site_name m) plan True w
     else rbind (vat_int (pl_augplannodes plan) (ap_parent_id n)) (\<lambda>pn.
       data_push V (now i) (int i) (ap_sql n) m (ap_execute_site pn) plan False w))"

definition scan_with :: "('j, 's, 'd) server \<Rightarrow> (nat \<Rightarrow> tm) \<Rightarrow> SiteManager \<Rightarrow> AugmentedPlan \<Rightarrow> ('s, 'd) world \<Rightarrow> (string \<times> ('s, 'd) world) res" where
  "scan_with V now m plan w = rbind (to_execute plan (sm_local_site_name m)) (\<lambda>xs.
     rbind (rfold (push_ready V now m plan) xs w) (\<lambda>w. Inr (''ok'', w)))"

definition plan_scan :: "('j, 's, 'd) server \<Rightarrow> (nat \<Rightarrow> tm) \<Rightarrow> SiteManager \<Rightarrow> ('s, 'd) world \<Rightarrow> (string \<times> ('s, 'd) world) res" where
  "plan_scan V now m w = rbind (get_plan_from_etcd (sv_etcd V) (w_store w)) (\<lambda>(plan, s). scan_with V now m plan (w\<lparr>w_store := s\<rparr>))"

definition site_execute :: "('j, 's, 'd) server \<Rightarrow> (nat \<Rightarrow> tm) \<Rightarrow> SiteManager \<Rightarrow> string \<Rightarrow> ('s, 'd) world \<Rightarrow> (string \<times> ('s, 'd) world) res" where
  "site_execute V now m msg w = plan_scan V now m w"

section \<open>Running a statement\<close>

text \<open>
  The wait of \<open>get_result\<close> for the mark \<open>1\<close>; \<open>stores k\<close> is the store when it is read the \<open>k\<close>-th time, as the other sites have left
  it, and \<open>files\<close> gives the lines of a file.
\<close>

definition poll :: "('j, 's) etcd \<Rightarrow> string \<Rightarrow> 's \<Rightarrow> string res" where
  "poll E key s = rbind (etcd_get E key s) (\<lambda>(v, _). Inr v)"

partial_function (option) wait_finished :: "('j, 's) etcd \<Rightarrow> (nat \<Rightarrow> 's) \<Rightarrow> nat \<Rightarrow> nat res option" where
  "wait_finished E stores k = (case poll E ''is_finished'' (stores k) of
       Inl e \<Rightarrow> Some (Inl e)
     | Inr v \<Rightarrow> if v = ''1'' then Some (Inr k) else wait_finished E stores (Suc k))"

definition get_result :: "('j, 's) etcd \<Rightarrow> (nat \<Rightarrow> 's) \<Rightarrow> (string \<Rightarrow> string list) \<Rightarrow> (string \<times> string \<times> 's) res option" where
  "get_result E stores files = (case wait_finished E stores 0 of
       None \<Rightarrow> None
     | Some (Inl e) \<Rightarrow> Some (Inl e)
     | Some (Inr k) \<Rightarrow> Some (rbind (poll E ''result'' (stores (Suc k))) (\<lambda>file. Inr (concat (files file), file, stores (Suc k)))))"

text \<open>
  The surroundings of \<open>sql_execute\<close>: the parser and planner behind \<open>build_query_tree(sql)\<close>, for which db.cpp uses a signature that
  does not exist, the texts of \<open>Plan_Builder\<close>, and what the other sites and the file system do meanwhile.
\<close>

record 's surroundings =
  su_planner :: "string \<Rightarrow> Tree res"
  su_texts :: sql_texts
  su_stores :: "nat \<Rightarrow> 's"
  su_files :: "string \<Rightarrow> string list"

definition announce :: "('j, 's, 'd) server \<Rightarrow> SiteManager \<Rightarrow> ('s, 'd) world \<Rightarrow> ('s, 'd) world res" where
  "announce V m w = rfold (\<lambda>site w. rbind (send_site_message V m site ''site_execute'' ''plan'' w) (\<lambda>(_, w). Inr w)) (map fst (sm_site_dict m)) w"

definition collect_result :: "('j, 's, 'd) server \<Rightarrow> 's surroundings \<Rightarrow> ('s, 'd) world \<Rightarrow> (string \<times> ('s, 'd) world) res option" where
  "collect_result V U w = (case get_result (sv_etcd V) (su_stores U) (su_files U) of
       None \<Rightarrow> None
     | Some (Inl e) \<Rightarrow> Some (Inl e)
     | Some (Inr (result, file, s)) \<Rightarrow> Some (
         rbind (store_put V ''result'' [] (emit (Remove_file file) (w\<lparr>w_store := s\<rparr>))) (\<lambda>w.
         rbind (store_put V ''node_num'' ''0'' w) (\<lambda>w. Inr (result, w)))))"

definition sql_execute :: "('j, 's, 'd) server \<Rightarrow> 's surroundings \<Rightarrow> SiteManager \<Rightarrow> string \<Rightarrow> ('s, 'd) world \<Rightarrow> (string \<times> ('s, 'd) world) res option" where
  "sql_execute V U m msg w = (case su_planner U msg of
       Inl e \<Rightarrow> Some (Inl e)
     | Inr query_tree \<Rightarrow> (case build_augmented_plan (su_texts U) (sv_etcd V) query_tree (w_store w) of
         None \<Rightarrow> None
       | Some (Inl e) \<Rightarrow> Some (Inl e)
       | Some (Inr (aug_plan, s)) \<Rightarrow> (case rbind (save_plan_to_etcd (sv_etcd V) aug_plan s) (\<lambda>(_, s). announce V m (w\<lparr>w_store := s\<rparr>)) of
           Inl e \<Rightarrow> Some (Inl e)
         | Inr w \<Rightarrow> collect_result V U w)))"

section \<open>The service\<close>

text \<open>\<open>config\<close> and \<open>site_plan_execute\<close> are called and nowhere defined; they are arguments.\<close>

record ('s, 'd) undefined_calls =
  uc_config :: "string \<Rightarrow> ('s, 'd) world \<Rightarrow> (string \<times> ('s, 'd) world) res option"
  uc_site_plan_execute :: "string \<Rightarrow> ('s, 'd) world \<Rightarrow> (string \<times> ('s, 'd) world) res option"

definition deal_with_msg ::
  "('j, 's, 'd) server \<Rightarrow> 's surroundings \<Rightarrow> ('s, 'd) undefined_calls \<Rightarrow> (nat \<Rightarrow> tm) \<Rightarrow> SiteManager \<Rightarrow> string \<Rightarrow> string \<Rightarrow> ('s, 'd) world \<Rightarrow>
   (string \<times> ('s, 'd) world) res option" where
  "deal_with_msg V U C now m msg_type msg w =
     (if msg_type = ''sql'' then sql_execute V U m msg w
      else if msg_type = ''config'' then uc_config C msg w
      else if msg_type = ''order'' then Some (site_execute V now m msg w)
      else if msg_type = ''data_push'' then Some (data_receive V m msg w)
      else if msg_type = ''site_execute'' then uc_site_plan_execute C msg w
      else Some (Inr (''error'', w)))"

text \<open>The remote procedure: the answer and, when the flag is set, the attachment of the request.\<close>

definition SendClientMsg ::
  "('j, 's, 'd) server \<Rightarrow> 's surroundings \<Rightarrow> ('s, 'd) undefined_calls \<Rightarrow> (nat \<Rightarrow> tm) \<Rightarrow> SiteManager \<Rightarrow> bool \<Rightarrow> string \<times> string \<Rightarrow> string \<Rightarrow> ('s, 'd) world \<Rightarrow>
   (string \<times> string \<times> ('s, 'd) world) res option" where
  "SendClientMsg V U C now m echo_attachment request attachment w = (case deal_with_msg V U C now m (fst request) (snd request) w of
       None \<Rightarrow> None
     | Some r \<Rightarrow> Some (rbind r (\<lambda>(response, w). Inr (response, if echo_attachment then attachment else [], w))))"

text \<open>The exit code of the server: whether the service can be added, the address read and the server started.\<close>

definition server_main :: "bool \<Rightarrow> string \<Rightarrow> (string \<Rightarrow> 'p option) \<Rightarrow> 'p \<Rightarrow> ('p \<Rightarrow> bool) \<Rightarrow> int" where
  "server_main added listen_addr str2endpoint any_point start =
     (if \<not> added then - 1
      else case (if listen_addr \<noteq> [] then str2endpoint listen_addr else Some any_point) of
          None \<Rightarrow> - 1
        | Some point \<Rightarrow> if start point then 0 else - 1)"

section \<open>Waiting\<close>

lemma wait_finished_found:
  assumes "poll E ''is_finished'' (stores (i + k)) = Inr ''1''"
    and "\<And>j. j < k \<Longrightarrow> \<exists>v. poll E ''is_finished'' (stores (i + j)) = Inr v \<and> v \<noteq> ''1''"
  shows "wait_finished E stores i = Some (Inr (i + k))"
  using assms
proof (induction k arbitrary: i)
  case 0
  then show ?case by (subst wait_finished.simps) simp
next
  case (Suc k)
  from Suc.prems(2) [of 0] obtain v where "poll E ''is_finished'' (stores i) = Inr v" "v \<noteq> ''1''" by auto
  then have "wait_finished E stores i = wait_finished E stores (Suc i)" by (subst wait_finished.simps) simp
  also have "\<dots> = Some (Inr (Suc i + k))"
  proof (rule Suc.IH)
    show "poll E ''is_finished'' (stores (Suc i + k)) = Inr ''1''" using Suc.prems(1) by simp
    show "\<exists>v. poll E ''is_finished'' (stores (Suc i + j)) = Inr v \<and> v \<noteq> ''1''" if "j < k" for j
      using Suc.prems(2) [of "Suc j"] that by simp
  qed
  finally show ?case by simp
qed

section \<open>Messages between sites\<close>

lemma comma_not_in_number: "CHR '','' \<notin> set (to_string i)"
proof -
  have "CHR '','' \<notin> set (nat_to_string n)" for n using nat_to_string_digits [of "CHR '',''" n] by auto
  then show ?thesis by (simp add: to_string_def)
qed

lemma message_split:
  "str_find (to_string i @ '','' @ data) '','' = Some (length (to_string i))"
  "payload (to_string i @ '','' @ data) = Inr data"
  using find_from_char [OF comma_not_in_number, of i data 0] by (simp_all add: str_find_def payload_def substr_def)

text \<open>Requests of one type to known sites.\<close>

definition is_sent :: "SiteManager \<Rightarrow> string \<Rightarrow> event \<Rightarrow> bool" where
  "is_sent m msg_type e = (case e of Request addr ty msg \<Rightarrow> ty = msg_type \<and> addr \<in> snd ` set (sm_site_dict m) | _ \<Rightarrow> True)"

definition sends :: "SiteManager \<Rightarrow> string \<Rightarrow> ('s, 'd) world \<Rightarrow> ('s, 'd) world \<Rightarrow> bool" where
  "sends m msg_type w w' = (\<exists>es. w_events w' = w_events w @ es \<and> list_all (is_sent m msg_type) es)"

lemma sends_refl: "w_events w' = w_events w \<Longrightarrow> sends m ty w w'"
  by (simp add: sends_def)

lemma sends_trans: "sends m ty u v \<Longrightarrow> sends m ty v w \<Longrightarrow> sends m ty u w"
  by (auto simp: sends_def)

lemma sends_emit: "is_sent m ty e \<Longrightarrow> sends m ty w (emit e w)"
  by (simp add: sends_def emit_def)

lemma sends_emit_local: "sends m ty w (emit Fork_scan w)" "sends m ty w (emit (Write_file f c) w)"
  by (auto intro: sends_emit simp: is_sent_def)

lemma store_put_sends: "store_put V k v w = Inr w' \<Longrightarrow> sends m ty w w'"
  by (auto simp: store_put_def intro: sends_refl)

lemma db_run_sends: "db_run V site sql w = Inr w' \<Longrightarrow> sends m ty w w'"
  by (auto simp: db_run_def intro: sends_refl)

lemma send_sends: "send_site_message V m site ty msg w = Inr (r, w') \<Longrightarrow> sends m ty w w'"
  by (auto simp: send_site_message_def is_sent_def intro!: sends_emit dest!: map_of_SomeD split: option.splits) (metis imageI snd_conv)

interpretation sends_order: effect_order "sends m ty" for m ty
  by unfold_locales (simp_all add: sends_refl sends_trans)

lemma push_local_sends: "push_local V m' plan i data w = Inr w' \<Longrightarrow> sends m ty w w'"
  by (auto simp: push_local_def Let_def intro!: sends_trans [OF db_run_sends sends_trans [OF db_run_sends sends_trans [OF store_put_sends sends_emit_local(1)]]])

lemma delete_child_sends: "delete_child V m' plan i j w = Inr w' \<Longrightarrow> sends m ty w w'"
  by (auto simp: delete_child_def delete_data_def intro: sends_refl db_run_sends split: if_splits)

lemma root_push_sends:
  assumes "store_put V k1 v1 (emit (Write_file f c) w) = Inr u" and "store_put V k2 v2 u = Inr v" and "store_put V k3 v3 v = Inr w'"
  shows "sends m ty w w'"
  using assms by (blast intro: sends_trans sends_emit_local(2) store_put_sends)

lemma deliver_sends: "deliver V ltm i msg m target plan is_root w = Inr w' \<Longrightarrow> sends m ''data_push'' w w'"
  unfolding deliver_def by (auto split: if_splits intro: push_local_sends send_sends root_push_sends)

lemma data_push_sends:
  assumes "data_push V ltm i sql m target plan is_root w = Inr w'"
  shows "sends m ''data_push'' w w'"
proof -
  from assms obtain data d w1 where 1: "deliver V ltm i (to_string i @ '','' @ data) m target plan is_root (w\<lparr>w_db := d\<rparr>) = Inr w1"
    and 2: "rfold (delete_child V m plan i) [0..<nat (pl_node_num plan)] w1 = Inr w'"
    by (auto simp: data_push_def)
  have "sends m ''data_push'' w (w\<lparr>w_db := d\<rparr>)" by (simp add: sends_refl)
  moreover have "sends m ''data_push'' w1 w'" by (rule sends_order.rfold_effect [OF 2]) (rule delete_child_sends)
  ultimately show ?thesis using deliver_sends [OF 1] by (blast intro: sends_trans)
qed

lemma push_ready_sends: "push_ready V now m plan i w = Inr w' \<Longrightarrow> sends m ''data_push'' w w'"
  by (auto simp: push_ready_def intro: data_push_sends split: if_splits)

text \<open>
  C38: messages between sites are well typed. A scan only sends messages of type \<open>data_push\<close>, and the announcement of a plan only
  messages of type \<open>site_execute\<close>, both to clients of configured sites; \<open>deal_with_msg\<close> has a branch for each of the two.
\<close>

theorem messages_well_typed:
  "(scan_with V now m plan w = Inr (r, w') \<longrightarrow> sends m ''data_push'' w w') \<and>
   (announce V m w = Inr w' \<longrightarrow> sends m ''site_execute'' w w') \<and>
   deal_with_msg V U C now m ''data_push'' msg w = Some (data_receive V m msg w) \<and>
   deal_with_msg V U C now m ''site_execute'' msg w = uc_site_plan_execute C msg w"
proof (intro conjI impI)
  assume "scan_with V now m plan w = Inr (r, w')"
  then obtain xs where "rfold (push_ready V now m plan) xs w = Inr w'" by (auto simp: scan_with_def)
  then show "sends m ''data_push'' w w'" by (rule sends_order.rfold_effect) (rule push_ready_sends)
next
  assume "announce V m w = Inr w'"
  then show "sends m ''site_execute'' w w'" unfolding announce_def by (rule sends_order.rfold_effect) (auto intro: send_sends)
qed (simp_all add: deal_with_msg_def)

lemma plan_never_returned: "get_plan_from_etcd E s \<noteq> Inr x"
  by (auto simp: get_plan_from_etcd_def rbind_def split: sum.splits)

lemma sql_never_answered: "sql_execute V U m msg w \<noteq> Some (Inr x)"
  by (auto simp: sql_execute_def save_plan_to_etcd_def rbind_def split: sum.splits option.splits prod.splits)

text \<open>
  C39: which messages are answered. No message of type \<open>sql\<close>, \<open>order\<close> or \<open>data_push\<close> gets an answer: the first needs
  \<open>save_plan_to_etcd\<close> to return, the others \<open>get_plan_from_etcd\<close>. Except for the two types whose handlers do not exist, the
  answer to every other type, such as the \<open>conf\<close> of the client, is \<open>error\<close> and nothing is changed.
\<close>

theorem answered_messages:
  assumes "deal_with_msg V U C now m msg_type msg w = Some (Inr (r, w'))"
  shows "msg_type \<noteq> ''sql'' \<and> msg_type \<noteq> ''order'' \<and> msg_type \<noteq> ''data_push'' \<and>
    (msg_type \<noteq> ''config'' \<and> msg_type \<noteq> ''site_execute'' \<longrightarrow> r = ''error'' \<and> w' = w)"
  using assms by (auto simp: deal_with_msg_def site_execute_def plan_scan_def data_receive_def rbind_eq_Inr
      plan_never_returned sql_never_answered split: if_splits)

section \<open>Examples\<close>

definition sample_server :: "(string, string \<Rightarrow> string option, unit) server" where
  "sample_server = \<lparr>sv_etcd = memo_etcd, sv_mysql = two_rows, sv_call = (\<lambda>addr ty msg. ''ok'')\<rparr>"

definition sample_manager :: SiteManager where
  "sample_manager = \<lparr>sm_site_dict = [(''ddb0'', ''10.0.0.1:6666''), (''ddb2'', ''10.0.0.2:6666'')],
     sm_sites = [''10.0.0.1:6666'', ''10.0.0.2:6666''], sm_local_site_name = ''ddb0''\<rparr>"

definition sample_time :: tm where
  "sample_time = \<lparr>tm_year = 123, tm_mon = 0, tm_mday = 11, tm_hour = 9, tm_min = 30, tm_sec = 0\<rparr>"

definition sample_world :: "(string \<Rightarrow> string option, unit) world" where
  "sample_world = \<lparr>w_store = (\<lambda>_. None), w_db = (), w_events = []\<rparr>"

lemma sample_manager_built:
  "SiteManager_new (\<lambda>_. True) [(''ddb0'', ''10.0.0.1:6666''), (''ddb2'', ''10.0.0.2:6666'')] ''ddb0'' = Some sample_manager"
  by code_simp

definition other_manager :: SiteManager where
  "other_manager = \<lparr>sm_site_dict = [(''ddb0'', ''10.0.0.1:6666''), (''ddb1'', ''10.0.0.3:6666'')],
     sm_sites = [''10.0.0.1:6666'', ''10.0.0.3:6666''], sm_local_site_name = ''ddb1''\<rparr>"

lemma sample_scan:
  "\<exists>w'. scan_with sample_server (\<lambda>_. sample_time) other_manager two_nodes sample_world = Inr (''ok'', w') \<and>
    w_events w' = [Request ''10.0.0.1:6666'' ''data_push'' ''1,'']"
proof -
  have "case scan_with sample_server (\<lambda>_. sample_time) other_manager two_nodes sample_world of
      Inl _ \<Rightarrow> False | Inr (r, w') \<Rightarrow> r = ''ok'' \<and> w_events w' = [Request ''10.0.0.1:6666'' ''data_push'' ''1,'']"
    by code_simp
  then show ?thesis by (auto split: sum.splits)
qed

theorem messages_well_typed_witness:
  "\<exists>w'. scan_with sample_server (\<lambda>_. sample_time) other_manager two_nodes sample_world = Inr (''ok'', w') \<and>
    w_events w' = [Request ''10.0.0.1:6666'' ''data_push'' ''1,''] \<and> sends other_manager ''data_push'' sample_world w'"
  using sample_scan messages_well_typed [THEN conjunct1] by blast

definition no_surroundings :: "(string \<Rightarrow> string option) surroundings" where
  "no_surroundings = \<lparr>su_planner = (\<lambda>_. Inl NullDeref), su_texts = \<lparr>tx_cstr = (\<lambda>_. []), tx_split = (\<lambda>_ _. []), tx_join_sql = (\<lambda>_ _. [])\<rparr>,
     su_stores = (\<lambda>_ _. None), su_files = (\<lambda>_. [])\<rparr>"

definition no_calls :: "(string \<Rightarrow> string option, unit) undefined_calls" where
  "no_calls = \<lparr>uc_config = (\<lambda>_ _. None), uc_site_plan_execute = (\<lambda>_ _. None)\<rparr>"

theorem answered_messages_witness:
  "\<exists>r w'. deal_with_msg sample_server no_surroundings no_calls (\<lambda>_. sample_time) sample_manager ''conf'' ''partition'' sample_world = Some (Inr (r, w')) \<and>
    r = ''error'' \<and> w' = sample_world"
proof -
  have "\<exists>r w'. deal_with_msg sample_server no_surroundings no_calls (\<lambda>_. sample_time) sample_manager ''conf'' ''partition'' sample_world = Some (Inr (r, w'))"
    by (simp add: deal_with_msg_def)
  then obtain r w' where r: "deal_with_msg sample_server no_surroundings no_calls (\<lambda>_. sample_time) sample_manager ''conf'' ''partition'' sample_world = Some (Inr (r, w'))"
    by blast
  from answered_messages [OF r] r show ?thesis by simp
qed

section \<open>The marks in the store\<close>

text \<open>The store holds a plan when it has the fields of every node under their keys, as \<open>save_plan_to_etcd\<close> writes them.\<close>

definition plan_held :: "('s \<Rightarrow> string \<Rightarrow> string option) \<Rightarrow> 's \<Rightarrow> AugmentedPlan \<Rightarrow> bool" where
  "plan_held look s p = (\<forall>i < plan_size p. \<forall>(a, v) \<in> set (node_fields (node_at p i)). look s (to_string (int i) @ a) = Some v)"

lemma saved_plan_held:
  assumes "etcd_service E look" and "plan_fits plan"
  shows "\<exists>s'. save_plan_writes E plan s = Inr s' \<and> plan_held look s' plan"
  using save_plan_look [OF assms, of s] unfolding plan_held_def by blast

lemma node_fields_finish:
  assumes "j < plan_size p" and "(a, v) \<in> set (node_fields (node_at (finish i p) j))"
  shows "if j = i \<and> a = ''is_finished'' then v = ''1'' else (a, v) \<in> set (node_fields (node_at p j))"
proof -
  have "to_string 1 = ''1''" by (simp add: to_string_def nat_to_string_small digit_char_def)
  with assms show ?thesis by (auto simp: node_at_finish node_fields_def split: if_splits)
qed

lemma store_put_service:
  assumes "etcd_service (sv_etcd V) look" and "fits k" and "fits v" and "v \<noteq> []"
  obtains s' where "store_put V k v w = Inr (w\<lparr>w_store := s'\<rparr>)" and "look s' = (look (w_store w))(k \<mapsto> v)"
proof -
  obtain s' where "etcd_set (sv_etcd V) k v (w_store w) = Inr ([], s')" "look s' = (look (w_store w))(k \<mapsto> v)"
    by (rule etcd_set_service [OF assms])
  then show thesis using that by (simp add: store_put_def)
qed

lemma plan_held_mark:
  assumes "plan_held look s p" and "look s' = (look s)(to_string (int i) @ ''is_finished'' \<mapsto> ''1'')"
  shows "plan_held look s' (finish i p)"
proof -
  have "look s' (to_string (int j) @ a) = Some v"
    if j: "j < plan_size p" and av: "(a, v) \<in> set (node_fields (node_at (finish i p) j))" for j a v
  proof (cases "j = i \<and> a = ''is_finished''")
    case True
    with node_fields_finish [OF j av] assms(2) show ?thesis by simp
  next
    case False
    with node_fields_finish [OF j av] have "(a, v) \<in> set (node_fields (node_at p j))" by simp
    with assms(1) j have "look s (to_string (int j) @ a) = Some v" by (auto simp: plan_held_def)
    moreover have "to_string (int j) @ a \<noteq> to_string (int i) @ ''is_finished''"
      using key_eq [of a "''is_finished''" j i] field_name [OF av] False by (auto simp: is_dec_def)
    ultimately show ?thesis using assms(2) by simp
  qed
  then show ?thesis by (auto simp: plan_held_def)
qed

text \<open>Keys that do not start with a digit are not keys of nodes.\<close>

lemma key_other:
  assumes "\<not> is_dec (hd k)"
  shows "to_string (int j) @ a \<noteq> k"
proof -
  have "is_dec (hd (nat_to_string j @ a))" using nat_to_string_is_dec [of j] nat_to_string_nonempty [of j] by (simp add: hd_append)
  with assms show ?thesis by (auto simp: to_string_def)
qed

lemma plan_held_other:
  assumes "plan_held look s p" and "look s' = (look s)(k \<mapsto> v)" and "\<not> is_dec (hd k)"
  shows "plan_held look s' p"
  using assms(1,2) key_other [OF assms(3)] by (auto simp: plan_held_def)

lemma mark_fits: "int32 i \<Longrightarrow> fits (to_string i @ ''is_finished'')" "fits ''1''" "fits ''result''" "fits ''is_finished''"
  using key_fits [of i "''is_finished''"] by (simp_all add: fits_def)

text \<open>
  C37: the mark of a node in the store is the step of the scheduler. On a store that holds a plan, setting the key the code sets when a
  node is done succeeds and leaves a store that holds the plan with just that node finished.
\<close>

theorem mark_refines_finish:
  assumes "etcd_service (sv_etcd V) look" and "plan_held look (w_store w) p" and "i < plan_size p" and "int32 (int i)"
  shows "\<exists>s'. store_put V (to_string (int i) @ ''is_finished'') ''1'' w = Inr (w\<lparr>w_store := s'\<rparr>) \<and> plan_held look s' (finish i p)"
proof -
  obtain s' where "store_put V (to_string (int i) @ ''is_finished'') ''1'' w = Inr (w\<lparr>w_store := s'\<rparr>)"
    "look s' = (look (w_store w))(to_string (int i) @ ''is_finished'' \<mapsto> ''1'')"
    by (rule store_put_service [OF assms(1) mark_fits(1) [OF assms(4)] mark_fits(2), of w]) simp_all
  with plan_held_mark [OF assms(2)] show ?thesis by blast
qed

theorem mark_refines_finish_witness:
  "\<exists>s s'. save_plan_writes memo_etcd sample_plan (\<lambda>_. None) = Inr s \<and>
    store_put sample_server (to_string 0 @ ''is_finished'') ''1'' (sample_world\<lparr>w_store := s\<rparr>) = Inr (sample_world\<lparr>w_store := s'\<rparr>) \<and>
    plan_held (\<lambda>m. m) s' (finish 0 sample_plan)"
proof -
  have f: "plan_fits sample_plan" by code_simp
  from saved_plan_held [OF memo_service f] obtain s where s: "save_plan_writes memo_etcd sample_plan (\<lambda>_. None) = Inr s" "plan_held (\<lambda>m. m) s sample_plan"
    by blast
  have e: "etcd_service (sv_etcd sample_server) (\<lambda>m. m)" by (simp add: sample_server_def memo_service)
  have h: "plan_held (\<lambda>m. m) (w_store (sample_world\<lparr>w_store := s\<rparr>)) sample_plan" using s(2) by simp
  have "0 < plan_size sample_plan" "int32 (int 0)" by (simp_all add: sample_plan_def int32_def)
  from mark_refines_finish [OF e h this] s(1) show ?thesis by auto
qed

section \<open>What pushing a node does\<close>

text \<open>A database a site can connect to, and what it makes of a statement.\<close>

definition connects :: "'d mysql \<Rightarrow> string \<Rightarrow> bool" where
  "connects M site = (\<forall>d. real_connect M (fst (site_port site)) (snd (site_port site)) d)"

definition run_sql :: "'d mysql \<Rightarrow> string \<Rightarrow> string \<Rightarrow> 'd \<Rightarrow> 'd" where
  "run_sql M site sql d = snd (mysql_query M (fst (site_port site)) (snd (site_port site)) (c_string sql) d)"

definition table_sqls :: "AugmentedPlan \<Rightarrow> nat \<Rightarrow> string \<Rightarrow> string list" where
  "table_sqls p i data = [''create table node'' @ to_string (int i) @ ap_savesql (node_at p i),
     ''insert into '' @ to_string (int i) @ '' values '' @ data]"

definition clear_sqls :: "AugmentedPlan \<Rightarrow> nat \<Rightarrow> string list" where
  "clear_sqls p i = map (\<lambda>j. ''delete from  '' @ to_string (int j)) (filter (\<lambda>j. ap_parent_id (node_at p j) = int i) [0..<plan_size p])"

lemma db_run_connects: "connects (sv_mysql V) site \<Longrightarrow> db_run V site sql w = Inr (w\<lparr>w_db := run_sql (sv_mysql V) site sql (w_db w)\<rparr>)"
  by (cases "site_port site") (simp add: db_run_def create_insert_delete_sql_def connects_def run_sql_def split: prod.splits)

lemma delete_children:
  assumes "connects (sv_mysql V) (sm_local_site_name m)" and "\<forall>j \<in> set js. j < plan_size p"
  shows "rfold (delete_child V m p (int i)) js w = Inr (w\<lparr>w_db := fold (run_sql (sv_mysql V) (sm_local_site_name m))
     (map (\<lambda>j. ''delete from  '' @ to_string (int j)) (filter (\<lambda>j. ap_parent_id (node_at p j) = int i) js)) (w_db w)\<rparr>)"
  using assms(2) by (induction js arbitrary: w) (simp_all add: delete_child_def delete_data_def db_run_connects [OF assms(1)])

lemma data_push_split:
  assumes "connects (sv_mysql V) (sm_local_site_name m)" and "pl_node_num p = int (plan_size p)"
    and "select_sql (sv_mysql V) (sm_local_site_name m) sql (w_db w) = Inr (data, d)"
  shows "data_push V ltm (int i) sql m target p is_root w =
    rbind (deliver V ltm (int i) (to_string (int i) @ '','' @ data) m target p is_root (w\<lparr>w_db := d\<rparr>)) (\<lambda>w.
      Inr (w\<lparr>w_db := fold (run_sql (sv_mysql V) (sm_local_site_name m)) (clear_sqls p i) (w_db w)\<rparr>))"
  using assms by (simp add: data_push_def delete_children [OF assms(1)] clear_sqls_def cong: rbind_cong)

lemma vat_int_nat: "i < length xs \<Longrightarrow> vat_int xs (int i) = Inr (xs ! i)"
  by (simp add: vat_int_def)

lemma deliver_local:
  assumes "etcd_service (sv_etcd V) look" and "plan_held look (w_store w) p" and "i < plan_size p" and "int32 (int i)"
    and "connects (sv_mysql V) (sm_local_site_name m)"
  shows "\<exists>s'. deliver V ltm (int i) (to_string (int i) @ '','' @ data) m (sm_local_site_name m) p False w =
      Inr (w\<lparr>w_store := s', w_db := fold (run_sql (sv_mysql V) (sm_local_site_name m)) (table_sqls p i data) (w_db w), w_events := w_events w @ [Fork_scan]\<rparr>) \<and>
    plan_held look s' (finish i p)"
proof -
  let ?w = "w\<lparr>w_db := fold (run_sql (sv_mysql V) (sm_local_site_name m)) (table_sqls p i data) (w_db w)\<rparr>"
  obtain s' where s': "store_put V (to_string (int i) @ ''is_finished'') ''1'' ?w = Inr (?w\<lparr>w_store := s'\<rparr>)"
    "look s' = (look (w_store ?w))(to_string (int i) @ ''is_finished'' \<mapsto> ''1'')"
    by (rule store_put_service [OF assms(1) mark_fits(1) [OF assms(4)] mark_fits(2), of ?w]) simp_all
  have "plan_held look s' (finish i p)" using plan_held_mark [OF assms(2)] s'(2) by simp
  moreover have "deliver V ltm (int i) (to_string (int i) @ '','' @ data) m (sm_local_site_name m) p False w =
      rbind (store_put V (to_string (int i) @ ''is_finished'') ''1'' ?w) (\<lambda>w. Inr (emit Fork_scan w))"
    unfolding deliver_def push_local_def message_split vat_int_nat [OF assms(3)]
    by (simp add: db_run_connects [OF assms(5)] table_sqls_def)
  ultimately show ?thesis using s'(1) by (intro exI [of _ s']) (simp add: emit_def)
qed

lemma deliver_root:
  assumes "etcd_service (sv_etcd V) look" and "plan_held look (w_store w) p" and "int32 (int i)" and "fits (result_file ltm)"
  shows "\<exists>s'. deliver V ltm (int i) (to_string (int i) @ '','' @ data) m target p True w =
      Inr (w\<lparr>w_store := s', w_events := w_events w @ [Write_file (result_file ltm) data]\<rparr>) \<and>
    plan_held look s' (finish i p) \<and> look s' ''result'' = Some (result_file ltm) \<and> look s' ''is_finished'' = Some ''1''"
proof -
  let ?w = "w\<lparr>w_events := w_events w @ [Write_file (result_file ltm) data]\<rparr>" and ?k = "to_string (int i) @ ''is_finished''"
  have f: "result_file ltm \<noteq> []" by (simp add: result_file_def)
  obtain s1 where 1: "store_put V ''result'' (result_file ltm) ?w = Inr (?w\<lparr>w_store := s1\<rparr>)" "look s1 = (look (w_store ?w))(''result'' \<mapsto> result_file ltm)"
    by (rule store_put_service [OF assms(1) mark_fits(3) assms(4) f])
  obtain s2 where 2: "store_put V ?k ''1'' (?w\<lparr>w_store := s1\<rparr>) = Inr (?w\<lparr>w_store := s2\<rparr>)" "look s2 = (look s1)(?k \<mapsto> ''1'')"
    by (rule store_put_service [OF assms(1) mark_fits(1) [OF assms(3)] mark_fits(2), of "?w\<lparr>w_store := s1\<rparr>"]) simp_all
  obtain s3 where 3: "store_put V ''is_finished'' ''1'' (?w\<lparr>w_store := s2\<rparr>) = Inr (?w\<lparr>w_store := s3\<rparr>)" "look s3 = (look s2)(''is_finished'' \<mapsto> ''1'')"
    by (rule store_put_service [OF assms(1) mark_fits(4,2), of "?w\<lparr>w_store := s2\<rparr>"]) simp_all
  have "plan_held look s1 p" by (rule plan_held_other [OF _ 1(2)]) (use assms(2) in \<open>simp_all add: is_dec_def\<close>)
  then have "plan_held look s2 (finish i p)" using 2(2) by (rule plan_held_mark)
  then have "plan_held look s3 (finish i p)" using 3(2) by (rule plan_held_other) (simp add: is_dec_def)
  moreover have "look s3 ''result'' = Some (result_file ltm)" using 1(2) 2(2) 3(2) key_other [of "''result''" i "''is_finished''"] by (simp add: is_dec_def)
  ultimately show ?thesis using 1(1) 2(1) 3
    unfolding deliver_def message_split by (intro exI [of _ s3]) (simp add: emit_def)
qed

lemma push_root:
  assumes "etcd_service (sv_etcd V) look" and "plan_held look (w_store w) p" and "pl_node_num p = int (plan_size p)"
    and "int32 (int i)" and "connects (sv_mysql V) (sm_local_site_name m)"
    and "select_sql (sv_mysql V) (sm_local_site_name m) sql (w_db w) = Inr (data, d)" and "fits (result_file ltm)"
  shows "\<exists>s'. data_push V ltm (int i) sql m target p True w =
      Inr (w\<lparr>w_store := s', w_db := fold (run_sql (sv_mysql V) (sm_local_site_name m)) (clear_sqls p i) d,
        w_events := w_events w @ [Write_file (result_file ltm) data]\<rparr>) \<and>
    plan_held look s' (finish i p) \<and> look s' ''result'' = Some (result_file ltm) \<and> look s' ''is_finished'' = Some ''1''"
proof -
  have "plan_held look (w_store (w\<lparr>w_db := d\<rparr>)) p" using assms(2) by simp
  from deliver_root [OF assms(1) this assms(4,7), of data m target] obtain s' where
    "deliver V ltm (int i) (to_string (int i) @ '','' @ data) m target p True (w\<lparr>w_db := d\<rparr>) =
      Inr (w\<lparr>w_db := d, w_store := s', w_events := w_events w @ [Write_file (result_file ltm) data]\<rparr>)"
    "plan_held look s' (finish i p)" "look s' ''result'' = Some (result_file ltm)" "look s' ''is_finished'' = Some ''1''" by auto
  then show ?thesis unfolding data_push_split [OF assms(5,3,6)] by (intro exI [of _ s']) simp
qed

lemma push_home:
  assumes "etcd_service (sv_etcd V) look" and "plan_held look (w_store w) p" and "pl_node_num p = int (plan_size p)" and "i < plan_size p"
    and "int32 (int i)" and "connects (sv_mysql V) (sm_local_site_name m)"
    and "select_sql (sv_mysql V) (sm_local_site_name m) sql (w_db w) = Inr (data, d)"
  shows "\<exists>s'. data_push V ltm (int i) sql m (sm_local_site_name m) p False w = Inr (w\<lparr>w_store := s',
      w_db := fold (run_sql (sv_mysql V) (sm_local_site_name m)) (table_sqls p i data @ clear_sqls p i) d, w_events := w_events w @ [Fork_scan]\<rparr>) \<and>
    plan_held look s' (finish i p)"
proof -
  have "plan_held look (w_store (w\<lparr>w_db := d\<rparr>)) p" using assms(2) by simp
  from deliver_local [OF assms(1) this assms(4-6), of ltm data] obtain s' where
    "deliver V ltm (int i) (to_string (int i) @ '','' @ data) m (sm_local_site_name m) p False (w\<lparr>w_db := d\<rparr>) =
      Inr (w\<lparr>w_store := s', w_db := fold (run_sql (sv_mysql V) (sm_local_site_name m)) (table_sqls p i data) d, w_events := w_events w @ [Fork_scan]\<rparr>)"
    "plan_held look s' (finish i p)" by auto
  then show ?thesis unfolding data_push_split [OF assms(6,3,7)] by (intro exI [of _ s']) simp
qed

lemma push_away:
  assumes "pl_node_num p = int (plan_size p)" and "connects (sv_mysql V) (sm_local_site_name m)" and "target \<noteq> sm_local_site_name m"
    and "select_sql (sv_mysql V) (sm_local_site_name m) sql (w_db w) = Inr (data, d)"
  shows "data_push V ltm (int i) sql m target p False w = (case map_of (sm_site_dict m) target of
       None \<Rightarrow> Inl OutOfBounds
     | Some addr \<Rightarrow> Inr (w\<lparr>w_db := fold (run_sql (sv_mysql V) (sm_local_site_name m)) (clear_sqls p i) d,
         w_events := w_events w @ [Request addr ''data_push'' (to_string (int i) @ '','' @ data)]\<rparr>))"
  unfolding data_push_split [OF assms(2,1,4)]
  using assms(3) by (simp add: deliver_def send_site_message_def emit_def split: option.split)

end
