(* ===== verification/Spec2Isabelle.thy ===== *)
theory Spec2Isabelle
  imports Plan_Root Client_Shell Cluster_Service
begin

text \<open>
  A verification library for easyDDB, a small distributed SQL database in C++.

  \<^bold>\<open>The program.\<close> A client (src/src/client) reads lines and sends SQL statements to a server. A server (src/src/db_server/db.cpp)
  has the statement parsed (src/sql-parser and the classes under optimizer/sql), turns a query into a tree over the fragments of
  the tables (optimizer/preprocess.h), the tree into an execution plan, puts the plan into the key-value store etcd
  (metadata/metadata.cpp) and tells every site about it. A site repeatedly scans the plan for nodes it can execute, runs
  their statements in its MySQL database (mysql_connector) and pushes the rows to the site of the parent node, until the root is
  done and its rows are the answer. INSERT and DELETE statements are routed to the sites whose fragments they concern.

  \<^bold>\<open>Conventions.\<close> Functions keep the names of the source. A function that can throw or meet undefined behaviour returns
  \<open>'a res\<close>, that is \<open>cxx_error + 'a\<close>, and each such place of the source is a branch that returns an error. State is passed
  explicitly. Loops are structural recursion, \<open>rfold\<close> over the indices or elements, or, where they need not end, partial
  functions into \<open>option\<close> in which not returning is \<open>None\<close>; no fuel is used. A C \<open>int\<close> is an \<open>int\<close>, with wrap-around
  written out in \<open>ddbstr2int\<close> and \<open>get_section\<close>; signed characters and bit operations are those of the Base64 coder. Libraries, services and
  functions that the source calls without defining are arguments.

  \<^bold>\<open>The theories.\<close>
  \<^item> \<open>Ddb_Prelude\<close>: failures, strings, numbers as text, ordered maps and their laws; the interfaces \<open>registry\<close> (a table that keeps
    its first entries, interpreted on the site table and on the commands of the shell) and \<open>effect_order\<close> (what a sequence of
    effects keeps, interpreted on sent messages and on plans).
  \<^item> \<open>Conditions\<close>, \<open>Pruning\<close>, \<open>Catalog\<close>: utils.h (\<open>Condition\<close>, \<open>Fragment\<close>, \<open>metadataTable\<close>), \<open>check_condition\<close> and \<open>getMetadata\<close>.
    Parsing a condition is inverse to its text, pruning selects exactly the rows that satisfy the predicates, and the
    catalogued fragments partition the rows.
  \<^item> \<open>Sql_Enums\<close>, \<open>Sql_Ast\<close>, \<open>Sql_Make\<close>, \<open>Sql_Destroy\<close>, \<open>Sql_Print\<close>: the classes under optimizer/sql, with their constructors, destructors
    and the printer of util/sqlhelper.cpp. A destructor is the sequence of blocks it releases and null pointers it follows. The
    interface \<open>destructor\<close> states that it releases every owned block once and follows a null pointer only on a tree that is not intact; it is
    interpreted on the destructors of the tree, of the statements and of the parser result.
  \<^item> \<open>Parser_Result\<close>: SQLParserResult.cpp and SQLParser.cpp, on top of a generated scanner and grammar that are arguments.
  \<^item> \<open>Dml_Routing\<close>: \<open>InsertProcess\<close>, \<open>DeleteProcess\<close>, \<open>createInsertSql\<close> and \<open>StrSplit\<close>. Routing uses pruning through the interface
    \<open>sound_test\<close>; an insert reaches the sites whose condition its row satisfies, a delete reaches every match.
  \<^item> \<open>Sql_Analysis\<close>, \<open>Join_Order\<close>: \<open>get_Expression\<close>, \<open>init_SQL\<close>, \<open>sortJoin\<close>, \<open>get_joinList\<close>, \<open>get_pattern\<close>. The collected predicates and joins
    mean the WHERE clause, the search for join lists is exact, and merged patterns multiply out to the join lists.
  \<^item> \<open>Query_Tree\<close>, \<open>Tree_Shape\<close>, \<open>Plan_Tree\<close>, \<open>Plan_Frags\<close>, \<open>Plan_Root\<close>: \<open>treeNode\<close>, \<open>Tree\<close>, every phase of \<open>build_query_tree\<close> and \<open>SelectProcess\<close>; the
    invariants of its phases, that its nodes form one tree, and that no row that satisfies the query is lost.
  \<^item> \<open>Base64\<close>, \<open>Etcd_Store\<close>, \<open>Mysql_Connector\<close>: metadata.cpp and mysql_connector.cpp. The coder is inverted up to 54 characters and
    never beyond; the fixed buffers hold up to 1023 and 4999 characters; rows become the tuples of an INSERT statement.
  \<^item> \<open>Plan_Store\<close>, \<open>Plan_Builder\<close>, \<open>Plan_Scheduler\<close>, \<open>Cluster_Service\<close>: db.cpp and cluster_manager.cpp. With a key-value service that obeys
    \<open>etcd_service\<close>, the access functions are update and lookup, a saved plan can be read node by node but not as a whole;
    the builder makes no plan with a node; the scan is a declarative readiness condition, operands finish first, and
    the sites can always finish a plan exactly when no node is its own ancestor; the mark set in the store is the step of the scheduler.
  \<^item> \<open>Client_Shell\<close>: cli.cpp and client.cpp, the shell as a state machine over the lines it reads.
  This theory holds the property that spans the server, its database, the store and the scheduler: what pushing a node does.

  \<^bold>\<open>Readings.\<close> db.cpp does not compile as it stands. The model reads \<open>json_to_string\<close>, \<open>string_to_json\<close> and \<open>get_etcd\<close> as \<open>json2string\<close>,
  \<open>string2json\<close> and \<open>etcd_get\<close>, \<open>save_sql\<close> as the member \<open>savesql\<close>, \<open>plan[i]\<close> as \<open>plan.augplannodes[i]\<close>, \<open>node.id\<close> as \<open>node_id\<close>,
  \<open>node_to_execute\<close> in \<open>find_node_to_build\<close> as its result, the comparison of the mark with the number 1 as one with the text 1,
  and \<open>plan_scan()\<close> with the site manager as its argument. Texts used as keys of the store are taken as written. \<open>name_map\<close> is the empty map it is where it is declared.

  \<^bold>\<open>Not modelled.\<close> The bison and flex output, brpc, nlohmann JSON, jsoncpp, libcurl, readline and the MySQL client library are
  arguments or left out. Of a join node of a plan the statement text is an argument, because the source adds a number to a
  string there; for the same reason \<open>string::split\<close>, \<open>Condition::getStr\<close>, \<open>config\<close> and \<open>site_plan_execute\<close>, which no file defines, are
  arguments. Console output other than the statement printer and the client, logging and timing are left out. DQLexecute.cpp
  is a copy of db.cpp without the server program; cluster_executer.cpp, etcd_connector.cpp and optimizer.cpp have no code, and
  site_executor.cpp has one empty function.
\<close>

section \<open>A node from the plan to the store\<close>

text \<open>
  C36: what pushing a node does, on every path. A site has picked node \<open>i\<close> of a plan that the store holds, can connect to its
  database, and got rows from the statement of the node. If the node is the root, its rows go into the file of results, the
  store then holds the plan with just this node finished, the name of the file and the mark of the whole query. If its
  parent is executed here, a table is made from the rows, the store holds the plan with just this node finished, and
  another scan is started. If its parent is executed elsewhere, a message with the number of the node and the rows goes to the client of that
  site and the store is left alone; a site that is not configured is undefined behaviour. In each case the tables of the
  operands are cleared at the end.
\<close>

theorem push_ready_exact:
  assumes "etcd_service (sv_etcd V) look" and "plan_held look (w_store w) p" and "pl_node_num p = int (plan_size p)"
    and "i < plan_size p" and "int32 (int i)" and "connects (sv_mysql V) (sm_local_site_name m)"
    and "select_sql (sv_mysql V) (sm_local_site_name m) (ap_sql (node_at p i)) (w_db w) = Inr (data, d)" and "fits (result_file (now i))"
  shows "(ap_parent_id (node_at p i) = - 1 \<longrightarrow>
      (\<exists>s'. push_ready V now m p i w = Inr (w\<lparr>w_store := s', w_db := fold (run_sql (sv_mysql V) (sm_local_site_name m)) (clear_sqls p i) d,
          w_events := w_events w @ [Write_file (result_file (now i)) data]\<rparr>) \<and>
        plan_held look s' (finish i p) \<and> look s' ''result'' = Some (result_file (now i)) \<and> look s' ''is_finished'' = Some ''1'')) \<and>
    (\<forall>k < plan_size p. ap_parent_id (node_at p i) = int k \<longrightarrow>
      (if ap_execute_site (node_at p k) = sm_local_site_name m
       then \<exists>s'. push_ready V now m p i w = Inr (w\<lparr>w_store := s',
             w_db := fold (run_sql (sv_mysql V) (sm_local_site_name m)) (table_sqls p i data @ clear_sqls p i) d, w_events := w_events w @ [Fork_scan]\<rparr>) \<and>
           plan_held look s' (finish i p)
       else push_ready V now m p i w = (case map_of (sm_site_dict m) (ap_execute_site (node_at p k)) of
           None \<Rightarrow> Inl OutOfBounds
         | Some addr \<Rightarrow> Inr (w\<lparr>w_db := fold (run_sql (sv_mysql V) (sm_local_site_name m)) (clear_sqls p i) d,
             w_events := w_events w @ [Request addr ''data_push'' (to_string (int i) @ '','' @ data)]\<rparr>))))"
proof (intro conjI impI allI)
  assume "ap_parent_id (node_at p i) = - 1"
  then have "push_ready V now m p i w = data_push V (now i) (int i) (ap_sql (node_at p i)) m (sm_local_site_name m) p True w"
    using assms(4) by (simp add: push_ready_def)
  with push_root [OF assms(1-3,5-8)] show "\<exists>s'. push_ready V now m p i w = Inr (w\<lparr>w_store := s',
        w_db := fold (run_sql (sv_mysql V) (sm_local_site_name m)) (clear_sqls p i) d, w_events := w_events w @ [Write_file (result_file (now i)) data]\<rparr>) \<and>
      plan_held look s' (finish i p) \<and> look s' ''result'' = Some (result_file (now i)) \<and> look s' ''is_finished'' = Some ''1''" by simp
next
  fix k assume k: "k < plan_size p" "ap_parent_id (node_at p i) = int k"
  then have "push_ready V now m p i w = data_push V (now i) (int i) (ap_sql (node_at p i)) m (ap_execute_site (node_at p k)) p False w"
    using assms(4) by (simp add: push_ready_def vat_int_nat)
  with push_home [OF assms(1-7)] push_away [OF assms(3,6) _ assms(7)] show "if ap_execute_site (node_at p k) = sm_local_site_name m
     then \<exists>s'. push_ready V now m p i w = Inr (w\<lparr>w_store := s',
           w_db := fold (run_sql (sv_mysql V) (sm_local_site_name m)) (table_sqls p i data @ clear_sqls p i) d, w_events := w_events w @ [Fork_scan]\<rparr>) \<and>
         plan_held look s' (finish i p)
     else push_ready V now m p i w = (case map_of (sm_site_dict m) (ap_execute_site (node_at p k)) of
         None \<Rightarrow> Inl OutOfBounds
       | Some addr \<Rightarrow> Inr (w\<lparr>w_db := fold (run_sql (sv_mysql V) (sm_local_site_name m)) (clear_sqls p i) d,
           w_events := w_events w @ [Request addr ''data_push'' (to_string (int i) @ '','' @ data)]\<rparr>))" by simp
qed

text \<open>A plan whose node 1 has its parent on the site itself, and node 2 on another one; the database does not change its data.\<close>

definition spread_plan :: AugmentedPlan where
  "spread_plan = \<lparr>pl_node_num = 3, pl_augplannodes = map (\<lambda>(i, parent, site). \<lparr>ap_node_id = i, ap_parent_id = parent, ap_execute_site = site,
     ap_sql = ''select * from Publisher'', ap_savesql = ''(id int,)'', ap_is_finished = 0\<rparr>) [(0, - 1, ''ddb0''), (1, 0, ''ddb2''), (2, 1, ''ddb0'')]\<rparr>"

lemma two_rows_select: "select_sql two_rows ''ddb0'' sql () = Inr (tuples_text [[''1'', ''PRC''], [''2'', ''USA'']], ())"
  by (simp add: select_sql_def two_rows_def site_port_def add_row_def add_cell_def pop_back_def tuples_text_def tuple_text_def sq_def c_string_def)

theorem push_ready_exact_witness:
  "\<exists>s w0 w1 w2. save_plan_writes memo_etcd spread_plan (\<lambda>_. None) = Inr s \<and>
     push_ready sample_server (\<lambda>_. sample_time) sample_manager spread_plan 0 (sample_world\<lparr>w_store := s\<rparr>) = Inr w0 \<and>
     w_store w0 ''result'' = Some ''20231119300.txt'' \<and> plan_held (\<lambda>m. m) (w_store w0) (finish 0 spread_plan) \<and>
     push_ready sample_server (\<lambda>_. sample_time) sample_manager spread_plan 1 (sample_world\<lparr>w_store := s\<rparr>) = Inr w1 \<and>
     w_events w1 = [Fork_scan] \<and> plan_held (\<lambda>m. m) (w_store w1) (finish 1 spread_plan) \<and>
     push_ready sample_server (\<lambda>_. sample_time) sample_manager spread_plan 2 (sample_world\<lparr>w_store := s\<rparr>) = Inr w2 \<and>
     w_store w2 = s \<and> w_events w2 = [Request ''10.0.0.2:6666'' ''data_push'' (''2,'' @ tuples_text [[''1'', ''PRC''], [''2'', ''USA'']])]"
proof -
  have f: "plan_fits spread_plan" by code_simp
  from saved_plan_held [OF memo_service f] obtain s where s: "save_plan_writes memo_etcd spread_plan (\<lambda>_. None) = Inr s" "plan_held (\<lambda>m. m) s spread_plan"
    by blast
  let ?w = "sample_world\<lparr>w_store := s\<rparr>"
  have e: "etcd_service (sv_etcd sample_server) (\<lambda>m. m)" by (simp add: sample_server_def memo_service)
  have h: "plan_held (\<lambda>m. m) (w_store ?w) spread_plan" using s(2) by simp
  have n: "pl_node_num spread_plan = int (plan_size spread_plan)" "plan_size spread_plan = 3" by code_simp+
  have c: "connects (sv_mysql sample_server) (sm_local_site_name sample_manager)"
    by (simp add: connects_def sample_server_def two_rows_def sample_manager_def site_port_def)
  have t: "fits (result_file sample_time)" "result_file sample_time = ''20231119300.txt''" by code_simp+
  have q: "select_sql (sv_mysql sample_server) (sm_local_site_name sample_manager) (ap_sql (node_at spread_plan i)) (w_db ?w) =
      Inr (tuples_text [[''1'', ''PRC''], [''2'', ''USA'']], ())" for i
    using two_rows_select by (simp add: sample_server_def sample_manager_def)
  note all = push_ready_exact [OF e h n(1) _ _ c q, where now = "\<lambda>_. sample_time"]
  have p: "ap_parent_id (node_at spread_plan 0) = - 1" "ap_parent_id (node_at spread_plan 1) = int 0" "ap_parent_id (node_at spread_plan 2) = int 1"
    "ap_execute_site (node_at spread_plan 0) = sm_local_site_name sample_manager" "ap_execute_site (node_at spread_plan 1) = ''ddb2''"
    "map_of (sm_site_dict sample_manager) ''ddb2'' = Some ''10.0.0.2:6666''" "''ddb2'' \<noteq> sm_local_site_name sample_manager" "to_string 2 = ''2''" by code_simp+
  have "\<exists>w0. push_ready sample_server (\<lambda>_. sample_time) sample_manager spread_plan 0 ?w = Inr w0 \<and> w_store w0 ''result'' = Some ''20231119300.txt'' \<and>
      plan_held (\<lambda>m. m) (w_store w0) (finish 0 spread_plan)"
    using all [of 0] p(1) t n(2) by (auto simp: int32_def)
  moreover have "\<exists>w1. push_ready sample_server (\<lambda>_. sample_time) sample_manager spread_plan 1 ?w = Inr w1 \<and> w_events w1 = [Fork_scan] \<and>
      plan_held (\<lambda>m. m) (w_store w1) (finish 1 spread_plan)"
    using all [of 1, THEN conjunct2, rule_format, of 0] p(2,4) t(1) n(2) by (auto simp: int32_def sample_world_def)
  moreover have "\<exists>w2. push_ready sample_server (\<lambda>_. sample_time) sample_manager spread_plan 2 ?w = Inr w2 \<and> w_store w2 = s \<and>
      w_events w2 = [Request ''10.0.0.2:6666'' ''data_push'' (''2,'' @ tuples_text [[''1'', ''PRC''], [''2'', ''USA'']])]"
    using all [of 2, THEN conjunct2, rule_format, of 1] p(3,5-8) t(1) n(2) by (simp add: int32_def sample_world_def)
  ultimately show ?thesis using s(1) by blast
qed
end
